(* ===== verification/Nova_Prelude.thy ===== *)
theory Nova_Prelude
  imports Main "HOL-Library.Word" "HOL-Library.List_Lexorder" "HOL-Library.Char_ord"
begin

unbundle bit_operations_syntax

text \<open>
  Shared vocabulary of the development: Rust's machine integers as words, byte strings, the
  \<open>Result\<close> type, the checked and saturating integer operations of the standard library, and the
  fixed-width little- and big-endian encodings (\<open>to_le_bytes\<close>, \<open>to_be_bytes\<close>) with their
  round trips.

  Conventions used everywhere. \<open>u8\<close>, \<open>u16\<close>, \<open>u32\<close>, \<open>u64\<close> are words; plain \<open>+\<close> and \<open>-\<close> on them
  wrap, as in the release profile of the workspace (\<open>Cargo.toml\<close> does not enable
  \<open>overflow-checks\<close>). \<open>usize\<close> counts of in-memory collections are \<open>nat\<close>. A Rust string is an
  Isabelle \<open>string\<close>, one \<open>char\<close> per UTF-8 byte. A method with \<open>&mut self\<close> that returns a
  \<open>Result\<close> becomes a function to a pair of the new state and the result, so that writes made
  before an early return stay visible; a panic (\<open>unwrap\<close>, \<open>expect\<close>) is \<open>None\<close>.
\<close>

section \<open>Types\<close>

type_synonym u8 = "8 word"
type_synonym u16 = "16 word"
type_synonym u32 = "32 word"
type_synonym u64 = "64 word"
type_synonym bytes = "u8 list"
type_synonym datetime = int

datatype ('a, 'e) result = Ok 'a | Err 'e

fun is_ok :: "('a, 'e) result \<Rightarrow> bool" where
  "is_ok (Ok _) = True"
| "is_ok (Err _) = False"

named_theorems unat_simps \<open>unsigned values of the checked operations\<close>

section \<open>Checked and saturating arithmetic\<close>

definition checked_add :: "'a::len word \<Rightarrow> 'a word \<Rightarrow> 'a word option" where
  "checked_add a b = (if unat a + unat b < 2 ^ LENGTH('a) then Some (a + b) else None)"

definition checked_sub :: "'a::len word \<Rightarrow> 'a word \<Rightarrow> 'a word option" where
  "checked_sub a b = (if b \<le> a then Some (a - b) else None)"

definition saturating_sub :: "'a::len word \<Rightarrow> 'a word \<Rightarrow> 'a word" where
  "saturating_sub a b = (if b \<le> a then a - b else 0)"

lemma unat_plus_no_overflow [unat_simps]:
  "unat (a::'a::len word) + unat b < 2 ^ LENGTH('a) \<Longrightarrow> unat (a + b) = unat a + unat b"
  by (simp add: unat_word_ariths)

lemma unat_minus_le [unat_simps]: "(b::'a::len word) \<le> a \<Longrightarrow> unat (a - b) = unat a - unat b"
  by (rule unat_sub)

lemma checked_add_SomeD:
  "checked_add (a::'a::len word) b = Some c \<Longrightarrow> c = a + b \<and> unat c = unat a + unat b"
  by (auto simp: checked_add_def unat_simps split: if_splits)

lemma checked_add_None_iff:
  "checked_add (a::'a::len word) b = None \<longleftrightarrow> 2 ^ LENGTH('a) \<le> unat a + unat b"
  by (auto simp: checked_add_def)

lemma checked_sub_SomeD:
  "checked_sub (a::'a::len word) b = Some c \<Longrightarrow> b \<le> a \<and> c = a - b \<and> unat c + unat b = unat a"
  by (auto simp: checked_sub_def unat_simps word_le_nat_alt split: if_splits)

lemma unat_saturating_sub [unat_simps]: "unat (saturating_sub a b) = unat a - unat b"
  by (auto simp: saturating_sub_def unat_simps word_le_nat_alt)

lemma unat_bound_len: "unat (a::'a::len word) < 2 ^ LENGTH('a)"
  by (rule unsigned_less)

lemma unat_less_64: "unat (a::u64) < 2 ^ 64"
  using unat_bound_len [of a] by simp

section \<open>Bytes\<close>

definition as_bytes :: "string \<Rightarrow> bytes" where
  "as_bytes s = map of_char s"

lemma of_char_u8_inj: "(of_char c :: u8) = of_char d \<Longrightarrow> c = d"
proof -
  assume eq: "(of_char c :: u8) = of_char d"
  have unat_char: "unat (of_char e :: u8) = of_char e" for e :: char
  proof -
    have "unat (word_of_nat (of_char e) :: u8) = of_char e"
      by (simp only: unat_of_nat) simp
    then show ?thesis by (simp add: of_nat_of_char)
  qed
  from eq have "(of_char c :: nat) = of_char d"
    using unat_char by metis
  then show "c = d" by simp
qed

lemma as_bytes_inj [simp]: "as_bytes s = as_bytes t \<longleftrightarrow> s = t"
proof
  assume "as_bytes s = as_bytes t"
  then show "s = t"
    unfolding as_bytes_def
    by (rule map_injective) (auto intro: injI of_char_u8_inj)
qed simp

lemma length_as_bytes [simp]: "length (as_bytes s) = length s"
  by (simp add: as_bytes_def)

lemma as_bytes_Nil [simp]: "as_bytes [] = []"
  by (simp add: as_bytes_def)

text \<open>The base-256 digits of a number, least significant first, and their value.\<close>

fun nat_le_bytes :: "nat \<Rightarrow> nat \<Rightarrow> bytes" where
  "nat_le_bytes 0 x = []"
| "nat_le_bytes (Suc n) x = word_of_nat x # nat_le_bytes n (x div 256)"

lemma nat_le_bytes_numeral [simp]:
  "nat_le_bytes (numeral k) x = word_of_nat x # nat_le_bytes (pred_numeral k) (x div 256)"
  by (subst numeral_eq_Suc) simp

fun le_nat :: "bytes \<Rightarrow> nat" where
  "le_nat [] = 0"
| "le_nat (b # bs) = unat b + 256 * le_nat bs"

lemma length_nat_le_bytes [simp]: "length (nat_le_bytes n x) = n"
  by (induction n arbitrary: x) auto

lemma le_nat_le_bytes: "le_nat (nat_le_bytes n x) = x mod 256 ^ n"
proof (induction n arbitrary: x)
  case 0
  then show ?case by simp
next
  case (Suc n)
  have "le_nat (nat_le_bytes (Suc n) x) = x mod 256 + 256 * (x div 256 mod 256 ^ n)"
    using Suc.IH by (simp add: unat_of_nat)
  also have "\<dots> = x mod (256 * 256 ^ n)"
    by (simp add: mod_mult2_eq)
  finally show ?case by simp
qed

lemma nat_le_bytes_inj:
  "x < 256 ^ n \<Longrightarrow> y < 256 ^ n \<Longrightarrow> nat_le_bytes n x = nat_le_bytes n y \<longleftrightarrow> x = y"
  by (metis le_nat_le_bytes mod_less)

definition u16_to_le_bytes :: "u16 \<Rightarrow> bytes" where
  "u16_to_le_bytes w = nat_le_bytes 2 (unat w)"

definition u32_to_le_bytes :: "u32 \<Rightarrow> bytes" where
  "u32_to_le_bytes w = nat_le_bytes 4 (unat w)"

definition u64_to_le_bytes :: "u64 \<Rightarrow> bytes" where
  "u64_to_le_bytes w = nat_le_bytes 8 (unat w)"

definition u16_to_be_bytes :: "u16 \<Rightarrow> bytes" where
  "u16_to_be_bytes w = rev (nat_le_bytes 2 (unat w))"

definition u64_to_be_bytes :: "u64 \<Rightarrow> bytes" where
  "u64_to_be_bytes w = rev (nat_le_bytes 8 (unat w))"

definition u64_from_be_bytes :: "bytes \<Rightarrow> u64" where
  "u64_from_be_bytes bs = word_of_nat (le_nat (rev bs))"

lemma length_to_bytes [simp]:
  "length (u16_to_le_bytes a) = 2" "length (u32_to_le_bytes b) = 4"
  "length (u64_to_le_bytes c) = 8" "length (u16_to_be_bytes a) = 2"
  "length (u64_to_be_bytes c) = 8"
  by (simp_all add: u16_to_le_bytes_def u32_to_le_bytes_def u64_to_le_bytes_def
      u16_to_be_bytes_def u64_to_be_bytes_def)

lemma unat_u16_bound: "unat (w::u16) < 256 ^ 2"
  using unat_bound_len [of w] by simp

lemma unat_u32_bound: "unat (w::u32) < 256 ^ 4"
  using unat_bound_len [of w] by simp

lemma unat_u64_bound: "unat (w::u64) < 256 ^ 8"
  using unat_bound_len [of w] by simp

lemma u16_to_le_bytes_inj [simp]: "u16_to_le_bytes a = u16_to_le_bytes b \<longleftrightarrow> a = b"
  unfolding u16_to_le_bytes_def nat_le_bytes_inj [OF unat_u16_bound unat_u16_bound] by (simp add: word_unat_eq_iff)

lemma u32_to_le_bytes_inj [simp]: "u32_to_le_bytes a = u32_to_le_bytes b \<longleftrightarrow> a = b"
  unfolding u32_to_le_bytes_def nat_le_bytes_inj [OF unat_u32_bound unat_u32_bound] by (simp add: word_unat_eq_iff)

lemma u64_to_le_bytes_inj [simp]: "u64_to_le_bytes a = u64_to_le_bytes b \<longleftrightarrow> a = b"
  unfolding u64_to_le_bytes_def nat_le_bytes_inj [OF unat_u64_bound unat_u64_bound] by (simp add: word_unat_eq_iff)

lemma u16_to_be_bytes_inj [simp]: "u16_to_be_bytes a = u16_to_be_bytes b \<longleftrightarrow> a = b"
  unfolding u16_to_be_bytes_def rev_is_rev_conv
    nat_le_bytes_inj [OF unat_u16_bound unat_u16_bound] by (simp add: word_unat_eq_iff)

lemma u64_from_to_be_bytes [simp]: "u64_from_be_bytes (u64_to_be_bytes w) = w"
  unfolding u64_from_be_bytes_def u64_to_be_bytes_def rev_rev_ident le_nat_le_bytes
  using unat_u64_bound [of w] by simp

lemma u64_to_be_bytes_inj [simp]: "u64_to_be_bytes a = u64_to_be_bytes b \<longleftrightarrow> a = b"
  by (metis u64_from_to_be_bytes)

text \<open>Injectivity on a finite set that is given by enumeration, as the witnesses need it.\<close>

lemma inj_on_listI: "distinct (map f xs) \<Longrightarrow> set xs = S \<Longrightarrow> inj_on f S"
  by (simp add: distinct_map)

text \<open>Decimal display of an unsigned integer, and \<open>i64\<close> division, which truncates towards zero.\<close>

fun show_nat :: "nat \<Rightarrow> string" where
  "show_nat n = (if n < 10 then [char_of (48 + n)] else show_nat (n div 10) @ [char_of (48 + n mod 10)])"

declare show_nat.simps [simp del]

definition i64_div :: "int \<Rightarrow> int \<Rightarrow> int" where
  "i64_div a b = sgn a * sgn b * (\<bar>a\<bar> div \<bar>b\<bar>)"

text \<open>Two concatenations with equally long heads agree piecewise; used to split encodings.\<close>

lemma append_eq_same_length:
  "length xs = length us \<Longrightarrow> xs @ ys = us @ vs \<longleftrightarrow> xs = us \<and> ys = vs"
  by simp

text \<open>A zero byte ends a zero-free field: the field and what follows are determined.\<close>

lemma append_sep_eq:
  assumes "x \<notin> set xs" and "x \<notin> set us"
  shows "xs @ x # ys = us @ x # vs \<longleftrightarrow> xs = us \<and> ys = vs"
  using assms
proof (induction xs arbitrary: us)
  case Nil
  then show ?case by (cases us) auto
next
  case (Cons a xs)
  then show ?case by (cases us) auto
qed

end
