(* ===== verification/Rust_Collections.thy ===== *)
theory Rust_Collections
  imports Nova_Prelude "HOL-Library.AList"
begin

text \<open>
  The two map types of \<open>std::collections\<close> the sources use. \<open>HashMap\<close> is an association list
  without duplicate keys (the list order stands for the unspecified iteration order);
  \<open>BTreeMap\<close> is an association list with strictly ascending keys. The locale \<open>hash_map\<close> is the
  contract the clients rely on. \<open>HashMap\<close> satisfies it (interpretation \<open>hm\<close>); for the maps of
  the crate \<open>dashmap\<close>, which the sources only call, the same contract is the hypothesis under
  which a client is proved.
\<close>

section \<open>The contract of a hash map\<close>

locale hash_map =
  fixes m_empty :: "'m"
    and m_get :: "'m \<Rightarrow> 'k \<Rightarrow> 'v option"
    and m_insert :: "'m \<Rightarrow> 'k \<Rightarrow> 'v \<Rightarrow> 'm"
    and m_remove :: "'m \<Rightarrow> 'k \<Rightarrow> 'm"
    and m_iter :: "'m \<Rightarrow> ('k \<times> 'v) list"
    and m_invar :: "'m \<Rightarrow> bool"
  assumes invar_empty: "m_invar m_empty"
    and invar_insert: "m_invar m \<Longrightarrow> m_invar (m_insert m k v)"
    and invar_remove: "m_invar m \<Longrightarrow> m_invar (m_remove m k)"
    and get_empty: "m_get m_empty k = None"
    and get_insert: "m_invar m \<Longrightarrow> m_get (m_insert m k v) k' = (if k' = k then Some v else m_get m k')"
    and get_remove: "m_invar m \<Longrightarrow> m_get (m_remove m k) k' = (if k' = k then None else m_get m k')"
    and distinct_iter: "m_invar m \<Longrightarrow> distinct (map fst (m_iter m))"
    and get_iter: "m_invar m \<Longrightarrow> m_get m k = map_of (m_iter m) k"
begin

lemma mem_iter_iff: "m_invar m \<Longrightarrow> (k, v) \<in> set (m_iter m) \<longleftrightarrow> m_get m k = Some v"
  by (simp add: get_iter distinct_iter)

lemma set_iter: "m_invar m \<Longrightarrow> set (m_iter m) = {(k, v). m_get m k = Some v}"
  using mem_iter_iff by auto

lemma dom_eq_fst_iter: "m_invar m \<Longrightarrow> dom (m_get m) = fst ` set (m_iter m)"
proof -
  assume "m_invar m"
  then have "m_get m = map_of (m_iter m)" by (intro ext) (rule get_iter)
  then show ?thesis by (simp add: dom_map_of_conv_image_fst)
qed

lemma finite_dom: "m_invar m \<Longrightarrow> finite (dom (m_get m))"
  by (simp add: dom_eq_fst_iter)

lemma length_iter: "m_invar m \<Longrightarrow> length (m_iter m) = card (dom (m_get m))"
proof -
  assume inv: "m_invar m"
  have "length (m_iter m) = length (map fst (m_iter m))" by simp
  also have "\<dots> = card (set (map fst (m_iter m)))"
    using distinct_iter [OF inv] by (simp only: distinct_card)
  also have "\<dots> = card (dom (m_get m))" by (simp add: dom_eq_fst_iter [OF inv])
  finally show ?thesis .
qed

text \<open>Sums over all entries, by key; the size is the sum of ones.\<close>

lemma sum_iter:
  fixes f :: "'k \<times> 'v \<Rightarrow> nat"
  assumes inv: "m_invar m"
  shows "sum_list (map f (m_iter m)) = (\<Sum>k\<in>dom (m_get m). f (k, the (m_get m k)))"
proof -
  have d: "distinct (m_iter m)"
    using distinct_iter [OF inv] by (simp add: distinct_map)
  have "sum_list (map f (m_iter m)) = (\<Sum>p\<in>set (m_iter m). f p)"
    using d by (rule sum_list_distinct_conv_sum_set)
  also have "\<dots> = (\<Sum>k\<in>dom (m_get m). f (k, the (m_get m k)))"
    by (rule sum.reindex_bij_witness [where i = "\<lambda>k. (k, the (m_get m k))" and j = fst])
      (auto simp: set_iter [OF inv])
  finally show ?thesis .
qed

lemma sum_insert_new:
  fixes f :: "'k \<times> 'v \<Rightarrow> nat"
  assumes inv: "m_invar m" and new: "m_get m k = None"
  shows "sum_list (map f (m_iter (m_insert m k v))) = f (k, v) + sum_list (map f (m_iter m))"
proof -
  have dom: "dom (m_get (m_insert m k v)) = insert k (dom (m_get m))"
    by (auto simp: get_insert [OF inv] split: if_splits)
  have "(\<Sum>x\<in>dom (m_get m). f (x, the (m_get (m_insert m k v) x)))
      = (\<Sum>x\<in>dom (m_get m). f (x, the (m_get m x)))"
    by (rule sum.cong) (auto simp: get_insert [OF inv] new)
  then show ?thesis
    using new finite_dom [OF inv]
    by (simp add: sum_iter inv invar_insert dom get_insert domIff)
qed

lemma sum_remove:
  fixes f :: "'k \<times> 'v \<Rightarrow> nat"
  assumes inv: "m_invar m" and old: "m_get m k = Some v"
  shows "sum_list (map f (m_iter m)) = f (k, v) + sum_list (map f (m_iter (m_remove m k)))"
proof -
  have dom: "dom (m_get (m_remove m k)) = dom (m_get m) - {k}"
    by (auto simp: get_remove [OF inv] split: if_splits)
  have "(\<Sum>x\<in>dom (m_get m) - {k}. f (x, the (m_get (m_remove m k) x)))
      = (\<Sum>x\<in>dom (m_get m) - {k}. f (x, the (m_get m x)))"
    by (rule sum.cong) (auto simp: get_remove [OF inv])
  moreover have "k \<in> dom (m_get m)" using old by auto
  ultimately show ?thesis
    using finite_dom [OF inv] old
    by (simp add: sum_iter inv invar_remove dom sum.remove [of "dom (m_get m)" k])
qed

lemma sum_insert_old:
  fixes f :: "'k \<times> 'v \<Rightarrow> nat"
  assumes inv: "m_invar m" and old: "m_get m k = Some v"
  shows "f (k, v) + sum_list (map f (m_iter (m_insert m k w))) = f (k, w) + sum_list (map f (m_iter m))"
proof -
  have k: "k \<in> dom (m_get m)" using old by auto
  have dom: "dom (m_get (m_insert m k w)) = dom (m_get m)"
    using k by (auto simp: get_insert [OF inv] split: if_splits)
  have "(\<Sum>x\<in>dom (m_get m) - {k}. f (x, the (m_get (m_insert m k w) x)))
      = (\<Sum>x\<in>dom (m_get m) - {k}. f (x, the (m_get m x)))"
    by (rule sum.cong) (auto simp: get_insert [OF inv])
  then show ?thesis
    using finite_dom [OF inv] old
    by (simp add: sum_iter inv invar_insert dom sum.remove [OF _ k] get_insert [OF inv])
qed

text \<open>One entry is at most the sum.\<close>

lemma entry_le_sum:
  fixes f :: "'k \<times> 'v \<Rightarrow> nat"
  shows "m_invar m \<Longrightarrow> m_get m k = Some v \<Longrightarrow> f (k, v) \<le> sum_list (map f (m_iter m))"
  by (simp add: sum_remove [of m k v f])

lemma length_insert_new:
  "m_invar m \<Longrightarrow> m_get m k = None \<Longrightarrow> length (m_iter (m_insert m k v)) = Suc (length (m_iter m))"
  using sum_insert_new [of m k "\<lambda>_. 1" v] by (simp add: sum_list_triv)

lemma length_remove:
  "m_invar m \<Longrightarrow> m_get m k = Some v \<Longrightarrow> length (m_iter m) = Suc (length (m_iter (m_remove m k)))"
  using sum_remove [of m k v "\<lambda>_. 1"] by (simp add: sum_list_triv)

end

section \<open>HashMap\<close>

type_synonym ('k, 'v) HashMap = "('k \<times> 'v) list"

definition hm_new :: "('k, 'v) HashMap" where
  "hm_new = []"

definition hm_get :: "('k, 'v) HashMap \<Rightarrow> 'k \<Rightarrow> 'v option" where
  "hm_get m k = map_of m k"

definition hm_insert :: "('k, 'v) HashMap \<Rightarrow> 'k \<Rightarrow> 'v \<Rightarrow> ('k, 'v) HashMap" where
  "hm_insert m k v = AList.update k v m"

definition hm_remove :: "('k, 'v) HashMap \<Rightarrow> 'k \<Rightarrow> ('k, 'v) HashMap" where
  "hm_remove m k = AList.delete k m"

definition hm_iter :: "('k, 'v) HashMap \<Rightarrow> ('k \<times> 'v) list" where
  "hm_iter m = m"

definition hm_invar :: "('k, 'v) HashMap \<Rightarrow> bool" where
  "hm_invar m \<longleftrightarrow> distinct (map fst m)"

lemmas hm_defs = hm_new_def hm_get_def hm_insert_def hm_remove_def hm_iter_def hm_invar_def

interpretation hm: hash_map hm_new hm_get hm_insert hm_remove hm_iter hm_invar
  by unfold_locales
    (auto simp: hm_defs distinct_update distinct_delete update_conv' delete_conv')

lemma hm_get_insert [simp]: "hm_get (hm_insert m k v) k' = (if k' = k then Some v else hm_get m k')"
  by (simp add: hm_defs update_conv')

lemma hm_get_remove [simp]: "hm_get (hm_remove m k) k' = (if k' = k then None else hm_get m k')"
  by (simp add: hm_defs delete_conv')

lemma hm_get_new [simp]: "hm_get hm_new k = None"
  by (simp add: hm_defs)

lemma hm_invar_simps [simp, intro]:
  "hm_invar hm_new" "hm_invar m \<Longrightarrow> hm_invar (hm_insert m k v)" "hm_invar m \<Longrightarrow> hm_invar (hm_remove m k)"
  by (rule hm.invar_empty, rule hm.invar_insert, assumption, rule hm.invar_remove)

section \<open>BTreeMap\<close>

type_synonym ('k, 'v) BTreeMap = "('k \<times> 'v) list"

definition bt_invar :: "('k::linorder, 'v) BTreeMap \<Rightarrow> bool" where
  "bt_invar t \<longleftrightarrow> sorted_wrt (<) (map fst t)"

fun bt_insert :: "('k::linorder, 'v) BTreeMap \<Rightarrow> 'k \<Rightarrow> 'v \<Rightarrow> ('k, 'v) BTreeMap" where
  "bt_insert [] k v = [(k, v)]"
| "bt_insert ((k', v') # t) k v =
     (if k < k' then (k, v) # (k', v') # t
      else if k = k' then (k, v) # t
      else (k', v') # bt_insert t k v)"

definition bt_remove :: "('k::linorder, 'v) BTreeMap \<Rightarrow> 'k \<Rightarrow> ('k, 'v) BTreeMap" where
  "bt_remove t k = filter (\<lambda>p. fst p \<noteq> k) t"

definition bt_last :: "('k::linorder, 'v) BTreeMap \<Rightarrow> ('k \<times> 'v) option" where
  "bt_last t = (if t = [] then None else Some (last t))"

lemma fst_set_bt_insert: "fst ` set (bt_insert t k v) = insert k (fst ` set t)"
  by (induction t k v rule: bt_insert.induct) auto

lemma bt_insert_invar: "bt_invar t \<Longrightarrow> bt_invar (bt_insert t k v)"
proof (induction t k v rule: bt_insert.induct)
  case (1 k v)
  then show ?case by (simp add: bt_invar_def)
next
  case (2 k' v' t k v)
  then show ?case
    using fst_set_bt_insert [of t k v] by (fastforce simp: bt_invar_def)
qed

lemma bt_remove_invar: "bt_invar t \<Longrightarrow> bt_invar (bt_remove t k)"
  by (induction t) (auto simp: bt_invar_def bt_remove_def)

lemma set_bt_insert:
  "bt_invar t \<Longrightarrow> set (bt_insert t k v) = insert (k, v) {p \<in> set t. fst p \<noteq> k}"
proof (induction t k v rule: bt_insert.induct)
  case (1 k v)
  then show ?case by simp
next
  case (2 k' v' t k v)
  then have "\<forall>p\<in>set t. k' < fst p" and "bt_invar t"
    by (auto simp: bt_invar_def)
  with 2 show ?case by auto
qed

lemma set_bt_remove: "set (bt_remove t k) = {p \<in> set t. fst p \<noteq> k}"
  by (auto simp: bt_remove_def)

lemma bt_invar_distinct: "bt_invar t \<Longrightarrow> distinct (map fst t)"
  by (simp add: bt_invar_def strict_sorted_iff)

lemma bt_last_max:
  assumes "bt_invar t" and "bt_last t = Some (k, v)"
  shows "(k, v) \<in> set t \<and> (\<forall>p\<in>set t. fst p \<le> k)"
proof -
  from assms have ne: "t \<noteq> []" and l: "last t = (k, v)"
    by (auto simp: bt_last_def split: if_splits)
  then obtain us where t: "t = us @ [(k, v)]"
    by (metis append_butlast_last_id)
  show ?thesis
    using assms(1) by (auto simp: t bt_invar_def sorted_wrt_append)
qed

lemma bt_invar_functional:
  "bt_invar t \<Longrightarrow> (k, v) \<in> set t \<Longrightarrow> (k, w) \<in> set t \<Longrightarrow> v = w"
  using bt_invar_distinct eq_key_imp_eq_value by metis

section \<open>DashMap\<close>

text \<open>
  The concurrent map of the \<open>dashmap\<close> crate is a parameter: a record of its operations, one map value
  per state. \<open>dashmap_ok\<close> is the map contract above. \<open>demo_dashmap\<close> is an instance of it.
\<close>

record ('m, 'k, 'v) DashMap =
  dm_new :: 'm
  dm_get :: "'m \<Rightarrow> 'k \<Rightarrow> 'v option"
  dm_insert :: "'m \<Rightarrow> 'k \<Rightarrow> 'v \<Rightarrow> 'm"
  dm_remove :: "'m \<Rightarrow> 'k \<Rightarrow> 'm"
  dm_iter :: "'m \<Rightarrow> ('k \<times> 'v) list"

definition dm_len :: "('m, 'k, 'v) DashMap \<Rightarrow> 'm \<Rightarrow> nat" where
  "dm_len D m = length (dm_iter D m)"

definition dashmap_ok :: "('m, 'k, 'v) DashMap \<Rightarrow> bool" where
  "dashmap_ok D \<longleftrightarrow>
     hash_map (dm_new D) (dm_get D) (dm_insert D) (dm_remove D) (dm_iter D) (\<lambda>_. True)"

lemma dm_get_simps:
  assumes "dashmap_ok D"
  shows "dm_get D (dm_new D) k = None"
    "dm_get D (dm_insert D m k v) k' = (if k' = k then Some v else dm_get D m k')"
    "dm_get D (dm_remove D m k) k' = (if k' = k then None else dm_get D m k')"
  using assms
  by (simp_all add: dashmap_ok_def hash_map.get_empty hash_map.get_insert hash_map.get_remove)

lemma dm_mem_iter: "dashmap_ok D \<Longrightarrow> (k, v) \<in> set (dm_iter D m) \<longleftrightarrow> dm_get D m k = Some v"
  by (simp add: dashmap_ok_def hash_map.mem_iter_iff)

lemma dm_distinct_iter: "dashmap_ok D \<Longrightarrow> distinct (map fst (dm_iter D m))"
  by (simp add: dashmap_ok_def hash_map.distinct_iter)

lemma dm_iter_new: "dashmap_ok D \<Longrightarrow> dm_iter D (dm_new D) = []"
  using dm_mem_iter [of D _ _ "dm_new D"] dm_get_simps(1) [of D] by (cases "dm_iter D (dm_new D)") force+

lemma dm_sum_insert_new:
  fixes f :: "'k \<times> 'v \<Rightarrow> nat"
  shows "dashmap_ok D \<Longrightarrow> dm_get D m k = None \<Longrightarrow>
    sum_list (map f (dm_iter D (dm_insert D m k v))) = f (k, v) + sum_list (map f (dm_iter D m))"
  by (simp add: dashmap_ok_def hash_map.sum_insert_new)

lemma dm_sum_remove:
  fixes f :: "'k \<times> 'v \<Rightarrow> nat"
  shows "dashmap_ok D \<Longrightarrow> dm_get D m k = Some v \<Longrightarrow>
    sum_list (map f (dm_iter D m)) = f (k, v) + sum_list (map f (dm_iter D (dm_remove D m k)))"
  by (simp add: dashmap_ok_def hash_map.sum_remove)

lemma dm_len_insert_new:
  "dashmap_ok D \<Longrightarrow> dm_get D m k = None \<Longrightarrow> dm_len D (dm_insert D m k v) = Suc (dm_len D m)"
  by (simp add: dashmap_ok_def dm_len_def hash_map.length_insert_new)

lemma dm_len_remove:
  "dashmap_ok D \<Longrightarrow> dm_get D m k = Some v \<Longrightarrow> dm_len D m = Suc (dm_len D (dm_remove D m k))"
  by (simp add: dashmap_ok_def dm_len_def hash_map.length_remove)

definition demo_dashmap :: "(('k \<times> 'v) list, 'k, 'v) DashMap" where
  "demo_dashmap = \<lparr>dm_new = [], dm_get = map_of, dm_insert = (\<lambda>m k v. (k, v) # m),
     dm_remove = (\<lambda>m k. AList.delete k m), dm_iter = AList.clearjunk\<rparr>"

lemma demo_dashmap_ok: "dashmap_ok demo_dashmap"
  unfolding dashmap_ok_def demo_dashmap_def
  by unfold_locales (auto simp: delete_conv' map_of_clearjunk distinct_clearjunk)

end
