(* ===== verification/Crypto.thy ===== *)
theory Crypto
  imports Rust_Collections
begin

text \<open>
  The wrappers of \<open>protocol/src/crypto/hash.rs\<close>, \<open>crypto/keys.rs\<close>, \<open>crypto/signatures.rs\<close> and
  the addresses of \<open>identity/nova_id.rs\<close>.

  The primitives come from crates the sources only call (\<open>sha2\<close>, \<open>blake3\<close>, \<open>hex\<close>,
  \<open>bech32\<close>, \<open>ed25519-dalek\<close>, \<open>ark-groth16\<close>); they are the fields of the record \<open>crypto\<close>, an
  argument of every definition that uses them. The predicate \<open>crypto_ok\<close> collects what the
  documentation of these crates promises and the protocol relies on: digest lengths, the two
  decoders invert the encoders, and a signature made with a key verifies under it. No
  unforgeability or collision freedom is assumed here. \<open>demo_crypto\<close> is a concrete instance
  that shows these laws can hold together; it is used by the witnesses only.
\<close>

section \<open>Primitives of the third-party crates\<close>

record crypto =
  c_sha256 :: "bytes \<Rightarrow> bytes"
  c_blake3 :: "bytes \<Rightarrow> bytes"
  c_hex_encode :: "bytes \<Rightarrow> string"
  c_hex_decode :: "string \<Rightarrow> (bytes, string) result"
  c_bech32_encode :: "string \<Rightarrow> bytes \<Rightarrow> (string, string) result"
  c_bech32_decode :: "string \<Rightarrow> (string \<times> bytes, string) result"
  c_hrp_eq :: "string \<Rightarrow> string \<Rightarrow> bool"
  c_vk_from_bytes :: "bytes \<Rightarrow> bool"
  c_ed_verify :: "bytes \<Rightarrow> bytes \<Rightarrow> bytes \<Rightarrow> bool"
  c_ed_public :: "bytes \<Rightarrow> bytes"
  c_ed_sign :: "bytes \<Rightarrow> bytes \<Rightarrow> bytes"
  c_groth16_deserialize :: "bytes \<Rightarrow> (unit, string) result"

section \<open>Hash functions (crypto/hash.rs)\<close>

definition sha256 :: "crypto \<Rightarrow> bytes \<Rightarrow> bytes" where
  "sha256 C data = c_sha256 C data"

definition sha256_array :: "crypto \<Rightarrow> bytes \<Rightarrow> bytes" where
  "sha256_array C data = c_sha256 C data"

definition blake3_hash :: "crypto \<Rightarrow> bytes \<Rightarrow> bytes" where
  "blake3_hash C data = c_blake3 C data"

definition blake3_hash_vec :: "crypto \<Rightarrow> bytes \<Rightarrow> bytes" where
  "blake3_hash_vec C data = c_blake3 C data"

definition double_sha256 :: "crypto \<Rightarrow> bytes \<Rightarrow> bytes" where
  "double_sha256 C data = sha256 C (sha256 C data)"

text \<open>Feeding the parts one after the other into one hasher hashes their concatenation.\<close>

definition blake3_hash_multi :: "crypto \<Rightarrow> bytes list \<Rightarrow> bytes" where
  "blake3_hash_multi C parts = c_blake3 C (concat parts)"

text \<open>One round of \<open>merkle_root\<close>: \<open>chunks(2)\<close>, a lone last element is paired with itself.\<close>

fun merkle_next_level :: "crypto \<Rightarrow> bytes list \<Rightarrow> bytes list" where
  "merkle_next_level C (l # r # rest) = blake3_hash_multi C [l, r] # merkle_next_level C rest"
| "merkle_next_level C [l] = [blake3_hash_multi C [l, l]]"
| "merkle_next_level C [] = []"

lemma length_merkle_next_level: "length (merkle_next_level C xs) = (length xs + 1) div 2"
  by (induction C xs rule: merkle_next_level.induct) auto

function merkle_loop :: "crypto \<Rightarrow> bytes list \<Rightarrow> bytes" where
  "merkle_loop C level =
     (if length level > 1 then merkle_loop C (merkle_next_level C level) else hd level)"
  by auto
termination
  by (relation "measure (\<lambda>(C, level). length level)") (auto simp: length_merkle_next_level)

declare merkle_loop.simps [simp del]

definition merkle_root :: "crypto \<Rightarrow> bytes list \<Rightarrow> bytes" where
  "merkle_root C leaves =
     (if leaves = [] then replicate 32 0
      else if length leaves = 1 then blake3_hash_multi C [leaves ! 0, leaves ! 0]
      else merkle_loop C leaves)"

section \<open>Keys and signatures (crypto/keys.rs, crypto/signatures.rs)\<close>

datatype KeyError = InvalidSecretKey | InvalidPublicKey | KeypairMismatch

datatype SignatureError = VerificationFailed | InvalidSignatureBytes | InvalidPublicKeyBytes

record NovaKeypair =
  signing_key :: bytes

record NovaPublicKey =
  pk_bytes :: bytes

record NovaSignature =
  sig_bytes :: bytes

definition NovaKeypair_from_seed :: "bytes \<Rightarrow> NovaKeypair" where
  "NovaKeypair_from_seed seed = \<lparr>signing_key = seed\<rparr>"

definition NovaKeypair_from_bytes :: "bytes \<Rightarrow> (NovaKeypair, KeyError) result" where
  "NovaKeypair_from_bytes b = Ok (NovaKeypair_from_seed b)"

definition NovaKeypair_from_hex :: "crypto \<Rightarrow> string \<Rightarrow> (NovaKeypair, KeyError) result" where
  "NovaKeypair_from_hex C s =
     (case c_hex_decode C s of
        Err _ \<Rightarrow> Err InvalidSecretKey
      | Ok b \<Rightarrow> if length b \<noteq> 32 then Err InvalidSecretKey else NovaKeypair_from_bytes b)"

definition NovaKeypair_public_key :: "crypto \<Rightarrow> NovaKeypair \<Rightarrow> NovaPublicKey" where
  "NovaKeypair_public_key C kp = \<lparr>pk_bytes = c_ed_public C (signing_key kp)\<rparr>"

definition NovaKeypair_public_key_bytes :: "crypto \<Rightarrow> NovaKeypair \<Rightarrow> bytes" where
  "NovaKeypair_public_key_bytes C kp = c_ed_public C (signing_key kp)"

definition NovaKeypair_sign :: "crypto \<Rightarrow> NovaKeypair \<Rightarrow> bytes \<Rightarrow> NovaSignature" where
  "NovaKeypair_sign C kp msg = \<lparr>sig_bytes = c_ed_sign C (signing_key kp) msg\<rparr>"

definition NovaKeypair_secret_key_bytes :: "NovaKeypair \<Rightarrow> bytes" where
  "NovaKeypair_secret_key_bytes kp = signing_key kp"

definition NovaKeypair_to_bytes :: "NovaKeypair \<Rightarrow> bytes" where
  "NovaKeypair_to_bytes kp = NovaKeypair_secret_key_bytes kp"

definition NovaKeypair_from_secret_key_bytes :: "bytes \<Rightarrow> NovaKeypair" where
  "NovaKeypair_from_secret_key_bytes b = NovaKeypair_from_seed b"

definition NovaKeypair_public_key_hex :: "crypto \<Rightarrow> NovaKeypair \<Rightarrow> string" where
  "NovaKeypair_public_key_hex C kp = c_hex_encode C (NovaKeypair_public_key_bytes C kp)"

definition NovaKeypair_eq :: "crypto \<Rightarrow> NovaKeypair \<Rightarrow> NovaKeypair \<Rightarrow> bool" where
  "NovaKeypair_eq C kp kp' \<longleftrightarrow> NovaKeypair_public_key_bytes C kp = NovaKeypair_public_key_bytes C kp'"

definition NovaPublicKey_from_bytes :: "bytes \<Rightarrow> NovaPublicKey" where
  "NovaPublicKey_from_bytes b = \<lparr>pk_bytes = b\<rparr>"

definition NovaPublicKey_try_from_slice :: "crypto \<Rightarrow> bytes \<Rightarrow> (NovaPublicKey, KeyError) result" where
  "NovaPublicKey_try_from_slice C sl =
     (if length sl \<noteq> 32 then Err InvalidPublicKey
      else if \<not> c_vk_from_bytes C sl then Err InvalidPublicKey
      else Ok \<lparr>pk_bytes = sl\<rparr>)"

definition NovaPublicKey_verify :: "crypto \<Rightarrow> NovaPublicKey \<Rightarrow> bytes \<Rightarrow> NovaSignature \<Rightarrow> bool" where
  "NovaPublicKey_verify C pk msg sig =
     (if \<not> c_vk_from_bytes C (pk_bytes pk) then False
      else if length (sig_bytes sig) \<noteq> 64 then False
      else c_ed_verify C (pk_bytes pk) msg (sig_bytes sig))"

definition NovaKeypair_verify :: "crypto \<Rightarrow> NovaKeypair \<Rightarrow> bytes \<Rightarrow> NovaSignature \<Rightarrow> bool" where
  "NovaKeypair_verify C kp msg sig = NovaPublicKey_verify C (NovaKeypair_public_key C kp) msg sig"

definition NovaPublicKey_to_hex :: "crypto \<Rightarrow> NovaPublicKey \<Rightarrow> string" where
  "NovaPublicKey_to_hex C pk = c_hex_encode C (pk_bytes pk)"

text \<open>\<open>hex::FromHexError\<close> is its message; \<open>OddLength\<close> is what the source reuses for a bad length.\<close>

definition hex_OddLength :: string where
  "hex_OddLength = ''Odd number of digits''"

definition NovaPublicKey_from_hex :: "crypto \<Rightarrow> string \<Rightarrow> (NovaPublicKey, string) result" where
  "NovaPublicKey_from_hex C s =
     (case c_hex_decode C s of
        Err e \<Rightarrow> Err e
      | Ok b \<Rightarrow> if length b \<noteq> 32 then Err hex_OddLength else Ok \<lparr>pk_bytes = b\<rparr>)"

definition NovaSignature_from_bytes :: "bytes \<Rightarrow> NovaSignature" where
  "NovaSignature_from_bytes b = \<lparr>sig_bytes = b\<rparr>"

definition NovaSignature_to_dalek_signature :: "NovaSignature \<Rightarrow> bytes option" where
  "NovaSignature_to_dalek_signature sig =
     (if length (sig_bytes sig) = 64 then Some (sig_bytes sig) else None)"

definition NovaSignature_to_hex :: "crypto \<Rightarrow> NovaSignature \<Rightarrow> string" where
  "NovaSignature_to_hex C sig = c_hex_encode C (sig_bytes sig)"

definition NovaSignature_from_hex :: "crypto \<Rightarrow> string \<Rightarrow> (NovaSignature, string) result" where
  "NovaSignature_from_hex C s =
     (case c_hex_decode C s of
        Err e \<Rightarrow> Err e
      | Ok b \<Rightarrow> if length b \<noteq> 64 then Err hex_OddLength else Ok \<lparr>sig_bytes = b\<rparr>)"

definition sign :: "crypto \<Rightarrow> NovaKeypair \<Rightarrow> bytes \<Rightarrow> NovaSignature" where
  "sign C kp msg = NovaKeypair_sign C kp msg"

definition verify_sig :: "crypto \<Rightarrow> NovaPublicKey \<Rightarrow> bytes \<Rightarrow> NovaSignature \<Rightarrow> bool" where
  "verify_sig C pk msg sig = NovaPublicKey_verify C pk msg sig"

definition verify_raw :: "crypto \<Rightarrow> bytes \<Rightarrow> bytes \<Rightarrow> bytes \<Rightarrow> (unit, SignatureError) result" where
  "verify_raw C pk msg sig =
     (if \<not> c_vk_from_bytes C pk then Err InvalidPublicKeyBytes
      else if c_ed_verify C pk msg sig then Ok () else Err VerificationFailed)"

definition sign_to_bytes :: "crypto \<Rightarrow> NovaKeypair \<Rightarrow> bytes \<Rightarrow> bytes" where
  "sign_to_bytes C kp msg = sig_bytes (sign C kp msg)"

fun batch_verify :: "crypto \<Rightarrow> (NovaPublicKey \<times> bytes \<times> NovaSignature) list
    \<Rightarrow> (unit, SignatureError) result" where
  "batch_verify C [] = Ok ()"
| "batch_verify C ((pk, msg, sig) # items) =
     (if \<not> verify_sig C pk msg sig then Err VerificationFailed else batch_verify C items)"

section \<open>Addresses (identity/nova_id.rs)\<close>

definition NOVA_HRP :: string where
  "NOVA_HRP = ''nova''"

datatype NovaIdError =
    Bech32Decode string
  | InvalidHrp string string
  | InvalidDataLength nat nat
  | SignatureVerificationFailed
  | NoPublicKey
  | PublicKeyMismatch

record NovaId =
  key_hash :: bytes
  nid_public_key :: "NovaPublicKey option"

definition NovaId_from_public_key :: "crypto \<Rightarrow> NovaPublicKey \<Rightarrow> NovaId" where
  "NovaId_from_public_key C pk =
     \<lparr>key_hash = c_blake3 C (pk_bytes pk), nid_public_key = Some pk\<rparr>"

text \<open>\<open>to_address\<close> panics when the encoder fails.\<close>

definition NovaId_to_address :: "crypto \<Rightarrow> NovaId \<Rightarrow> string option" where
  "NovaId_to_address C nid =
     (case c_bech32_encode C NOVA_HRP (key_hash nid) of Ok a \<Rightarrow> Some a | Err _ \<Rightarrow> None)"

definition NovaId_from_address :: "crypto \<Rightarrow> string \<Rightarrow> (NovaId, NovaIdError) result" where
  "NovaId_from_address C addr =
     (case c_bech32_decode C addr of
        Err e \<Rightarrow> Err (Bech32Decode e)
      | Ok (hrp, data) \<Rightarrow>
          if \<not> c_hrp_eq C hrp NOVA_HRP then Err (InvalidHrp NOVA_HRP hrp)
          else if length data \<noteq> 32 then Err (InvalidDataLength 32 (length data))
          else Ok \<lparr>key_hash = data, nid_public_key = None\<rparr>)"

definition NovaId_verify_signature ::
  "crypto \<Rightarrow> NovaId \<Rightarrow> bytes \<Rightarrow> NovaSignature \<Rightarrow> (unit, NovaIdError) result" where
  "NovaId_verify_signature C nid msg sig =
     (case nid_public_key nid of
        None \<Rightarrow> Err NoPublicKey
      | Some pk \<Rightarrow> if NovaPublicKey_verify C pk msg sig then Ok ()
                   else Err SignatureVerificationFailed)"

definition NovaId_attach_public_key ::
  "crypto \<Rightarrow> NovaId \<Rightarrow> NovaPublicKey \<Rightarrow> NovaId \<times> (unit, NovaIdError) result" where
  "NovaId_attach_public_key C nid pk =
     (if c_blake3 C (pk_bytes pk) \<noteq> key_hash nid then (nid, Err PublicKeyMismatch)
      else (nid\<lparr>nid_public_key := Some pk\<rparr>, Ok ()))"

definition NovaId_eq :: "NovaId \<Rightarrow> NovaId \<Rightarrow> bool" where
  "NovaId_eq a b \<longleftrightarrow> key_hash a = key_hash b"

section \<open>What the crates promise\<close>

definition crypto_ok :: "crypto \<Rightarrow> bool" where
  "crypto_ok C \<longleftrightarrow>
     (\<forall>x. length (c_sha256 C x) = 32) \<and>
     (\<forall>x. length (c_blake3 C x) = 32) \<and>
     (\<forall>x. c_hex_decode C (c_hex_encode C x) = Ok x) \<and>
     (\<forall>x. length x = 32 \<longrightarrow>
        (\<exists>a. c_bech32_encode C NOVA_HRP x = Ok a \<and> c_bech32_decode C a = Ok (NOVA_HRP, x))) \<and>
     (\<forall>h. c_hrp_eq C h h) \<and>
     (\<forall>s m. length s = 32 \<longrightarrow>
        length (c_ed_public C s) = 32 \<and> c_vk_from_bytes C (c_ed_public C s) \<and>
        length (c_ed_sign C s m) = 64 \<and> c_ed_verify C (c_ed_public C s) m (c_ed_sign C s m))"

lemma crypto_okD:
  assumes "crypto_ok C"
  shows "length (c_sha256 C x) = 32" "length (c_blake3 C x) = 32"
    "c_hex_decode C (c_hex_encode C x) = Ok x" "c_hrp_eq C h h"
  using assms by (simp_all add: crypto_ok_def)

lemma crypto_ok_sign:
  assumes "crypto_ok C" and "length s = 32"
  shows "length (c_ed_public C s) = 32" "c_vk_from_bytes C (c_ed_public C s)"
    "length (c_ed_sign C s m) = 64" "c_ed_verify C (c_ed_public C s) m (c_ed_sign C s m)"
  using assms by (simp_all add: crypto_ok_def)

lemma crypto_ok_address:
  assumes "crypto_ok C" and "length (key_hash nid) = 32"
  obtains a where "NovaId_to_address C nid = Some a"
    and "NovaId_from_address C a = Ok \<lparr>key_hash = key_hash nid, nid_public_key = None\<rparr>"
proof -
  from assms obtain a where "c_bech32_encode C NOVA_HRP (key_hash nid) = Ok a"
    and "c_bech32_decode C a = Ok (NOVA_HRP, key_hash nid)"
    unfolding crypto_ok_def by blast
  then show ?thesis
    using that assms crypto_okD(4) [OF assms(1)]
    by (simp add: NovaId_to_address_def NovaId_from_address_def)
qed

lemma c_hex_encode_inj: "crypto_ok C \<Longrightarrow> c_hex_encode C x = c_hex_encode C y \<longleftrightarrow> x = y"
  by (metis crypto_okD(3) result.inject(1))

lemma sign_verifies:
  "crypto_ok C \<Longrightarrow> length (signing_key kp) = 32 \<Longrightarrow>
   NovaPublicKey_verify C (NovaKeypair_public_key C kp) m (NovaKeypair_sign C kp m)"
  by (simp add: NovaPublicKey_verify_def NovaKeypair_public_key_def NovaKeypair_sign_def
      crypto_ok_sign)

lemma public_key_hex_roundtrip:
  "crypto_ok C \<Longrightarrow> length (pk_bytes pk) = 32 \<Longrightarrow>
   NovaPublicKey_from_hex C (NovaPublicKey_to_hex C pk) = Ok pk"
  by (simp add: NovaPublicKey_from_hex_def NovaPublicKey_to_hex_def crypto_okD)

lemma batch_verify_Ok_iff:
  "batch_verify C items = Ok () \<longleftrightarrow> (\<forall>(pk, msg, sig)\<in>set items. NovaPublicKey_verify C pk msg sig)"
  by (induction C items rule: batch_verify.induct) (auto simp: verify_sig_def)

section \<open>A concrete instance\<close>

definition pad32 :: "bytes \<Rightarrow> bytes" where
  "pad32 x = take 32 (x @ replicate 32 0)"

lemma length_pad32 [simp]: "length (pad32 x) = 32"
  by (simp add: pad32_def)

definition demo_hex_encode :: "bytes \<Rightarrow> string" where
  "demo_hex_encode x = map (\<lambda>b. char_of (unat b)) x"

definition demo_hex_decode :: "string \<Rightarrow> (bytes, string) result" where
  "demo_hex_decode s = Ok (as_bytes s)"

definition demo_bech32_decode :: "string \<Rightarrow> (string \<times> bytes, string) result" where
  "demo_bech32_decode s =
     (if take 4 s = NOVA_HRP then Ok (NOVA_HRP, as_bytes (drop 4 s)) else Err ''invalid'')"

definition demo_crypto :: crypto where
  "demo_crypto = \<lparr>c_sha256 = pad32, c_blake3 = pad32, c_hex_encode = demo_hex_encode,
     c_hex_decode = demo_hex_decode,
     c_bech32_encode = (\<lambda>h x. Ok (h @ demo_hex_encode x)),
     c_bech32_decode = demo_bech32_decode, c_hrp_eq = (=),
     c_vk_from_bytes = (\<lambda>b. length b = 32),
     c_ed_verify = (\<lambda>pk m s. s = pk @ pad32 m),
     c_ed_public = (\<lambda>s. s),
     c_ed_sign = (\<lambda>s m. s @ pad32 m),
     c_groth16_deserialize = (\<lambda>b. if b = [] then Err ''empty'' else Ok ())\<rparr>"

lemma demo_hex_roundtrip [simp]: "as_bytes (demo_hex_encode x) = x"
proof -
  have "(of_char (char_of (unat b)) :: u8) = b" for b :: u8
  proof -
    have "(of_char (char_of (unat b) :: char) :: u8) = word_of_nat (of_char (char_of (unat b) :: char))"
      by (simp only: of_nat_of_char)
    also have "(of_char (char_of (unat b) :: char) :: nat) = unat b"
      using unat_bound_len [of b] by simp
    finally show ?thesis by simp
  qed
  then show ?thesis
    by (simp add: as_bytes_def demo_hex_encode_def map_idI)
qed

lemma demo_crypto_ok: "crypto_ok demo_crypto"
  unfolding crypto_ok_def
  by (simp add: demo_crypto_def demo_hex_decode_def demo_bech32_decode_def NOVA_HRP_def)

end
