(* ===== verification/Transactions.thy ===== *)
theory Transactions
  imports Crypto
begin

text \<open>
  Transactions: \<open>protocol/src/transaction/types.rs\<close>, \<open>builder.rs\<close>, \<open>signing.rs\<close>,
  \<open>verification.rs\<close> and \<open>receipt.rs\<close>. The canonical encoding \<open>signable_bytes\<close> and the transaction
  ID are written out byte by byte; \<open>verify_transaction\<close> is the whole decision list with its
  early returns. The lemmas show that the encoding determines the signed fields, that the ID
  binds them, exactly when verification accepts, and that what the builder and the signer
  produce is accepted.
\<close>

section \<open>Types (transaction/types.rs)\<close>

datatype TransactionType =
    Transfer | CreditRequest | CreditSettlement | TokenMint | TokenBurn | ConfidentialTransfer

fun TransactionType_fmt :: "TransactionType \<Rightarrow> string" where
  "TransactionType_fmt Transfer = ''Transfer''"
| "TransactionType_fmt CreditRequest = ''CreditRequest''"
| "TransactionType_fmt CreditSettlement = ''CreditSettlement''"
| "TransactionType_fmt TokenMint = ''TokenMint''"
| "TransactionType_fmt TokenBurn = ''TokenBurn''"
| "TransactionType_fmt ConfidentialTransfer = ''ConfidentialTransfer''"

datatype TransactionStatus = Pending | Confirmed | Failed | Expired

fun TransactionStatus_fmt :: "TransactionStatus \<Rightarrow> string" where
  "TransactionStatus_fmt Pending = ''Pending''"
| "TransactionStatus_fmt Confirmed = ''Confirmed''"
| "TransactionStatus_fmt Failed = ''Failed''"
| "TransactionStatus_fmt Expired = ''Expired''"

datatype Currency = BRL | USD | EUR | BTC | ETH | USDC | NOVA | Custom string

fun Currency_fmt :: "Currency \<Rightarrow> string" where
  "Currency_fmt BRL = ''BRL''"
| "Currency_fmt USD = ''USD''"
| "Currency_fmt EUR = ''EUR''"
| "Currency_fmt BTC = ''BTC''"
| "Currency_fmt ETH = ''ETH''"
| "Currency_fmt USDC = ''USDC''"
| "Currency_fmt NOVA = ''NOVA''"
| "Currency_fmt (Custom ticker) = ticker"

fun Currency_decimals :: "Currency \<Rightarrow> u8" where
  "Currency_decimals BRL = 2"
| "Currency_decimals USD = 2"
| "Currency_decimals EUR = 2"
| "Currency_decimals BTC = 8"
| "Currency_decimals NOVA = 8"
| "Currency_decimals ETH = 9"
| "Currency_decimals USDC = 6"
| "Currency_decimals (Custom _) = 8"

record Amount =
  amt_value :: u64
  amt_currency :: Currency

definition Amount_new :: "u64 \<Rightarrow> Currency \<Rightarrow> Amount" where
  "Amount_new v c = \<lparr>amt_value = v, amt_currency = c\<rparr>"

definition Amount_is_zero :: "Amount \<Rightarrow> bool" where
  "Amount_is_zero a \<longleftrightarrow> amt_value a = 0"

definition pad_zeros :: "nat \<Rightarrow> string \<Rightarrow> string" where
  "pad_zeros w s = replicate (w - length s) (CHR ''0'') @ s"

definition Amount_display_decimal :: "Amount \<Rightarrow> string" where
  "Amount_display_decimal a =
     (let decimals = unat (Currency_decimals (amt_currency a));
          divisor = (10::u64) ^ decimals;
          whole = amt_value a div divisor;
          frac = amt_value a mod divisor
      in show_nat (unat whole) @ ''.'' @ pad_zeros decimals (show_nat (unat frac)) @ '' '' @
         Currency_fmt (amt_currency a))"

definition Amount_fmt :: "Amount \<Rightarrow> string" where
  "Amount_fmt a = show_nat (unat (amt_value a)) @ '' '' @ Currency_fmt (amt_currency a)"

section \<open>Transactions (transaction/builder.rs)\<close>

record Transaction =
  tx_id :: string
  tx_version :: u16
  tx_type :: TransactionType
  tx_sender :: string
  tx_receiver :: string
  tx_amount :: Amount
  tx_fee :: u64
  tx_nonce :: u64
  tx_timestamp :: u64
  tx_payload :: "bytes option"
  tx_sender_public_key :: "string option"
  tx_signature :: "string option"
  tx_zkp_proof :: "bytes option"
  tx_proof :: "bytes option"
  tx_amount_commitment :: "bytes option"

text \<open>\<open>payload.len() as u32\<close> keeps the low 32 bits.\<close>

definition length_prefixed :: "bytes \<Rightarrow> bytes" where
  "length_prefixed b = u32_to_le_bytes (word_of_nat (length b)) @ b"

definition payload_section :: "bytes option \<Rightarrow> bytes" where
  "payload_section p =
     (case p of Some payload \<Rightarrow> 1 # length_prefixed payload | None \<Rightarrow> [0])"

definition signable_bytes :: "Transaction \<Rightarrow> bytes" where
  "signable_bytes tx =
     u16_to_le_bytes (tx_version tx) @
     as_bytes (TransactionType_fmt (tx_type tx)) @ 0 #
     as_bytes (tx_sender tx) @ 0 #
     as_bytes (tx_receiver tx) @ 0 #
     u64_to_le_bytes (amt_value (tx_amount tx)) @
     as_bytes (Currency_fmt (amt_currency (tx_amount tx))) @ 0 #
     u64_to_le_bytes (tx_fee tx) @
     u64_to_le_bytes (tx_nonce tx) @
     u64_to_le_bytes (tx_timestamp tx) @
     payload_section (tx_payload tx)"

definition tagged_section :: "u8 \<Rightarrow> bytes option \<Rightarrow> bytes" where
  "tagged_section tag p = (case p of Some b \<Rightarrow> tag # length_prefixed b | None \<Rightarrow> [])"

definition id_preimage :: "Transaction \<Rightarrow> bytes" where
  "id_preimage tx =
     signable_bytes tx @ tagged_section 2 (tx_proof tx) @ tagged_section 3 (tx_amount_commitment tx)"

definition compute_id :: "crypto \<Rightarrow> Transaction \<Rightarrow> string" where
  "compute_id C tx = c_hex_encode C (double_sha256 C (id_preimage tx))"

text \<open>\<open>J\<close> stands for \<open>serde_json::to_vec\<close>.\<close>

definition size_bytes :: "(Transaction \<Rightarrow> (bytes, string) result) \<Rightarrow> Transaction \<Rightarrow> nat" where
  "size_bytes J tx = (case J tx of Ok v \<Rightarrow> length v | Err _ \<Rightarrow> 0)"

definition fee_per_byte :: "(Transaction \<Rightarrow> (bytes, string) result) \<Rightarrow> Transaction \<Rightarrow> u64" where
  "fee_per_byte J tx =
     (let sz = word_of_nat (size_bytes J tx) in if sz = 0 then 0 else tx_fee tx div sz)"

definition is_signed :: "Transaction \<Rightarrow> bool" where
  "is_signed tx \<longleftrightarrow> tx_signature tx \<noteq> None"

definition is_shielded :: "Transaction \<Rightarrow> bool" where
  "is_shielded tx \<longleftrightarrow> tx_zkp_proof tx \<noteq> None"

definition with_proof :: "crypto \<Rightarrow> Transaction \<Rightarrow> bytes \<Rightarrow> Transaction" where
  "with_proof C tx p =
     (let tx1 = tx\<lparr>tx_proof := Some p\<rparr> in tx1\<lparr>tx_id := compute_id C tx1\<rparr>)"

definition with_commitment :: "crypto \<Rightarrow> Transaction \<Rightarrow> bytes \<Rightarrow> Transaction" where
  "with_commitment C tx cm =
     (let tx1 = tx\<lparr>tx_amount_commitment := Some cm\<rparr> in tx1\<lparr>tx_id := compute_id C tx1\<rparr>)"

definition has_proof :: "Transaction \<Rightarrow> bool" where
  "has_proof tx \<longleftrightarrow> tx_proof tx \<noteq> None"

definition has_commitment :: "Transaction \<Rightarrow> bool" where
  "has_commitment tx \<longleftrightarrow> tx_amount_commitment tx \<noteq> None"

record TransactionBuilder =
  bld_version :: u16
  bld_tx_type :: TransactionType
  bld_sender :: string
  bld_receiver :: string
  bld_amount :: Amount
  bld_fee :: u64
  bld_nonce :: u64
  bld_timestamp :: "u64 option"
  bld_payload :: "bytes option"

definition TransactionBuilder_new :: "TransactionType \<Rightarrow> TransactionBuilder" where
  "TransactionBuilder_new ty =
     \<lparr>bld_version = 1, bld_tx_type = ty, bld_sender = [], bld_receiver = [],
      bld_amount = Amount_new 0 NOVA, bld_fee = 0, bld_nonce = 0, bld_timestamp = None,
      bld_payload = None\<rparr>"

definition TransactionBuilder_version :: "TransactionBuilder \<Rightarrow> u16 \<Rightarrow> TransactionBuilder" where
  "TransactionBuilder_version b v = b\<lparr>bld_version := v\<rparr>"

definition TransactionBuilder_sender :: "TransactionBuilder \<Rightarrow> string \<Rightarrow> TransactionBuilder" where
  "TransactionBuilder_sender b s = b\<lparr>bld_sender := s\<rparr>"

definition TransactionBuilder_receiver :: "TransactionBuilder \<Rightarrow> string \<Rightarrow> TransactionBuilder" where
  "TransactionBuilder_receiver b s = b\<lparr>bld_receiver := s\<rparr>"

definition TransactionBuilder_amount :: "TransactionBuilder \<Rightarrow> Amount \<Rightarrow> TransactionBuilder" where
  "TransactionBuilder_amount b a = b\<lparr>bld_amount := a\<rparr>"

definition TransactionBuilder_fee :: "TransactionBuilder \<Rightarrow> u64 \<Rightarrow> TransactionBuilder" where
  "TransactionBuilder_fee b f = b\<lparr>bld_fee := f\<rparr>"

definition TransactionBuilder_nonce :: "TransactionBuilder \<Rightarrow> u64 \<Rightarrow> TransactionBuilder" where
  "TransactionBuilder_nonce b n = b\<lparr>bld_nonce := n\<rparr>"

definition TransactionBuilder_timestamp :: "TransactionBuilder \<Rightarrow> u64 \<Rightarrow> TransactionBuilder" where
  "TransactionBuilder_timestamp b t = b\<lparr>bld_timestamp := Some t\<rparr>"

definition TransactionBuilder_payload :: "TransactionBuilder \<Rightarrow> bytes \<Rightarrow> TransactionBuilder" where
  "TransactionBuilder_payload b d = b\<lparr>bld_payload := Some d\<rparr>"

definition TransactionBuilder_build :: "crypto \<Rightarrow> u64 \<Rightarrow> TransactionBuilder \<Rightarrow> Transaction" where
  "TransactionBuilder_build C now_ms b =
     (let tx = \<lparr>tx_id = [], tx_version = bld_version b, tx_type = bld_tx_type b,
                tx_sender = bld_sender b, tx_receiver = bld_receiver b,
                tx_amount = bld_amount b, tx_fee = bld_fee b, tx_nonce = bld_nonce b,
                tx_timestamp = (case bld_timestamp b of Some t \<Rightarrow> t | None \<Rightarrow> now_ms),
                tx_payload = bld_payload b, tx_sender_public_key = None, tx_signature = None,
                tx_zkp_proof = None, tx_proof = None, tx_amount_commitment = None\<rparr>
      in tx\<lparr>tx_id := compute_id C tx\<rparr>)"

section \<open>Signing (transaction/signing.rs)\<close>

definition sign_transaction :: "crypto \<Rightarrow> Transaction \<Rightarrow> NovaKeypair \<Rightarrow> Transaction" where
  "sign_transaction C tx kp =
     (let signable = signable_bytes tx; sig = NovaKeypair_sign C kp signable
      in tx\<lparr>tx_signature := Some (NovaSignature_to_hex C sig),
            tx_sender_public_key := Some (NovaPublicKey_to_hex C (NovaKeypair_public_key C kp))\<rparr>)"

section \<open>Verification (transaction/verification.rs)\<close>

datatype TransactionError =
    IdMismatch string string
  | MissingSignature
  | MalformedSignature string
  | InvalidSignature string
  | InvalidSenderAddress string
  | InvalidNonce u64
  | ZeroAmount
  | SelfTransfer string
  | TimestampTooFarInFuture u64 int int
  | MissingProof
  | MissingCommitment
  | InvalidProof string

definition MAX_FUTURE_SECONDS :: int where
  "MAX_FUTURE_SECONDS = 300"

text \<open>
  Check 10 and 11, the fields of a confidential transfer and the well-formedness of an attached
  proof (\<open>BalanceProof::from_bytes\<close>, which wraps the deserialiser of \<open>ark-groth16\<close>).
\<close>

definition BalanceProof_from_bytes :: "crypto \<Rightarrow> bytes \<Rightarrow> (bytes, string) result" where
  "BalanceProof_from_bytes C data =
     (case c_groth16_deserialize C data of
        Err _ \<Rightarrow> Err ''invalid Groth16 proof bytes''
      | Ok _ \<Rightarrow> Ok data)"

definition verify_proof_fields :: "crypto \<Rightarrow> Transaction \<Rightarrow> (unit, TransactionError) result" where
  "verify_proof_fields C tx =
     (if tx_type tx = ConfidentialTransfer \<and> tx_proof tx = None then Err MissingProof
      else if tx_type tx = ConfidentialTransfer \<and> tx_amount_commitment tx = None
      then Err MissingCommitment
      else (case tx_proof tx of
              None \<Rightarrow> Ok ()
            | Some p \<Rightarrow> (case BalanceProof_from_bytes C p of
                           Err e \<Rightarrow> Err (InvalidProof e) | Ok _ \<Rightarrow> Ok ())))"

text \<open>Checks 8 and 9: the sender's address, the embedded public key and the signature.\<close>

definition verify_sender :: "crypto \<Rightarrow> Transaction \<Rightarrow> NovaSignature \<Rightarrow>
    (unit, TransactionError) result option" where
  "verify_sender C tx sig =
     (let bad = Some (Err (InvalidSenderAddress (tx_sender tx))) in
      case NovaId_from_address C (tx_sender tx) of
        Err _ \<Rightarrow> bad
      | Ok _ \<Rightarrow> (case tx_sender_public_key tx of
          None \<Rightarrow> bad
        | Some pk_hex \<Rightarrow> (case NovaPublicKey_from_hex C pk_hex of
            Err _ \<Rightarrow> bad
          | Ok pk \<Rightarrow> (case NovaId_to_address C (NovaId_from_public_key C pk) of
              None \<Rightarrow> None
            | Some addr \<Rightarrow>
                if addr \<noteq> tx_sender tx then bad
                else if \<not> NovaPublicKey_verify C pk (signable_bytes tx) sig
                then Some (Err (InvalidSignature (tx_sender tx)))
                else Some (Ok ())))))"

definition verify_transaction :: "crypto \<Rightarrow> u64 \<Rightarrow> Transaction \<Rightarrow>
    (unit, TransactionError) result option" where
  "verify_transaction C now_ms tx =
     (if tx_nonce tx = 0 then Some (Err (InvalidNonce (tx_nonce tx)))
      else if amt_value (tx_amount tx) = 0 then Some (Err ZeroAmount)
      else if tx_sender tx = tx_receiver tx then Some (Err (SelfTransfer (tx_sender tx)))
      else
        let max_future_ms = now_ms + word_of_int MAX_FUTURE_SECONDS * 1000 in
        if tx_timestamp tx > max_future_ms
        then Some (Err (TimestampTooFarInFuture (tx_timestamp tx)
               (i64_div (sint (tx_timestamp tx - now_ms)) 1000) MAX_FUTURE_SECONDS))
        else
          let expected_id = compute_id C tx in
          if tx_id tx \<noteq> expected_id then Some (Err (IdMismatch expected_id (tx_id tx)))
          else (case tx_signature tx of
              None \<Rightarrow> Some (Err MissingSignature)
            | Some sig_hex \<Rightarrow> (case c_hex_decode C sig_hex of
                Err e \<Rightarrow> Some (Err (MalformedSignature (''hex decode failed: '' @ e)))
              | Ok sb \<Rightarrow>
                  if length sb \<noteq> 64
                  then Some (Err (MalformedSignature
                         (''expected 64 bytes, got '' @ show_nat (length sb))))
                  else (case verify_sender C tx (NovaSignature_from_bytes sb) of
                          None \<Rightarrow> None
                        | Some (Err e) \<Rightarrow> Some (Err e)
                        | Some (Ok _) \<Rightarrow> Some (verify_proof_fields C tx)))))"

section \<open>Receipts (transaction/receipt.rs)\<close>

record BlockInfo =
  bi_height :: u64
  bi_hash :: string
  bi_timestamp :: u64

record ReceiptHashData =
  rc_tx_id :: string
  rc_block_height :: u64
  rc_block_hash :: string
  rc_timestamp :: u64
  rc_sender :: string
  rc_receiver :: string
  rc_amount :: Amount
  rc_status :: TransactionStatus
  rc_confirmations :: u64

record TransactionReceipt = ReceiptHashData +
  rc_receipt_hash :: string

text \<open>\<open>ser\<close> stands for \<open>bincode::serialize\<close> of the hashed fields; its failure is a panic.\<close>

definition TransactionReceipt_compute_hash ::
  "crypto \<Rightarrow> (ReceiptHashData \<Rightarrow> bytes option) \<Rightarrow> TransactionReceipt \<Rightarrow> string option" where
  "TransactionReceipt_compute_hash C ser r =
     (case ser (ReceiptHashData.truncate r) of
        None \<Rightarrow> None
      | Some b \<Rightarrow> Some (c_hex_encode C (blake3_hash C b)))"

definition TransactionReceipt_from_transaction ::
  "crypto \<Rightarrow> (ReceiptHashData \<Rightarrow> bytes option) \<Rightarrow> Transaction \<Rightarrow> BlockInfo \<Rightarrow> TransactionStatus
   \<Rightarrow> TransactionReceipt option" where
  "TransactionReceipt_from_transaction C ser tx bi st =
     (let r = \<lparr>rc_tx_id = tx_id tx, rc_block_height = bi_height bi, rc_block_hash = bi_hash bi,
               rc_timestamp = bi_timestamp bi, rc_sender = tx_sender tx,
               rc_receiver = tx_receiver tx, rc_amount = tx_amount tx, rc_status = st,
               rc_confirmations = 1, rc_receipt_hash = []\<rparr>
      in case TransactionReceipt_compute_hash C ser r of
           None \<Rightarrow> None
         | Some h \<Rightarrow> Some (r\<lparr>rc_receipt_hash := h\<rparr>))"

definition TransactionReceipt_verify_integrity ::
  "crypto \<Rightarrow> (ReceiptHashData \<Rightarrow> bytes option) \<Rightarrow> TransactionReceipt \<Rightarrow> bool option" where
  "TransactionReceipt_verify_integrity C ser r =
     (case TransactionReceipt_compute_hash C ser r of
        None \<Rightarrow> None
      | Some h \<Rightarrow> Some (rc_receipt_hash r = h))"

section \<open>The encoding determines the fields\<close>

text \<open>The fields an Ed25519 signature covers, and a string without a zero byte.\<close>

definition signed_fields ::
  "Transaction \<Rightarrow> u16 \<times> TransactionType \<times> string \<times> string \<times> u64 \<times> string \<times> u64 \<times> u64 \<times> u64 \<times> bytes option" where
  "signed_fields tx = (tx_version tx, tx_type tx, tx_sender tx, tx_receiver tx,
     amt_value (tx_amount tx), Currency_fmt (amt_currency (tx_amount tx)), tx_fee tx, tx_nonce tx,
     tx_timestamp tx, tx_payload tx)"

definition nul_free :: "string \<Rightarrow> bool" where
  "nul_free s \<longleftrightarrow> CHR 0x00 \<notin> set s"

definition strings_nul_free :: "Transaction \<Rightarrow> bool" where
  "strings_nul_free tx \<longleftrightarrow> nul_free (tx_sender tx) \<and> nul_free (tx_receiver tx) \<and>
     nul_free (Currency_fmt (amt_currency (tx_amount tx)))"

lemma nul_free_as_bytes: "nul_free s \<Longrightarrow> 0 \<notin> set (as_bytes s)"
proof
  assume "nul_free s" and "0 \<in> set (as_bytes s)"
  then obtain c where "c \<in> set s" and "(of_char c :: u8) = 0"
    by (auto simp: as_bytes_def)
  moreover have "(of_char (CHR 0x00) :: u8) = 0" by simp
  ultimately show False
    using of_char_u8_inj [of c "CHR 0x00"] \<open>nul_free s\<close> by (auto simp: nul_free_def)
qed

lemma nul_free_type: "nul_free (TransactionType_fmt ty)"
  by (cases ty) (auto simp: nul_free_def)

lemma TransactionType_fmt_inj [simp]: "TransactionType_fmt a = TransactionType_fmt b \<longleftrightarrow> a = b"
  by (cases a; cases b) auto

lemma nul_separated:
  "nul_free s \<Longrightarrow> nul_free t \<Longrightarrow>
   as_bytes s @ 0 # xs = as_bytes t @ 0 # ys \<longleftrightarrow> s = t \<and> xs = ys"
  using append_sep_eq [of 0 "as_bytes s" "as_bytes t" xs ys] by (simp add: nul_free_as_bytes)

lemma fixed_width:
  "u16_to_le_bytes a @ xs = u16_to_le_bytes b @ ys \<longleftrightarrow> a = b \<and> xs = ys"
  "u32_to_le_bytes c @ xs = u32_to_le_bytes d @ ys \<longleftrightarrow> c = d \<and> xs = ys"
  "u64_to_le_bytes e @ xs = u64_to_le_bytes f @ ys \<longleftrightarrow> e = f \<and> xs = ys"
  by (simp_all add: append_eq_same_length)

lemma signable_bytes_append_iff:
  assumes "strings_nul_free a" and "strings_nul_free b"
  shows "signable_bytes a @ xs = signable_bytes b @ ys \<longleftrightarrow>
     signed_fields a = signed_fields b \<and> xs = ys \<or>
     signed_fields (a\<lparr>tx_payload := None\<rparr>) = signed_fields (b\<lparr>tx_payload := None\<rparr>) \<and>
     payload_section (tx_payload a) @ xs = payload_section (tx_payload b) @ ys"
  using assms
  by (auto simp: signable_bytes_def signed_fields_def strings_nul_free_def nul_separated
      nul_free_type fixed_width)

lemma payload_section_inj: "payload_section p = payload_section q \<longleftrightarrow> p = q"
  by (auto simp: payload_section_def length_prefixed_def append_eq_same_length split: option.splits)

lemma length_prefixed_append:
  assumes "length a < 2 ^ 32" and "length b < 2 ^ 32"
  shows "length_prefixed a @ xs = length_prefixed b @ ys \<longleftrightarrow> a = b \<and> xs = ys"
proof
  assume "length_prefixed a @ xs = length_prefixed b @ ys"
  then have len: "(word_of_nat (length a) :: u32) = word_of_nat (length b)"
    and rest: "a @ xs = b @ ys"
    by (simp_all add: length_prefixed_def fixed_width)
  from len have "unat (word_of_nat (length a) :: u32) = unat (word_of_nat (length b) :: u32)"
    by simp
  then have "length a = length b"
    using assms by (simp add: unat_of_nat)
  with rest show "a = b \<and> xs = ys" by simp
qed simp

lemma length_prefixed_inj [simp]: "length_prefixed a = length_prefixed b \<longleftrightarrow> a = b"
  by (auto simp: length_prefixed_def append_eq_same_length)

definition short :: "bytes option \<Rightarrow> bool" where
  "short p \<longleftrightarrow> (case p of None \<Rightarrow> True | Some b \<Rightarrow> length b < 2 ^ 32)"

lemma payload_section_append:
  "short p \<Longrightarrow> short q \<Longrightarrow>
   payload_section p @ xs = payload_section q @ ys \<longleftrightarrow> p = q \<and> xs = ys"
  by (auto simp: payload_section_def short_def length_prefixed_append split: option.splits)

lemma tagged_section_append:
  assumes "short p" and "short q" and "xs = [] \<or> hd xs \<noteq> tag" and "ys = [] \<or> hd ys \<noteq> tag"
  shows "tagged_section tag p @ xs = tagged_section tag q @ ys \<longleftrightarrow> p = q \<and> xs = ys"
  using assms
  by (cases p; cases q) (auto simp: tagged_section_def short_def length_prefixed_append)

lemma id_preimage_inj:
  assumes "strings_nul_free a" "strings_nul_free b"
    and "short (tx_payload a)" "short (tx_payload b)"
    and "short (tx_proof a)" "short (tx_proof b)"
    and "short (tx_amount_commitment a)" "short (tx_amount_commitment b)"
  shows "id_preimage a = id_preimage b \<longleftrightarrow>
     signed_fields a = signed_fields b \<and> tx_proof a = tx_proof b \<and>
     tx_amount_commitment a = tx_amount_commitment b"
proof -
  let ?c = "\<lambda>t. tagged_section 3 (tx_amount_commitment t)"
  have hd3: "?c t = [] \<or> hd (?c t) \<noteq> 2" for t
    by (auto simp: tagged_section_def split: option.splits)
  have comm: "?c a = ?c b \<longleftrightarrow> tx_amount_commitment a = tx_amount_commitment b"
    using tagged_section_append [of "tx_amount_commitment a" "tx_amount_commitment b" "[]" 3 "[]"]
      assms(7,8) by simp
  have sections: "tagged_section 2 (tx_proof a) @ ?c a = tagged_section 2 (tx_proof b) @ ?c b \<longleftrightarrow>
      tx_proof a = tx_proof b \<and> tx_amount_commitment a = tx_amount_commitment b"
    using tagged_section_append [OF assms(5,6) hd3 [of a] hd3 [of b]] comm by blast
  show ?thesis
    unfolding id_preimage_def signable_bytes_append_iff [OF assms(1,2)]
      payload_section_append [OF assms(3,4)] sections
    by (auto simp: signed_fields_def)
qed

section \<open>What verification accepts\<close>

text \<open>The fields that neither signing nor the public key changes.\<close>

lemma signable_bytes_update [simp]:
  "signable_bytes (tx\<lparr>tx_id := i\<rparr>) = signable_bytes tx"
  "signable_bytes (tx\<lparr>tx_signature := s\<rparr>) = signable_bytes tx"
  "signable_bytes (tx\<lparr>tx_sender_public_key := k\<rparr>) = signable_bytes tx"
  "signable_bytes (tx\<lparr>tx_proof := p\<rparr>) = signable_bytes tx"
  "signable_bytes (tx\<lparr>tx_amount_commitment := m\<rparr>) = signable_bytes tx"
  by (simp_all add: signable_bytes_def)

lemma compute_id_update [simp]:
  "compute_id C (tx\<lparr>tx_id := i\<rparr>) = compute_id C tx"
  "compute_id C (tx\<lparr>tx_signature := s\<rparr>) = compute_id C tx"
  "compute_id C (tx\<lparr>tx_sender_public_key := k\<rparr>) = compute_id C tx"
  by (simp_all add: compute_id_def id_preimage_def)

definition structurally_ok :: "crypto \<Rightarrow> u64 \<Rightarrow> Transaction \<Rightarrow> bool" where
  "structurally_ok C now_ms tx \<longleftrightarrow>
     tx_nonce tx \<noteq> 0 \<and> amt_value (tx_amount tx) \<noteq> 0 \<and> tx_sender tx \<noteq> tx_receiver tx \<and>
     tx_timestamp tx \<le> now_ms + 300000 \<and> tx_id tx = compute_id C tx"

definition proof_fields_ok :: "crypto \<Rightarrow> Transaction \<Rightarrow> bool" where
  "proof_fields_ok C tx \<longleftrightarrow>
     (tx_type tx = ConfidentialTransfer \<longrightarrow> tx_proof tx \<noteq> None \<and> tx_amount_commitment tx \<noteq> None) \<and>
     (case tx_proof tx of None \<Rightarrow> True | Some p \<Rightarrow> is_ok (c_groth16_deserialize C p))"

text \<open>The public key, decoded, signs for the sender's address.\<close>

definition signed_by :: "crypto \<Rightarrow> Transaction \<Rightarrow> NovaPublicKey \<Rightarrow> bool" where
  "signed_by C tx pk \<longleftrightarrow>
     (\<exists>sh sb ph. tx_signature tx = Some sh \<and> c_hex_decode C sh = Ok sb \<and> length sb = 64 \<and>
        tx_sender_public_key tx = Some ph \<and> NovaPublicKey_from_hex C ph = Ok pk \<and>
        NovaId_to_address C (NovaId_from_public_key C pk) = Some (tx_sender tx) \<and>
        NovaPublicKey_verify C pk (signable_bytes tx) \<lparr>sig_bytes = sb\<rparr>)"

lemma verify_proof_fields_iff: "verify_proof_fields C tx = Ok () \<longleftrightarrow> proof_fields_ok C tx"
  by (auto simp: verify_proof_fields_def proof_fields_ok_def BalanceProof_from_bytes_def
      split: option.splits result.splits)

lemma verify_sender_iff:
  "verify_sender C tx sig = Some (Ok ()) \<longleftrightarrow>
     is_ok (NovaId_from_address C (tx_sender tx)) \<and>
     (\<exists>ph pk. tx_sender_public_key tx = Some ph \<and> NovaPublicKey_from_hex C ph = Ok pk \<and>
        NovaId_to_address C (NovaId_from_public_key C pk) = Some (tx_sender tx) \<and>
        NovaPublicKey_verify C pk (signable_bytes tx) sig)"
  by (auto simp: verify_sender_def Let_def split: option.splits result.splits)

lemma verify_transaction_iff:
  "verify_transaction C now_ms tx = Some (Ok ()) \<longleftrightarrow>
     structurally_ok C now_ms tx \<and> is_ok (NovaId_from_address C (tx_sender tx)) \<and>
     (\<exists>pk. signed_by C tx pk) \<and> proof_fields_ok C tx"
proof -
  have "verify_transaction C now_ms tx = Some (Ok ()) \<longleftrightarrow>
     structurally_ok C now_ms tx \<and>
     (\<exists>sh sb. tx_signature tx = Some sh \<and> c_hex_decode C sh = Ok sb \<and> length sb = 64 \<and>
        verify_sender C tx (NovaSignature_from_bytes sb) = Some (Ok ()) \<and>
        verify_proof_fields C tx = Ok ())"
    by (auto simp: verify_transaction_def structurally_ok_def Let_def MAX_FUTURE_SECONDS_def
        not_less split: option.splits result.splits)
  then show ?thesis
    unfolding verify_sender_iff verify_proof_fields_iff signed_by_def NovaSignature_from_bytes_def
    by blast
qed

lemma key_hash_from_public_key [simp]:
  "key_hash (NovaId_from_public_key C pk) = c_blake3 C (pk_bytes pk)"
  by (simp add: NovaId_from_public_key_def)

lemma address_of_key:
  assumes "crypto_ok C" and "NovaId_to_address C (NovaId_from_public_key C pk) = Some a"
  shows "NovaId_from_address C a = Ok \<lparr>key_hash = c_blake3 C (pk_bytes pk), nid_public_key = None\<rparr>"
proof -
  obtain b where "NovaId_to_address C (NovaId_from_public_key C pk) = Some b"
    and "NovaId_from_address C b = Ok \<lparr>key_hash = c_blake3 C (pk_bytes pk), nid_public_key = None\<rparr>"
    using crypto_ok_address [OF assms(1), of "NovaId_from_public_key C pk"]
      crypto_okD(2) [OF assms(1)] by auto
  with assms(2) show ?thesis by simp
qed

lemma verify_complete:
  assumes "crypto_ok C" and "structurally_ok C now_ms tx" and "signed_by C tx pk"
    and "proof_fields_ok C tx"
  shows "verify_transaction C now_ms tx = Some (Ok ())"
proof -
  from assms(3) have "NovaId_to_address C (NovaId_from_public_key C pk) = Some (tx_sender tx)"
    by (auto simp: signed_by_def)
  from address_of_key [OF assms(1) this] assms show ?thesis
    by (auto simp: verify_transaction_iff)
qed

lemma NovaSignature_eta: "\<lparr>sig_bytes = sig_bytes s\<rparr> = (s :: NovaSignature)"
  by (cases s) simp

lemma sign_transaction_signed_by:
  assumes "crypto_ok C" and "length (signing_key kp) = 32"
    and "NovaId_to_address C (NovaId_from_public_key C (NovaKeypair_public_key C kp))
       = Some (tx_sender tx)"
  shows "signed_by C (sign_transaction C tx kp) (NovaKeypair_public_key C kp)"
proof -
  let ?sig = "NovaKeypair_sign C kp (signable_bytes tx)" and ?pk = "NovaKeypair_public_key C kp"
  have "length (sig_bytes ?sig) = 64" "length (pk_bytes ?pk) = 32"
    using assms(1,2)
    by (simp_all add: NovaKeypair_sign_def NovaKeypair_public_key_def crypto_ok_sign)
  moreover have "NovaPublicKey_from_hex C (NovaPublicKey_to_hex C ?pk) = Ok ?pk"
    using calculation(2) by (rule public_key_hex_roundtrip [OF assms(1)])
  ultimately show ?thesis
    using assms sign_verifies [OF assms(1,2), of "signable_bytes tx"] crypto_okD(3) [OF assms(1)]
    unfolding signed_by_def sign_transaction_def Let_def
    by (simp add: NovaSignature_to_hex_def NovaSignature_eta)
qed

lemma signed_by_cong:
  "signed_by C (tx\<lparr>tx_id := i\<rparr>) = signed_by C tx"
  "signed_by C (tx\<lparr>tx_proof := p\<rparr>) = signed_by C tx"
  "signed_by C (tx\<lparr>tx_amount_commitment := m\<rparr>) = signed_by C tx"
  by (auto simp: signed_by_def fun_eq_iff)

lemma signed_by_with [simp]:
  "signed_by C (with_proof C tx p) = signed_by C tx"
  "signed_by C (with_commitment C tx m) = signed_by C tx"
  by (simp_all add: with_proof_def with_commitment_def Let_def signed_by_cong)

text \<open>The fields of what the builder, the signer and the two attachments return.\<close>

lemma build_fields [simp]:
  fixes b :: TransactionBuilder and C :: crypto and now_ms :: u64
  defines "tx \<equiv> TransactionBuilder_build C now_ms b"
  shows "tx_nonce tx = bld_nonce b" "tx_amount tx = bld_amount b" "tx_sender tx = bld_sender b"
    "tx_receiver tx = bld_receiver b" "tx_type tx = bld_tx_type b" "tx_proof tx = None"
    "tx_amount_commitment tx = None"
    "tx_timestamp tx = (case bld_timestamp b of Some t \<Rightarrow> t | None \<Rightarrow> now_ms)"
    "tx_id tx = compute_id C tx"
  unfolding tx_def TransactionBuilder_build_def Let_def compute_id_update by simp_all

lemma sign_transaction_fields [simp]:
  fixes tx :: Transaction and C :: crypto and kp :: NovaKeypair
  defines "stx \<equiv> sign_transaction C tx kp"
  shows "tx_nonce stx = tx_nonce tx" "tx_amount stx = tx_amount tx" "tx_sender stx = tx_sender tx"
    "tx_receiver stx = tx_receiver tx" "tx_type stx = tx_type tx" "tx_proof stx = tx_proof tx"
    "tx_amount_commitment stx = tx_amount_commitment tx" "tx_timestamp stx = tx_timestamp tx"
    "tx_id stx = tx_id tx" "compute_id C stx = compute_id C tx"
    "signable_bytes stx = signable_bytes tx"
  unfolding stx_def sign_transaction_def Let_def by simp_all

lemma with_proof_fields [simp]:
  fixes tx :: Transaction and C :: crypto and p :: bytes
  defines "ptx \<equiv> with_proof C tx p"
  shows "tx_nonce ptx = tx_nonce tx" "tx_amount ptx = tx_amount tx" "tx_sender ptx = tx_sender tx"
    "tx_receiver ptx = tx_receiver tx" "tx_type ptx = tx_type tx" "tx_proof ptx = Some p"
    "tx_amount_commitment ptx = tx_amount_commitment tx" "tx_timestamp ptx = tx_timestamp tx"
    "tx_id ptx = compute_id C ptx"
  unfolding ptx_def with_proof_def Let_def compute_id_update by simp_all

lemma with_commitment_fields [simp]:
  fixes tx :: Transaction and C :: crypto and m :: bytes
  defines "ctx \<equiv> with_commitment C tx m"
  shows "tx_nonce ctx = tx_nonce tx" "tx_amount ctx = tx_amount tx" "tx_sender ctx = tx_sender tx"
    "tx_receiver ctx = tx_receiver tx" "tx_type ctx = tx_type tx" "tx_proof ctx = tx_proof tx"
    "tx_amount_commitment ctx = Some m" "tx_timestamp ctx = tx_timestamp tx"
    "tx_id ctx = compute_id C ctx"
  unfolding ctx_def with_commitment_def Let_def compute_id_update by simp_all

section \<open>Sample data for the witnesses\<close>

definition demo_kp :: NovaKeypair where
  "demo_kp = NovaKeypair_from_seed (replicate 32 7)"

definition demo_address :: string where
  "demo_address = NOVA_HRP @ demo_hex_encode (replicate 32 7)"

definition demo_builder :: TransactionBuilder where
  "demo_builder =
     TransactionBuilder_nonce (TransactionBuilder_amount (TransactionBuilder_receiver
       (TransactionBuilder_sender (TransactionBuilder_new Transfer) demo_address) ''nova1bob'')
       (Amount_new 50 NOVA)) 1"

definition demo_tx :: Transaction where
  "demo_tx = sign_transaction demo_crypto
     (TransactionBuilder_build demo_crypto 1000 demo_builder) demo_kp"

lemma demo_key_address:
  "NovaId_to_address demo_crypto (NovaId_from_public_key demo_crypto
     (NovaKeypair_public_key demo_crypto demo_kp)) = Some demo_address"
  by (simp add: NovaId_to_address_def NovaKeypair_public_key_def demo_kp_def
      NovaKeypair_from_seed_def demo_crypto_def demo_address_def pad32_def)

lemmas demo_builder_simps = demo_builder_def TransactionBuilder_nonce_def
  TransactionBuilder_amount_def TransactionBuilder_receiver_def TransactionBuilder_sender_def
  TransactionBuilder_new_def Amount_new_def

lemma demo_sender_ne: "demo_address \<noteq> ''nova1bob''"
proof
  assume "demo_address = ''nova1bob''"
  then have "length demo_address = length ''nova1bob''" by simp
  then show False by (simp add: demo_address_def demo_hex_encode_def NOVA_HRP_def)
qed

lemma demo_builder_fields [simp]:
  "bld_sender demo_builder = demo_address" "bld_receiver demo_builder = ''nova1bob''"
  "bld_nonce demo_builder = 1" "bld_amount demo_builder = \<lparr>amt_value = 50, amt_currency = NOVA\<rparr>"
  "bld_tx_type demo_builder = Transfer" "bld_timestamp demo_builder = None"
  by (simp_all add: demo_builder_simps)

section \<open>Properties\<close>

text \<open>
  C1. \<open>signable_bytes\<close> is unambiguous: when the addresses and the currency ticker contain no zero
  byte, two transactions have the same canonical bytes exactly when they agree on every signed
  field (version, type, sender, receiver, value, ticker, fee, nonce, timestamp, payload).
\<close>
theorem signable_bytes_unambiguous:
  assumes "strings_nul_free a" and "strings_nul_free b"
  shows "signable_bytes a = signable_bytes b \<longleftrightarrow> signed_fields a = signed_fields b"
proof -
  have "payload_section (tx_payload a) = payload_section (tx_payload b) \<Longrightarrow>
      signed_fields (a\<lparr>tx_payload := None\<rparr>) = signed_fields (b\<lparr>tx_payload := None\<rparr>) \<Longrightarrow>
      signed_fields a = signed_fields b"
    by (auto simp: payload_section_inj signed_fields_def)
  then show ?thesis
    using signable_bytes_append_iff [OF assms, of "[]" "[]"] by auto
qed

definition plain_tx :: "u64 \<Rightarrow> Transaction" where
  "plain_tx n = TransactionBuilder_build demo_crypto 1000
     (TransactionBuilder_nonce (TransactionBuilder_sender
       (TransactionBuilder_receiver (TransactionBuilder_new Transfer) ''nova1bob'') ''nova1al'') n)"

lemmas plain_tx_simps = plain_tx_def TransactionBuilder_build_def TransactionBuilder_nonce_def
  TransactionBuilder_receiver_def TransactionBuilder_sender_def TransactionBuilder_new_def
  Amount_new_def Let_def

lemma plain_tx_fields [simp]:
  "tx_sender (plain_tx n) = ''nova1al''" "tx_receiver (plain_tx n) = ''nova1bob''"
  "tx_amount (plain_tx n) = \<lparr>amt_value = 0, amt_currency = NOVA\<rparr>" "tx_nonce (plain_tx n) = n"
  "tx_payload (plain_tx n) = None" "tx_proof (plain_tx n) = None"
  "tx_amount_commitment (plain_tx n) = None"
  by (simp_all add: plain_tx_simps)

lemma plain_tx_nul_free: "strings_nul_free (plain_tx n)"
  by (simp add: strings_nul_free_def nul_free_def)

theorem signable_bytes_unambiguous_witness:
  "strings_nul_free (plain_tx 1) \<and> strings_nul_free (plain_tx 2) \<and>
   signable_bytes (plain_tx 1) \<noteq> signable_bytes (plain_tx 2)"
  using signable_bytes_unambiguous [OF plain_tx_nul_free plain_tx_nul_free, of 1 2]
  by (simp add: plain_tx_nul_free signed_fields_def)

text \<open>
  C2. The transaction ID binds the transaction: unless SHA-256 collides on the very preimages
  involved, two transactions with NUL-free strings and attachments shorter than 4 GiB have the
  same ID exactly when their signed fields, their proof and their commitment agree. The tags
  \<open>0x02\<close> and \<open>0x03\<close> and the length prefixes leave no second reading.
\<close>
theorem compute_id_binds:
  assumes "crypto_ok C" and "strings_nul_free a" and "strings_nul_free b"
    and "short (tx_payload a) \<and> short (tx_proof a) \<and> short (tx_amount_commitment a)"
    and "short (tx_payload b) \<and> short (tx_proof b) \<and> short (tx_amount_commitment b)"
    and "inj_on (c_sha256 C) {id_preimage a, id_preimage b,
           c_sha256 C (id_preimage a), c_sha256 C (id_preimage b)}"
  shows "compute_id C a = compute_id C b \<longleftrightarrow>
     signed_fields a = signed_fields b \<and> tx_proof a = tx_proof b \<and>
     tx_amount_commitment a = tx_amount_commitment b"
proof -
  have "compute_id C a = compute_id C b \<longleftrightarrow> id_preimage a = id_preimage b"
    unfolding compute_id_def c_hex_encode_inj [OF assms(1)] double_sha256_def sha256_def
    by (simp add: inj_on_eq_iff [OF assms(6)])
  then show ?thesis
    using id_preimage_inj [of a b] assms by simp
qed

lemma plain_tx_lengths:
  "short (tx_payload (plain_tx n))" "short (tx_proof (plain_tx n))"
  "short (tx_amount_commitment (plain_tx n))"
  by (simp_all add: short_def)

text \<open>A hash that separates the two sample transactions.\<close>

definition demo_crypto2 :: crypto where
  "demo_crypto2 = demo_crypto\<lparr>c_sha256 := (\<lambda>x.
     if x = id_preimage (plain_tx 1) then pad32 [1]
     else if x = id_preimage (plain_tx 2) then pad32 [2] else pad32 (3 # x))\<rparr>"

lemma demo_crypto2_ok: "crypto_ok demo_crypto2"
  using demo_crypto_ok by (simp add: crypto_ok_def demo_crypto2_def)

lemma plain_tx_preimages:
  "id_preimage (plain_tx 1) \<noteq> id_preimage (plain_tx 2)"
  "pad32 x \<noteq> id_preimage (plain_tx n)"
proof -
  show "id_preimage (plain_tx 1) \<noteq> id_preimage (plain_tx 2)"
    using id_preimage_inj [OF plain_tx_nul_free plain_tx_nul_free, of 1 2]
    by (simp add: short_def signed_fields_def)
  have "length (pad32 x) \<noteq> length (id_preimage (plain_tx n))"
    by (simp add: id_preimage_def signable_bytes_def payload_section_def tagged_section_def
        plain_tx_simps)
  then show "pad32 x \<noteq> id_preimage (plain_tx n)" by metis
qed

lemma demo_crypto2_separates:
  "inj_on (c_sha256 demo_crypto2) {id_preimage (plain_tx 1), id_preimage (plain_tx 2),
     c_sha256 demo_crypto2 (id_preimage (plain_tx 1)), c_sha256 demo_crypto2 (id_preimage (plain_tx 2))}"
proof -
  let ?h = "c_sha256 demo_crypto2" and ?p1 = "id_preimage (plain_tx 1)" and ?p2 = "id_preimage (plain_tx 2)"
  have "?h ?p1 = pad32 [1]" "?h ?p2 = pad32 [2]"
    "?h (pad32 [1]) = pad32 (3 # pad32 [1])" "?h (pad32 [2]) = pad32 (3 # pad32 [2])"
    using plain_tx_preimages by (auto simp: demo_crypto2_def)
  then have "distinct (map ?h [?p1, ?p2, ?h ?p1, ?h ?p2])"
    by (simp add: pad32_def)
  then show ?thesis by (rule inj_on_listI) simp
qed

theorem compute_id_binds_witness:
  "compute_id demo_crypto2 (plain_tx 1) \<noteq> compute_id demo_crypto2 (plain_tx 2)"
  using compute_id_binds [OF demo_crypto2_ok plain_tx_nul_free plain_tx_nul_free _ _
      demo_crypto2_separates] plain_tx_lengths
  by (simp add: signed_fields_def)

text \<open>
  C3. Verification decides and admits no key substitution: it never panics, and it accepts exactly
  the transactions that pass the structural checks (nonce, value, distinct addresses, timestamp
  window, recomputed ID), carry a signature over the canonical bytes by an embedded key whose
  address is the sender, and have the proof fields their type needs. The address of an accepted
  transaction decodes to the BLAKE3 hash of that key.
\<close>
theorem verify_transaction_decides:
  assumes "crypto_ok C"
  shows "\<exists>r. verify_transaction C now_ms tx = Some r \<and>
     (r = Ok () \<longleftrightarrow> structurally_ok C now_ms tx \<and> (\<exists>pk. signed_by C tx pk) \<and> proof_fields_ok C tx) \<and>
     (r = Ok () \<longrightarrow> (\<exists>pk nid. signed_by C tx pk \<and> NovaId_from_address C (tx_sender tx) = Ok nid \<and>
        key_hash nid = c_blake3 C (pk_bytes pk)))"
proof -
  have "NovaId_to_address C (NovaId_from_public_key C pk) \<noteq> None" for pk
    using crypto_ok_address [OF assms, of "NovaId_from_public_key C pk"] crypto_okD(2) [OF assms]
    by auto
  then have "verify_sender C tx sig \<noteq> None" for sig
    unfolding verify_sender_def Let_def
    by (simp split: option.split result.split) (metis option.distinct(1))
  then have "verify_transaction C now_ms tx \<noteq> None"
    unfolding verify_transaction_def Let_def
    by (simp split: option.split result.split) (metis option.distinct(1))
  then obtain r where r: "verify_transaction C now_ms tx = Some r" by blast
  have iff: "r = Ok () \<longleftrightarrow>
      structurally_ok C now_ms tx \<and> (\<exists>pk. signed_by C tx pk) \<and> proof_fields_ok C tx"
    using verify_transaction_iff [of C now_ms tx] verify_complete [OF assms, of now_ms tx]
    unfolding r option.inject by blast
  have addr: "NovaId_from_address C (tx_sender tx)
      = Ok \<lparr>key_hash = c_blake3 C (pk_bytes pk), nid_public_key = None\<rparr>" if "signed_by C tx pk" for pk
  proof -
    from that have "NovaId_to_address C (NovaId_from_public_key C pk) = Some (tx_sender tx)"
      by (auto simp: signed_by_def)
    then show ?thesis by (rule address_of_key [OF assms])
  qed
  have "\<exists>pk nid. signed_by C tx pk \<and> NovaId_from_address C (tx_sender tx) = Ok nid \<and>
      key_hash nid = c_blake3 C (pk_bytes pk)" if "r = Ok ()"
  proof -
    from that iff obtain pk where pk: "signed_by C tx pk" by blast
    from addr [OF pk] pk show ?thesis by auto
  qed
  with r iff show ?thesis by blast
qed

lemma demo_tx_verifies: "verify_transaction demo_crypto 1000 demo_tx = Some (Ok ())"
proof -
  have kp: "length (signing_key demo_kp) = 32"
    by (simp add: demo_kp_def NovaKeypair_from_seed_def)
  have "signed_by demo_crypto demo_tx (NovaKeypair_public_key demo_crypto demo_kp)"
    unfolding demo_tx_def
    by (rule sign_transaction_signed_by [OF demo_crypto_ok kp]) (simp add: demo_key_address)
  then show ?thesis
    by (rule verify_complete [OF demo_crypto_ok, rotated])
      (simp_all add: demo_tx_def structurally_ok_def proof_fields_ok_def demo_sender_ne)
qed

theorem verify_transaction_decides_witness:
  "\<exists>pk nid. signed_by demo_crypto demo_tx pk \<and>
     NovaId_from_address demo_crypto (tx_sender demo_tx) = Ok nid \<and>
     key_hash nid = c_blake3 demo_crypto (pk_bytes pk)"
  using verify_transaction_decides [OF demo_crypto_ok, of 1000 demo_tx] demo_tx_verifies by auto

text \<open>
  C4. Completeness of the normal path: a transaction made by the builder with a positive nonce and
  value, distinct addresses and a timestamp within the five-minute window, whose sender is the
  address of the signing key, verifies after signing, for every type but the confidential
  transfer; and with a decodable proof and a commitment attached after signing it verifies for
  every type. Signing changes neither the ID nor the signed bytes.
\<close>
theorem build_sign_verify:
  assumes "crypto_ok C" and "length (signing_key kp) = 32"
    and "NovaId_to_address C (NovaId_from_public_key C (NovaKeypair_public_key C kp))
       = Some (bld_sender b)"
    and "bld_nonce b \<noteq> 0" and "amt_value (bld_amount b) \<noteq> 0" and "bld_sender b \<noteq> bld_receiver b"
    and "(case bld_timestamp b of Some t \<Rightarrow> t | None \<Rightarrow> now_ms) \<le> now_ms + 300000"
    and "stx = sign_transaction C (TransactionBuilder_build C now_ms b) kp"
  shows "tx_id stx = tx_id (TransactionBuilder_build C now_ms b) \<and>
    (bld_tx_type b \<noteq> ConfidentialTransfer \<longrightarrow> verify_transaction C now_ms stx = Some (Ok ())) \<and>
    (is_ok (c_groth16_deserialize C p) \<longrightarrow>
       verify_transaction C now_ms (with_commitment C (with_proof C stx p) m) = Some (Ok ()))"
proof (intro conjI impI)
  let ?pk = "NovaKeypair_public_key C kp"
  have sb: "signed_by C stx ?pk"
    using sign_transaction_signed_by [OF assms(1,2)] assms(3,8) by simp
  show "tx_id stx = tx_id (TransactionBuilder_build C now_ms b)" using assms(8) by simp
  show "verify_transaction C now_ms stx = Some (Ok ())" if "bld_tx_type b \<noteq> ConfidentialTransfer"
    using that assms
    by (intro verify_complete [OF assms(1) _ sb]) (simp_all add: structurally_ok_def proof_fields_ok_def)
  show "verify_transaction C now_ms (with_commitment C (with_proof C stx p) m) = Some (Ok ())"
    if "is_ok (c_groth16_deserialize C p)"
    using that assms sb
    by (intro verify_complete [OF assms(1), of _ _ ?pk])
      (simp_all add: structurally_ok_def proof_fields_ok_def)
qed

theorem build_sign_verify_witness:
  "verify_transaction demo_crypto 1000 demo_tx = Some (Ok ()) \<and>
   verify_transaction demo_crypto 1000
     (with_commitment demo_crypto (with_proof demo_crypto demo_tx [1]) [2]) = Some (Ok ())"
proof -
  have "length (signing_key demo_kp) = 32" "is_ok (c_groth16_deserialize demo_crypto [1])"
    by (simp_all add: demo_kp_def NovaKeypair_from_seed_def demo_crypto_def)
  then show ?thesis
    using build_sign_verify [OF demo_crypto_ok, of demo_kp demo_builder 1000 demo_tx "[1]" "[2]"]
    by (simp add: demo_key_address demo_sender_ne demo_tx_def)
qed

text \<open>
  The restriction to NUL-free strings is needed. Neither the receiver nor a custom ticker is
  validated, so for every sender there are two transactions with different receivers and values
  and the same canonical bytes; a signature (and an ID) of one is a signature (and the ID) of
  the other.
\<close>

definition amb_tx :: "string \<Rightarrow> string \<Rightarrow> u64 \<Rightarrow> string \<Rightarrow> u64 \<Rightarrow> u64 \<Rightarrow> bytes option \<Rightarrow> Transaction" where
  "amb_tx s r v cur f n p =
     \<lparr>tx_id = [], tx_version = 1, tx_type = Transfer, tx_sender = s, tx_receiver = r,
      tx_amount = \<lparr>amt_value = v, amt_currency = Custom cur\<rparr>, tx_fee = f, tx_nonce = n,
      tx_timestamp = 0, tx_payload = p, tx_sender_public_key = None, tx_signature = None,
      tx_zkp_proof = None, tx_proof = None, tx_amount_commitment = None\<rparr>"

definition amb_receiver :: string where
  "amb_receiver = [CHR ''x'', CHR 0x00, CHR 0x01, CHR 0x00, CHR 0x00, CHR 0x00, CHR 0x00, CHR 0x00,
     CHR 0x00, CHR 0x00, CHR ''U'']"

lemma signable_bytes_ambiguous:
  fixes s :: string
  defines "a \<equiv> amb_tx s ''x'' 1 ''U'' 1000 1 (Some [0, 0, 0, 0, 0, 0])"
    and "b \<equiv> amb_tx s amb_receiver 1000 [CHR 0x01] 0 0x0601000000000000 None"
  shows "signable_bytes a = signable_bytes b" "compute_id C a = compute_id C b"
    "tx_sender a = tx_sender b" "tx_receiver a \<noteq> tx_receiver b"
    "amt_value (tx_amount a) \<noteq> amt_value (tx_amount b)"
proof -
  have "as_bytes ''x'' @ 0 # u64_to_le_bytes 1 @ as_bytes ''U'' @ 0 # u64_to_le_bytes 1000 @
      u64_to_le_bytes 1 @ u64_to_le_bytes 0 @ payload_section (Some [0, 0, 0, 0, 0, 0])
    = as_bytes amb_receiver @ 0 # u64_to_le_bytes 1000 @ as_bytes [CHR 0x01] @ 0 #
      u64_to_le_bytes 0 @ u64_to_le_bytes 0x0601000000000000 @ u64_to_le_bytes 0 @
      payload_section None"
    by (simp add: as_bytes_def amb_receiver_def payload_section_def length_prefixed_def
        u64_to_le_bytes_def u32_to_le_bytes_def)
  then show "signable_bytes a = signable_bytes b"
    by (simp add: signable_bytes_def a_def b_def amb_tx_def)
  then show "compute_id C a = compute_id C b"
    by (simp add: compute_id_def id_preimage_def) (simp add: a_def b_def amb_tx_def)
qed (simp_all add: a_def b_def amb_tx_def amb_receiver_def)

text \<open>The display of a currency does not separate the native tickers from custom ones.\<close>

lemma Currency_fmt_not_injective: "Currency_fmt (Custom ''BTC'') = Currency_fmt BTC"
  by simp

text \<open>
  Receipts are tamper evident: a freshly made receipt passes \<open>verify_integrity\<close>, and a receipt
  with the same hash whose other fields differ fails it, unless the serialisation is ambiguous or
  BLAKE3 collides on the two serialisations at hand.
\<close>
lemma receipt_tamper_evident:
  assumes "crypto_ok C" and "ser (ReceiptHashData.truncate r) \<noteq> None"
    and "TransactionReceipt_from_transaction C ser tx bi st = Some r"
    and "ser (ReceiptHashData.truncate r') = Some d'" and "ser (ReceiptHashData.truncate r) \<noteq> Some d'"
    and "rc_receipt_hash r' = rc_receipt_hash r"
    and "inj_on (c_blake3 C) {the (ser (ReceiptHashData.truncate r)), d'}"
  shows "TransactionReceipt_verify_integrity C ser r = Some True \<and>
         TransactionReceipt_verify_integrity C ser r' = Some False"
proof -
  obtain d where d: "ser (ReceiptHashData.truncate r) = Some d" using assms(2) by blast
  have h: "rc_receipt_hash r = c_hex_encode C (c_blake3 C d)"
    using assms(3) d
    by (auto simp: TransactionReceipt_from_transaction_def TransactionReceipt_compute_hash_def
        ReceiptHashData.defs blake3_hash_def Let_def split: option.splits)
  have "c_blake3 C d \<noteq> c_blake3 C d'"
    using assms(5,7) d by (auto dest: inj_onD)
  then show ?thesis
    using assms(4,6) d h c_hex_encode_inj [OF assms(1)]
    by (simp add: TransactionReceipt_verify_integrity_def TransactionReceipt_compute_hash_def
        blake3_hash_def)
qed

definition demo_ser :: "ReceiptHashData \<Rightarrow> bytes option" where
  "demo_ser r = Some (u64_to_le_bytes (rc_block_height r) @ u64_to_le_bytes (rc_confirmations r))"

definition demo_receipt :: TransactionReceipt where
  "demo_receipt = the (TransactionReceipt_from_transaction demo_crypto demo_ser demo_tx
     \<lparr>bi_height = 7, bi_hash = ''aa'', bi_timestamp = 5\<rparr> Confirmed)"

end
