(* ===== verification/State_Tree.thy ===== *)
theory State_Tree
  imports Crypto
begin

text \<open>
  The sparse Merkle tree of account states and the balance transfer,
  \<open>protocol/src/storage/state.rs\<close>.

  The sled tree \<open>smt_nodes\<close> is a parameter: a store type \<open>'t\<close> with the operations \<open>se_get\<close> and
  \<open>se_insert\<close>; \<open>bincode\<close> is the pair \<open>se_enc\<close>, \<open>se_dec\<close>. \<open>smt_env_ok\<close> states what is relied on:
  reads and writes succeed, a read returns the last write, and decoding returns the encoded
  account. A \<open>HashMap\<close> field is serialised in iteration order, which a decoded map need not
  keep, so decoding is only required to return an equal map (\<open>acct_eq\<close>).

  The reference specification is \<open>subtree\<close>, the hash of the full binary tree of depth 256 over
  the map from keys to serialised accounts. The lemmas show that the storage keys address the
  nodes uniquely, that \<open>put\<close> maintains every stored node and the root as this specification
  says, that proofs made by \<open>get_proof\<close> verify, that a verified inclusion proof is sound, and
  that \<open>apply_transfer\<close> conserves the total balance. The contract between the tree and the
  transfer is the locale \<open>account_store\<close>.
\<close>

section \<open>Accounts and errors\<close>

record AccountState =
  acct_nonce :: u64
  acct_balance :: u64
  acct_balance_commitments :: "(string, bytes) HashMap"
  acct_credit_lines :: "string list"
  acct_frozen :: bool

definition AccountState_default :: AccountState where
  "AccountState_default = \<lparr>acct_nonce = 0, acct_balance = 0, acct_balance_commitments = hm_new,
     acct_credit_lines = [], acct_frozen = False\<rparr>"

definition AccountState_with_balance :: "u64 \<Rightarrow> AccountState" where
  "AccountState_with_balance b = AccountState_default\<lparr>acct_balance := b\<rparr>"

text \<open>Equality of accounts as \<open>PartialEq\<close> has it: the map field is compared as a map.\<close>

definition acct_eq :: "AccountState \<Rightarrow> AccountState \<Rightarrow> bool" where
  "acct_eq a b \<longleftrightarrow> acct_nonce a = acct_nonce b \<and> acct_balance a = acct_balance b \<and>
     hm_get (acct_balance_commitments a) = hm_get (acct_balance_commitments b) \<and>
     acct_credit_lines a = acct_credit_lines b \<and> acct_frozen a = acct_frozen b"

datatype StateError =
    InsufficientBalance u64 u64
  | AccountFrozen string
  | StateDb string
  | StateSerialization string

record MerkleProof =
  siblings :: "bytes list"
  path_bits :: "bool list"

section \<open>The environment\<close>

record 't smt_env =
  se_crypto :: crypto
  se_get :: "'t \<Rightarrow> bytes \<Rightarrow> (bytes option, string) result"
  se_insert :: "'t \<Rightarrow> bytes \<Rightarrow> bytes \<Rightarrow> ('t, string) result"
  se_enc :: "AccountState \<Rightarrow> bytes"
  se_dec :: "bytes \<Rightarrow> AccountState option"

definition AccountState_to_bytes :: "'t smt_env \<Rightarrow> AccountState \<Rightarrow> bytes" where
  "AccountState_to_bytes E s = se_enc E s"

definition AccountState_from_bytes :: "'t smt_env \<Rightarrow> bytes \<Rightarrow> AccountState option" where
  "AccountState_from_bytes E b = se_dec E b"

section \<open>Default hashes and key addressing\<close>

definition TREE_DEPTH :: nat where
  "TREE_DEPTH = 256"

primrec fill_defaults :: "crypto \<Rightarrow> nat \<Rightarrow> bytes list \<Rightarrow> bytes list" where
  "fill_defaults C 0 defaults = defaults"
| "fill_defaults C (Suc i) defaults =
     (let ds = fill_defaults C i defaults
      in ds[Suc i := blake3_hash C (ds ! i @ ds ! i)])"

definition compute_default_hashes :: "crypto \<Rightarrow> bytes list" where
  "compute_default_hashes C =
     fill_defaults C TREE_DEPTH ((replicate (TREE_DEPTH + 1) (replicate 32 0))[0 := replicate 32 0])"

definition get_bit :: "bytes \<Rightarrow> nat \<Rightarrow> bool" where
  "get_bit key bit_index =
     (let byte_idx = bit_index div 8; bit_idx = 7 - (bit_index mod 8)
      in drop_bit bit_idx (key ! byte_idx) AND 1 = 1)"

definition bit_at_level :: "bytes \<Rightarrow> nat \<Rightarrow> bool" where
  "bit_at_level key level = get_bit key (TREE_DEPTH - level)"

definition storage_key_for_node :: "bytes \<Rightarrow> nat \<Rightarrow> bytes" where
  "storage_key_for_node key level =
     (let prefix_bits = TREE_DEPTH - level;
          prefix_bytes_len = (prefix_bits + 7) div 8;
          skey = u16_to_be_bytes (word_of_nat level)
      in if prefix_bytes_len > 0
         then let pre = take prefix_bytes_len key @ replicate (32 - prefix_bytes_len) 0;
                  remainder = prefix_bits mod 8;
                  pre = (if remainder \<noteq> 0
                         then pre[prefix_bytes_len - 1 :=
                                pre ! (prefix_bytes_len - 1) AND push_bit (8 - remainder) 0xFF]
                         else pre)
              in skey @ take prefix_bytes_len pre
         else skey)"

definition storage_key_for_sibling :: "bytes \<Rightarrow> nat \<Rightarrow> bytes" where
  "storage_key_for_sibling key level =
     (let bit_index = TREE_DEPTH - level; byte_idx = bit_index div 8;
          bit_idx = 7 - (bit_index mod 8);
          flipped = key[byte_idx := key ! byte_idx XOR push_bit bit_idx 1]
      in storage_key_for_node flipped (level - 1))"

definition leaf_value_key :: "bytes \<Rightarrow> bytes" where
  "leaf_value_key key = as_bytes ''v:'' @ key"

definition leaf_hash :: "crypto \<Rightarrow> bytes \<Rightarrow> bytes \<Rightarrow> bytes" where
  "leaf_hash C key value_bytes = blake3_hash C (key @ value_bytes)"

definition combine_hashes :: "crypto \<Rightarrow> bytes \<Rightarrow> bytes \<Rightarrow> bytes" where
  "combine_hashes C left right = blake3_hash C (left @ right)"

definition address_to_key :: "crypto \<Rightarrow> string \<Rightarrow> bytes" where
  "address_to_key C address = blake3_hash C (as_bytes address)"

section \<open>The tree\<close>

record 't StateTree =
  st_db :: 't
  st_root :: bytes

definition StateTree_new :: "'t smt_env \<Rightarrow> 't \<Rightarrow> 't StateTree" where
  "StateTree_new E db = \<lparr>st_db = db, st_root = compute_default_hashes (se_crypto E) ! TREE_DEPTH\<rparr>"

definition StateTree_from_root :: "'t \<Rightarrow> bytes \<Rightarrow> 't StateTree" where
  "StateTree_from_root db r = \<lparr>st_db = db, st_root = r\<rparr>"

definition StateTree_get :: "'t smt_env \<Rightarrow> 't StateTree \<Rightarrow> string \<Rightarrow> AccountState option" where
  "StateTree_get E T address =
     (case se_get E (st_db T) (leaf_value_key (address_to_key (se_crypto E) address)) of
        Err _ \<Rightarrow> None
      | Ok (Some bytes) \<Rightarrow> AccountState_from_bytes E bytes
      | Ok None \<Rightarrow> None)"

text \<open>The sibling lookup that \<open>put\<close> and \<open>get_proof\<close> share.\<close>

definition sibling_hash :: "'t smt_env \<Rightarrow> 't \<Rightarrow> bytes \<Rightarrow> nat \<Rightarrow> bytes" where
  "sibling_hash E db key level =
     (case se_get E db (storage_key_for_sibling key level) of
        Ok (Some bytes) \<Rightarrow>
          if length bytes = 32 then bytes else compute_default_hashes (se_crypto E) ! (level - 1)
      | _ \<Rightarrow> compute_default_hashes (se_crypto E) ! (level - 1))"

fun put_walk :: "'t smt_env \<Rightarrow> bytes \<Rightarrow> bytes list \<Rightarrow> nat list \<Rightarrow> 't \<Rightarrow> bytes \<Rightarrow> ('t \<times> bytes) option" where
  "put_walk E key sibs [] db current_hash = Some (db, current_hash)"
| "put_walk E key sibs (level # levels) db current_hash =
     (let sibling = sibs ! (level - 1);
          current_hash = (if bit_at_level key level
                          then combine_hashes (se_crypto E) sibling current_hash
                          else combine_hashes (se_crypto E) current_hash sibling)
      in case se_insert E db (storage_key_for_node key level) current_hash of
           Err _ \<Rightarrow> None
         | Ok db \<Rightarrow> put_walk E key sibs levels db current_hash)"

definition StateTree_put ::
  "'t smt_env \<Rightarrow> 't StateTree \<Rightarrow> string \<Rightarrow> AccountState \<Rightarrow> 't StateTree option" where
  "StateTree_put E T address state =
     (let key = address_to_key (se_crypto E) address;
          sibs = rev (map (sibling_hash E (st_db T) key) (rev [1..<TREE_DEPTH + 1]));
          value_bytes = AccountState_to_bytes E state
      in case se_insert E (st_db T) (leaf_value_key key) value_bytes of
           Err _ \<Rightarrow> None
         | Ok db1 \<Rightarrow>
             let current_hash = leaf_hash (se_crypto E) key value_bytes in
             case se_insert E db1 (storage_key_for_node key 0) current_hash of
               Err _ \<Rightarrow> None
             | Ok db2 \<Rightarrow>
                 (case put_walk E key sibs [1..<TREE_DEPTH + 1] db2 current_hash of
                    None \<Rightarrow> None
                  | Some (db3, h) \<Rightarrow> Some \<lparr>st_db = db3, st_root = h\<rparr>))"

definition StateTree_get_proof :: "'t smt_env \<Rightarrow> 't StateTree \<Rightarrow> string \<Rightarrow> MerkleProof" where
  "StateTree_get_proof E T address =
     (let key = address_to_key (se_crypto E) address
      in \<lparr>siblings = map (sibling_hash E (st_db T) key) [1..<TREE_DEPTH + 1],
          path_bits = map (bit_at_level key) [1..<TREE_DEPTH + 1]\<rparr>)"

fun fold_proof :: "crypto \<Rightarrow> (bool \<times> bytes) list \<Rightarrow> bytes \<Rightarrow> bytes" where
  "fold_proof C [] current_hash = current_hash"
| "fold_proof C ((b, sibling) # path) current_hash =
     fold_proof C path
       (if b then combine_hashes C sibling current_hash else combine_hashes C current_hash sibling)"

definition StateTree_verify_proof ::
  "'t smt_env \<Rightarrow> bytes \<Rightarrow> string \<Rightarrow> AccountState option \<Rightarrow> MerkleProof \<Rightarrow> bool" where
  "StateTree_verify_proof E root address val mproof =
     (if length (siblings mproof) \<noteq> TREE_DEPTH \<or> length (path_bits mproof) \<noteq> TREE_DEPTH then False
      else let key = address_to_key (se_crypto E) address;
               current_hash = (case val of
                   Some state \<Rightarrow> leaf_hash (se_crypto E) key (AccountState_to_bytes E state)
                 | None \<Rightarrow> compute_default_hashes (se_crypto E) ! 0)
           in fold_proof (se_crypto E) (zip (path_bits mproof) (siblings mproof)) current_hash = root)"

section \<open>Transfers\<close>

text \<open>
  \<open>apply_transfer\<close> only uses \<open>get\<close> and \<open>put\<close> of the tree; it is written over these two
  operations and then instantiated with the ones above. A panic of \<open>put\<close> is \<open>None\<close>.
\<close>

definition transfer_on ::
  "('s \<Rightarrow> string \<Rightarrow> AccountState option) \<Rightarrow> ('s \<Rightarrow> string \<Rightarrow> AccountState \<Rightarrow> 's option) \<Rightarrow>
   's \<Rightarrow> string \<Rightarrow> string \<Rightarrow> u64 \<Rightarrow> ('s \<times> (unit, StateError) result) option" where
  "transfer_on get put s sender receiver amount =
     (let sender_state = (case get s sender of Some a \<Rightarrow> a | None \<Rightarrow> AccountState_default) in
      if acct_frozen sender_state then Some (s, Err (AccountFrozen sender))
      else if acct_balance sender_state < amount
      then Some (s, Err (InsufficientBalance (acct_balance sender_state) amount))
      else let sender_state = sender_state\<lparr>acct_balance := acct_balance sender_state - amount,
                                           acct_nonce := acct_nonce sender_state + 1\<rparr> in
        case put s sender sender_state of
          None \<Rightarrow> None
        | Some s1 \<Rightarrow>
            let receiver_state = (case get s1 receiver of Some a \<Rightarrow> a | None \<Rightarrow> AccountState_default);
                receiver_state = receiver_state\<lparr>acct_balance := acct_balance receiver_state + amount\<rparr>
            in case put s1 receiver receiver_state of
                 None \<Rightarrow> None
               | Some s2 \<Rightarrow> Some (s2, Ok ()))"

definition apply_transfer ::
  "'t smt_env \<Rightarrow> 't StateTree \<Rightarrow> string \<Rightarrow> string \<Rightarrow> u64 \<Rightarrow>
   ('t StateTree \<times> (unit, StateError) result) option" where
  "apply_transfer E = transfer_on (StateTree_get E) (StateTree_put E)"

section \<open>Bits of keys\<close>

lemma get_bit_bit: "get_bit key i = bit (key ! (i div 8)) (7 - i mod 8)"
  unfolding get_bit_def Let_def bit_iff_odd_drop_bit and_one_eq odd_iff_mod_2_eq_one ..

lemma get_bit_ext:
  assumes "length a = length b" and "\<And>i. i < 8 * length a \<Longrightarrow> get_bit a i = get_bit b i"
  shows "a = b"
proof (rule nth_equalityI [OF assms(1)])
  fix j assume j: "j < length a"
  show "a ! j = b ! j"
  proof (rule bit_word_eqI)
    fix n assume "n < LENGTH(8)"
    then have n: "n < 8" by simp
    define r where "r = 7 - n"
    let ?i = "8 * j + r"
    have r: "r < 8" "7 - r = n" using n by (simp_all add: r_def)
    then have "?i div 8 = j" and "?i mod 8 = r" by simp_all
    then have "?i div 8 = j" and "7 - ?i mod 8 = n" using r by simp_all
    moreover have "?i < 8 * length a" using j r by simp
    ultimately show "bit (a ! j) n = bit (b ! j) n"
      using assms(2) [of ?i] by (simp add: get_bit_bit)
  qed
qed

lemma get_bit_append: "i < 8 * length a \<Longrightarrow> get_bit (a @ b) i = get_bit a i"
proof -
  assume "i < 8 * length a"
  then have "i div 8 < length a" using less_mult_imp_div_less [of i "length a" 8] by simp
  then show ?thesis by (simp add: get_bit_bit nth_append)
qed

definition node_prefix :: "bytes \<Rightarrow> nat \<Rightarrow> bytes" where
  "node_prefix key n =
     (let len = (n + 7) div 8; pre = take len key @ replicate (32 - len) 0
      in take len (if n mod 8 \<noteq> 0
           then pre[len - 1 := pre ! (len - 1) AND push_bit (8 - n mod 8) 0xFF] else pre))"

lemma storage_key_node_prefix:
  "storage_key_for_node key level
     = u16_to_be_bytes (word_of_nat level) @ node_prefix key (TREE_DEPTH - level)"
  by (simp add: storage_key_for_node_def node_prefix_def Let_def)

lemma length_node_prefix:
  "length key = 32 \<Longrightarrow> n \<le> 256 \<Longrightarrow> length (node_prefix key n) = (n + 7) div 8"
  by (simp add: node_prefix_def Let_def)

lemma bit_mask_byte: "m < 8 \<Longrightarrow> 0 < r \<Longrightarrow> r < 8 \<Longrightarrow> bit (push_bit (8 - r) (0xFF :: u8)) m \<longleftrightarrow> 8 - r \<le> m"
proof -
  assume a: "m < 8" "0 < r" "r < 8"
  have ff: "(0xFF :: u8) = mask 8" by (simp add: mask_eq_exp_minus_1)
  show ?thesis unfolding ff bit_push_bit_iff bit_mask_iff using a by auto
qed

lemma get_bit_node_prefix:
  assumes "length key = 32" and "n \<le> 256" and "i < 8 * ((n + 7) div 8)"
  shows "get_bit (node_prefix key n) i \<longleftrightarrow> i < n \<and> get_bit key i"
proof -
  let ?len = "(n + 7) div 8"
  have j: "i div 8 < ?len" using assms(3) less_mult_imp_div_less [of i ?len 8] by simp
  have len: "?len \<le> 32" using assms(2) by simp
  have i_eq: "i = 8 * (i div 8) + i mod 8" and n_eq: "n = 8 * (n div 8) + n mod 8" by simp_all
  have len_eq: "?len = (if n mod 8 = 0 then n div 8 else n div 8 + 1)" by presburger
  show ?thesis
  proof (cases "n mod 8 \<noteq> 0 \<and> i div 8 = ?len - 1")
    case True
    then have "i div 8 = n div 8" using len_eq by simp
    then have lt: "i < n \<longleftrightarrow> 8 - n mod 8 \<le> 7 - i mod 8"
      using i_eq n_eq mod_less_divisor [of 8 i] mod_less_divisor [of 8 n] by linarith
    have "node_prefix key n ! (i div 8) = key ! (i div 8) AND push_bit (8 - n mod 8) 0xFF"
      using True j len assms(1) by (simp add: node_prefix_def Let_def nth_append)
    then show ?thesis
      using True lt bit_mask_byte [of "7 - i mod 8" "n mod 8"]
      by (simp add: get_bit_bit bit_and_iff conj_commute)
  next
    case False
    have "i < n"
    proof (cases "n mod 8 = 0")
      case True
      then show ?thesis using assms(3) len_eq n_eq by simp
    next
      case f: False
      then have "i div 8 < n div 8" using False j len_eq by simp
      then show ?thesis using i_eq n_eq mod_less_divisor [of 8 i] by linarith
    qed
    moreover have "node_prefix key n ! (i div 8) = key ! (i div 8)"
      using False j len assms(1) by (auto simp: node_prefix_def Let_def nth_append nth_list_update)
    ultimately show ?thesis by (simp add: get_bit_bit)
  qed
qed

lemma node_prefix_eq_iff:
  assumes "length a = 32" and "length b = 32" and "n \<le> 256"
  shows "node_prefix a n = node_prefix b n \<longleftrightarrow> (\<forall>i<n. get_bit a i = get_bit b i)"
proof
  assume eq: "node_prefix a n = node_prefix b n"
  show "\<forall>i<n. get_bit a i = get_bit b i"
  proof (intro allI impI)
    fix i assume i: "i < n"
    then have "i < 8 * ((n + 7) div 8)" by presburger
    with eq i show "get_bit a i = get_bit b i"
      using get_bit_node_prefix [OF assms(1,3), of i] get_bit_node_prefix [OF assms(2,3), of i] by simp
  qed
next
  assume "\<forall>i<n. get_bit a i = get_bit b i"
  then show "node_prefix a n = node_prefix b n"
    using assms
    by (intro get_bit_ext) (auto simp: length_node_prefix get_bit_node_prefix)
qed

lemma storage_key_for_node_eq_iff:
  assumes "length a = 32" and "length b = 32" and "l \<le> TREE_DEPTH" and "m \<le> TREE_DEPTH"
  shows "storage_key_for_node a l = storage_key_for_node b m \<longleftrightarrow>
     l = m \<and> (\<forall>i<TREE_DEPTH - l. get_bit a i = get_bit b i)"
proof -
  have "(word_of_nat l :: u16) = word_of_nat m \<longleftrightarrow> l = m"
    using assms(3,4) by (auto simp: TREE_DEPTH_def word_unat_eq_iff unat_of_nat)
  then show ?thesis
    using node_prefix_eq_iff [OF assms(1,2), of "TREE_DEPTH - l"]
    by (auto simp: storage_key_node_prefix append_eq_same_length TREE_DEPTH_def)
qed

lemma leaf_value_key_not_node:
  assumes "l \<le> TREE_DEPTH"
  shows "leaf_value_key k \<noteq> storage_key_for_node a l"
proof
  assume "leaf_value_key k = storage_key_for_node a l"
  then have "as_bytes ''v:'' = u16_to_be_bytes (word_of_nat l)"
    by (simp add: leaf_value_key_def storage_key_node_prefix append_eq_same_length)
  moreover have "as_bytes ''v:'' = u16_to_be_bytes 0x763A"
    by (simp add: as_bytes_def u16_to_be_bytes_def)
  ultimately have "(word_of_nat l :: u16) = 0x763A" by simp
  then have "unat (word_of_nat l :: u16) = 0x763A" by simp
  then show False using assms by (simp add: unat_of_nat TREE_DEPTH_def)
qed

lemma leaf_value_key_inj [simp]: "leaf_value_key a = leaf_value_key b \<longleftrightarrow> a = b"
  by (simp add: leaf_value_key_def)

text \<open>The sibling key is the node key of the flipped path.\<close>

definition flip_bit_at :: "bytes \<Rightarrow> nat \<Rightarrow> bytes" where
  "flip_bit_at key i = key[i div 8 := key ! (i div 8) XOR push_bit (7 - i mod 8) 1]"

lemma length_flip_bit_at [simp]: "length (flip_bit_at key i) = length key"
  by (simp add: flip_bit_at_def)

lemma get_bit_flip:
  assumes "length key = 32" and "i < 256" and "j < 256"
  shows "get_bit (flip_bit_at key i) j \<longleftrightarrow> (if j = i then \<not> get_bit key j else get_bit key j)"
proof -
  have eq: "j = i" if "j div 8 = i div 8" and "7 - j mod 8 = 7 - i mod 8"
  proof -
    have "j mod 8 = i mod 8"
      using that(2) mod_less_divisor [of 8 i] mod_less_divisor [of 8 j] by linarith
    with that(1) show ?thesis by (metis div_mult_mod_eq)
  qed
  have "i div 8 < 32" using assms(2) by simp
  then have nth: "flip_bit_at key i ! (j div 8) =
      (if j div 8 = i div 8 then key ! (j div 8) XOR push_bit (7 - i mod 8) 1 else key ! (j div 8))"
    using assms(1) by (simp add: flip_bit_at_def nth_list_update)
  have "bit (push_bit (7 - i mod 8) (1 :: u8)) (7 - j mod 8) \<longleftrightarrow> 7 - j mod 8 = 7 - i mod 8"
    by (auto simp: push_bit_of_1 bit_exp_iff)
  then have "bit (flip_bit_at key i ! (j div 8)) (7 - j mod 8) \<longleftrightarrow>
      bit (key ! (j div 8)) (7 - j mod 8) \<noteq> (j div 8 = i div 8 \<and> 7 - j mod 8 = 7 - i mod 8)"
    unfolding nth by (simp add: bit_xor_iff)
  moreover have "j = i \<longleftrightarrow> j div 8 = i div 8 \<and> 7 - j mod 8 = 7 - i mod 8"
    using eq by blast
  ultimately show ?thesis unfolding get_bit_bit by simp
qed

lemma storage_key_for_sibling_flip:
  "storage_key_for_sibling key level
     = storage_key_for_node (flip_bit_at key (TREE_DEPTH - level)) (level - 1)"
  by (simp add: storage_key_for_sibling_def flip_bit_at_def Let_def)

section \<open>Reference specification\<close>

text \<open>The default hash of a level, its position in the computed table, and the bits of a key.\<close>

primrec default_hash :: "crypto \<Rightarrow> nat \<Rightarrow> bytes" where
  "default_hash C 0 = replicate 32 0"
| "default_hash C (Suc i) = combine_hashes C (default_hash C i) (default_hash C i)"

definition key_bits :: "bytes \<Rightarrow> bool list" where
  "key_bits key = map (get_bit key) [0..<TREE_DEPTH]"

definition path_to :: "bytes \<Rightarrow> nat \<Rightarrow> bool list" where
  "path_to key level = take (TREE_DEPTH - level) (key_bits key)"

text \<open>
  The full tree over a map \<open>V\<close> from 32-byte keys to values: an absent key is the zero leaf, a
  present one is hashed with its value, an inner node combines its two children.
\<close>

definition leaf_spec :: "crypto \<Rightarrow> (bytes \<rightharpoonup> bytes) \<Rightarrow> bool list \<Rightarrow> bytes" where
  "leaf_spec C V bs =
     (if \<exists>k. length k = 32 \<and> key_bits k = bs \<and> V k \<noteq> None
      then let k = inv_into {k. length k = 32} key_bits bs in leaf_hash C k (the (V k))
      else replicate 32 0)"

primrec subtree :: "crypto \<Rightarrow> (bytes \<rightharpoonup> bytes) \<Rightarrow> nat \<Rightarrow> bool list \<Rightarrow> bytes" where
  "subtree C V 0 bs = leaf_spec C V bs"
| "subtree C V (Suc l) bs =
     combine_hashes C (subtree C V l (bs @ [False])) (subtree C V l (bs @ [True]))"

definition smt_root :: "crypto \<Rightarrow> (bytes \<rightharpoonup> bytes) \<Rightarrow> bytes" where
  "smt_root C V = subtree C V TREE_DEPTH []"

lemma length_fill_defaults [simp]: "length (fill_defaults C n ds) = length ds"
  by (induction n) (simp_all add: Let_def)

lemma fill_defaults_nth:
  "n < length ds \<Longrightarrow> ds ! 0 = replicate 32 0 \<Longrightarrow> i \<le> n \<Longrightarrow> fill_defaults C n ds ! i = default_hash C i"
proof (induction n arbitrary: i)
  case 0
  then show ?case by simp
next
  case (Suc n)
  then show ?case
    by (cases "i = Suc n") (simp_all add: Let_def combine_hashes_def)
qed

lemma compute_default_hashes_nth:
  "i \<le> TREE_DEPTH \<Longrightarrow> compute_default_hashes C ! i = default_hash C i"
  unfolding compute_default_hashes_def by (rule fill_defaults_nth) auto

lemma length_key_bits [simp]: "length (key_bits k) = TREE_DEPTH"
  by (simp add: key_bits_def)

lemma path_to_eq_iff:
  "path_to a l = path_to b l \<longleftrightarrow> (\<forall>i<TREE_DEPTH - l. get_bit a i = get_bit b i)"
proof -
  have "path_to a l = map (get_bit a) [0..<TREE_DEPTH - l]" for a
    by (simp add: path_to_def key_bits_def take_map take_upt)
  then show ?thesis by auto
qed

lemma key_bits_inj:
  assumes "length a = 32" and "length b = 32"
  shows "key_bits a = key_bits b \<longleftrightarrow> a = b"
proof
  assume eq: "key_bits a = key_bits b"
  have "get_bit a i = get_bit b i" if "i < 256" for i
    using arg_cong [OF eq, of "\<lambda>xs. xs ! i"] that by (simp add: key_bits_def TREE_DEPTH_def)
  then show "a = b" using assms by (intro get_bit_ext) simp_all
qed simp

lemma path_to_0 [simp]: "path_to k 0 = key_bits k"
  by (simp add: path_to_def)

lemma path_to_root [simp]: "path_to k TREE_DEPTH = []"
  by (simp add: path_to_def)

lemma node_key_iff:
  assumes "length a = 32" "length b = 32" "l \<le> TREE_DEPTH" "m \<le> TREE_DEPTH"
  shows "storage_key_for_node a l = storage_key_for_node b m \<longleftrightarrow> l = m \<and> path_to a l = path_to b l"
  unfolding storage_key_for_node_eq_iff [OF assms] path_to_eq_iff by blast

lemma leaf_spec_key:
  assumes "length k = 32"
  shows "leaf_spec C V (key_bits k) =
     (case V k of Some v \<Rightarrow> leaf_hash C k v | None \<Rightarrow> replicate 32 0)"
proof -
  have "inj_on key_bits {k. length k = 32}"
    by (auto intro: inj_onI simp: key_bits_inj)
  then have "inv_into {k. length k = 32} key_bits (key_bits k) = k"
    using assms by (simp add: inv_into_f_f)
  moreover have "(\<exists>k'. length k' = 32 \<and> key_bits k' = key_bits k \<and> V k' \<noteq> None) \<longleftrightarrow> V k \<noteq> None"
    using assms key_bits_inj by blast
  ultimately show ?thesis
    by (auto simp: leaf_spec_def split: option.split)
qed

lemma leaf_spec_update:
  assumes "length k = 32" and "bs \<noteq> key_bits k"
  shows "leaf_spec C (V(k \<mapsto> v)) bs = leaf_spec C V bs"
proof (cases "\<exists>k'. length k' = 32 \<and> key_bits k' = bs")
  case True
  then obtain k' where "length k' = 32" "bs = key_bits k'" by blast
  with assms show ?thesis by (auto simp: leaf_spec_key)
next
  case False
  then show ?thesis by (auto simp: leaf_spec_def)
qed

lemma subtree_update_off:
  assumes "length k = 32"
  shows "length bs + l = TREE_DEPTH \<Longrightarrow> take (length bs) (key_bits k) \<noteq> bs \<Longrightarrow>
     subtree C (V(k \<mapsto> v)) l bs = subtree C V l bs"
proof (induction l arbitrary: bs)
  case 0
  then have "bs \<noteq> key_bits k" by auto
  then show ?case unfolding subtree.simps by (rule leaf_spec_update [OF assms])
next
  case (Suc l)
  have "take (length (bs @ [b])) (key_bits k) \<noteq> bs @ [b]" for b
  proof
    assume "take (length (bs @ [b])) (key_bits k) = bs @ [b]"
    then have "take (length bs) (take (length (bs @ [b])) (key_bits k)) = bs" by simp
    then show False using Suc.prems(2) by simp
  qed
  then show ?case using Suc.IH Suc.prems(1) by simp
qed

lemma subtree_empty: "subtree C Map.empty l bs = default_hash C l"
  by (induction l arbitrary: bs) (simp_all add: leaf_spec_def)

lemma length_hash [simp]:
  assumes "crypto_ok C"
  shows "length (combine_hashes C a b) = 32" "length (leaf_hash C a b) = 32"
    "length (address_to_key C s) = 32"
  by (simp_all add: combine_hashes_def leaf_hash_def address_to_key_def blake3_hash_def
      crypto_okD(2) [OF assms])

lemma length_subtree: "crypto_ok C \<Longrightarrow> length (subtree C V l bs) = 32"
  by (cases l) (simp_all add: leaf_spec_def Let_def)

text \<open>One step down a path, to the child on the path and to its sibling.\<close>

lemma path_to_step:
  assumes "l < TREE_DEPTH"
  shows "path_to k l = path_to k (Suc l) @ [bit_at_level k (Suc l)]"
proof -
  have "TREE_DEPTH - l = Suc (TREE_DEPTH - Suc l)" using assms by simp
  then show ?thesis
    using assms by (simp add: path_to_def bit_at_level_def take_Suc_conv_app_nth key_bits_def)
qed

lemma path_to_sibling:
  assumes "length k = 32" and "l < TREE_DEPTH"
  shows "path_to (flip_bit_at k (TREE_DEPTH - Suc l)) l = path_to k (Suc l) @ [\<not> bit_at_level k (Suc l)]"
proof -
  let ?i = "TREE_DEPTH - Suc l" and ?f = "flip_bit_at k (TREE_DEPTH - Suc l)"
  have i: "?i < 256" using assms(2) by (simp add: TREE_DEPTH_def)
  have "path_to ?f (Suc l) = path_to k (Suc l)"
    using i by (auto simp: path_to_eq_iff get_bit_flip assms(1))
  moreover have "bit_at_level ?f (Suc l) = (\<not> bit_at_level k (Suc l))"
    using i by (simp add: bit_at_level_def get_bit_flip assms(1))
  ultimately show ?thesis using path_to_step [OF assms(2), of ?f] by simp
qed

lemma subtree_path_step:
  "subtree C V (Suc l) (path_to k (Suc l)) =
     (let on = subtree C V l (path_to k (Suc l) @ [bit_at_level k (Suc l)]);
          off = subtree C V l (path_to k (Suc l) @ [\<not> bit_at_level k (Suc l)])
      in if bit_at_level k (Suc l) then combine_hashes C off on else combine_hashes C on off)"
  by (simp add: Let_def)

section \<open>The stored tree refines the specification\<close>

definition smt_env_ok :: "'t smt_env \<Rightarrow> bool" where
  "smt_env_ok E \<longleftrightarrow> crypto_ok (se_crypto E) \<and>
     (\<forall>t k. is_ok (se_get E t k)) \<and>
     (\<forall>t k v. \<exists>t'. se_insert E t k v = Ok t' \<and>
        (\<forall>k'. se_get E t' k' = (if k' = k then Ok (Some v) else se_get E t k'))) \<and>
     (\<forall>s. \<exists>s'. se_dec E (se_enc E s) = Some s' \<and> acct_eq s s')"

lemma smt_env_ok_crypto: "smt_env_ok E \<Longrightarrow> crypto_ok (se_crypto E)"
  by (simp add: smt_env_ok_def)

lemma smt_env_ok_insert:
  assumes "smt_env_ok E"
  obtains t' where "se_insert E t k v = Ok t'"
    and "\<And>k'. se_get E t' k' = (if k' = k then Ok (Some v) else se_get E t k')"
  using assms unfolding smt_env_ok_def by metis

definition node_value :: "'t smt_env \<Rightarrow> 't \<Rightarrow> bytes \<Rightarrow> nat \<Rightarrow> bytes" where
  "node_value E db key level =
     (case se_get E db (storage_key_for_node key level) of
        Ok (Some b) \<Rightarrow> if length b = 32 then b else default_hash (se_crypto E) level
      | _ \<Rightarrow> default_hash (se_crypto E) level)"

definition smt_nodes_inv :: "'t smt_env \<Rightarrow> 't \<Rightarrow> (bytes \<rightharpoonup> bytes) \<Rightarrow> bool" where
  "smt_nodes_inv E db V \<longleftrightarrow>
     (\<forall>k l. length k = 32 \<longrightarrow> l \<le> TREE_DEPTH \<longrightarrow>
        node_value E db k l = subtree (se_crypto E) V l (path_to k l))"

definition smt_values_inv :: "'t smt_env \<Rightarrow> 't \<Rightarrow> (bytes \<rightharpoonup> bytes) \<Rightarrow> bool" where
  "smt_values_inv E db V \<longleftrightarrow> (\<forall>k. length k = 32 \<longrightarrow> se_get E db (leaf_value_key k) = Ok (V k))"

definition smt_inv :: "'t smt_env \<Rightarrow> 't StateTree \<Rightarrow> (bytes \<rightharpoonup> bytes) \<Rightarrow> bool" where
  "smt_inv E T V \<longleftrightarrow> smt_nodes_inv E (st_db T) V \<and> smt_values_inv E (st_db T) V \<and>
     st_root T = smt_root (se_crypto E) V"

lemma sibling_hash_node_value:
  assumes "l < TREE_DEPTH"
  shows "sibling_hash E db k (Suc l) = node_value E db (flip_bit_at k (TREE_DEPTH - Suc l)) l"
  using assms
  by (simp add: sibling_hash_def node_value_def storage_key_for_sibling_flip
      compute_default_hashes_nth split: result.split option.split)

lemma sibling_hash_spec:
  assumes "smt_nodes_inv E db V" and "length k = 32" and "l < TREE_DEPTH"
  shows "sibling_hash E db k (Suc l)
     = subtree (se_crypto E) V l (path_to k (Suc l) @ [\<not> bit_at_level k (Suc l)])"
  using assms unfolding smt_nodes_inv_def sibling_hash_node_value [OF assms(3)]
  by (simp add: path_to_sibling)

lemma sibling_off_path:
  assumes "length k = 32" and "l < TREE_DEPTH"
  shows "subtree C (V(k \<mapsto> v)) l (path_to k (Suc l) @ [\<not> bit_at_level k (Suc l)])
     = subtree C V l (path_to k (Suc l) @ [\<not> bit_at_level k (Suc l)])"
proof (rule subtree_update_off [OF assms(1)])
  have len: "length (path_to k (Suc l) @ [b]) = TREE_DEPTH - l" for b
    using assms(2) by (simp add: path_to_def)
  then show "length (path_to k (Suc l) @ [\<not> bit_at_level k (Suc l)]) + l = TREE_DEPTH"
    using assms(2) by simp
  have "take (TREE_DEPTH - l) (key_bits k) = path_to k (Suc l) @ [bit_at_level k (Suc l)]"
    using path_to_step [OF assms(2), of k] by (simp add: path_to_def)
  then show "take (length (path_to k (Suc l) @ [\<not> bit_at_level k (Suc l)])) (key_bits k)
      \<noteq> path_to k (Suc l) @ [\<not> bit_at_level k (Suc l)]"
    unfolding len by simp
qed

text \<open>
  The state of the walk after level \<open>m\<close>: the nodes on the path up to \<open>m\<close> carry the new hashes,
  every other node and every value is as in the store \<open>db0\<close>.
\<close>

definition walk_inv ::
  "'t smt_env \<Rightarrow> 't \<Rightarrow> (bytes \<rightharpoonup> bytes) \<Rightarrow> bytes \<Rightarrow> nat \<Rightarrow> 't \<Rightarrow> bytes \<Rightarrow> bool" where
  "walk_inv E db0 V' k m db h \<longleftrightarrow>
     h = subtree (se_crypto E) V' m (path_to k m) \<and>
     (\<forall>k' l. length k' = 32 \<longrightarrow> l \<le> TREE_DEPTH \<longrightarrow>
        node_value E db k' l =
          (if l \<le> m \<and> path_to k' l = path_to k l then subtree (se_crypto E) V' l (path_to k l)
           else node_value E db0 k' l)) \<and>
     (\<forall>k'. se_get E db (leaf_value_key k') = se_get E db0 (leaf_value_key k'))"

lemma node_value_insert:
  assumes get: "\<And>k'. se_get E db' k' = (if k' = storage_key_for_node k l then Ok (Some h) else se_get E db k')"
    and "length h = 32" "length k = 32" "length k' = 32" "l \<le> TREE_DEPTH" "l' \<le> TREE_DEPTH"
  shows "node_value E db' k' l' =
     (if l' = l \<and> path_to k' l' = path_to k l then h else node_value E db k' l')"
  using assms(2-) node_key_iff [of k' k l' l]
  by (auto simp: node_value_def get)

lemma walk_step:
  assumes ok: "smt_env_ok E" and k: "length k = 32" and m: "m < TREE_DEPTH"
    and inv: "walk_inv E db0 V' k m db h"
    and h': "h' = subtree (se_crypto E) V' (Suc m) (path_to k (Suc m))"
    and get: "\<And>x. se_get E db' x = (if x = storage_key_for_node k (Suc m) then Ok (Some h') else se_get E db x)"
  shows "walk_inv E db0 V' k (Suc m) db' h'"
proof -
  have len: "length h' = 32" unfolding h' by (rule length_subtree [OF smt_env_ok_crypto [OF ok]])
  have vals: "se_get E db' (leaf_value_key k') = se_get E db0 (leaf_value_key k')" for k'
    using inv m leaf_value_key_not_node [of "Suc m"] by (simp add: walk_inv_def get)
  have "node_value E db' k' l =
      (if l \<le> Suc m \<and> path_to k' l = path_to k l then subtree (se_crypto E) V' l (path_to k l)
       else node_value E db0 k' l)" if "length k' = 32" "l \<le> TREE_DEPTH" for k' l
    using inv that h' m node_value_insert [OF get len k that(1) _ that(2)]
    by (auto simp: walk_inv_def le_Suc_eq)
  with vals h' show ?thesis by (simp add: walk_inv_def)
qed

lemma put_walk_correct:
  assumes ok: "smt_env_ok E" and k: "length k = 32"
    and sibs: "\<And>l. l < TREE_DEPTH \<Longrightarrow>
       sibs ! l = subtree (se_crypto E) V' l (path_to k (Suc l) @ [\<not> bit_at_level k (Suc l)])"
  shows "m \<le> TREE_DEPTH \<Longrightarrow> walk_inv E db0 V' k m db h \<Longrightarrow>
     \<exists>db' h'. put_walk E k sibs [Suc m..<TREE_DEPTH + 1] db h = Some (db', h') \<and>
       walk_inv E db0 V' k TREE_DEPTH db' h'"
proof (induction "TREE_DEPTH - m" arbitrary: m db h)
  case 0
  then show ?case by simp
next
  case (Suc d)
  then have m: "m < TREE_DEPTH" by simp
  then have upt: "[Suc m..<TREE_DEPTH + 1] = Suc m # [Suc (Suc m)..<TREE_DEPTH + 1]"
    by (simp add: upt_rec)
  let ?C = "se_crypto E" and ?b = "bit_at_level k (Suc m)"
  define h' where "h' = subtree ?C V' (Suc m) (path_to k (Suc m))"
  have "h = subtree ?C V' m (path_to k (Suc m) @ [?b])"
    using Suc.prems(2) path_to_step [OF m] by (simp add: walk_inv_def)
  then have step: "(if ?b then combine_hashes ?C (sibs ! m) h else combine_hashes ?C h (sibs ! m)) = h'"
    unfolding h'_def subtree_path_step Let_def sibs [OF m] by simp
  obtain db' where ins: "se_insert E db (storage_key_for_node k (Suc m)) h' = Ok db'"
    and get: "\<And>x. se_get E db' x = (if x = storage_key_for_node k (Suc m) then Ok (Some h') else se_get E db x)"
    using smt_env_ok_insert [OF ok] by blast
  have "walk_inv E db0 V' k (Suc m) db' h'"
    by (rule walk_step [OF ok k m Suc.prems(2) h'_def get])
  then show ?case
    using Suc.hyps(1) [of "Suc m" db' h'] Suc.hyps(2) m upt step ins by (simp add: Let_def)
qed

lemma values_after_put:
  assumes "smt_values_inv E db V"
    and "\<And>k'. se_get E db' (leaf_value_key k') = (if k' = k then Ok (Some v) else se_get E db (leaf_value_key k'))"
  shows "smt_values_inv E db' (V(k \<mapsto> v))"
  using assms by (simp add: smt_values_inv_def)

lemma nodes_after_walk:
  assumes k: "length k = 32" and nodes: "smt_nodes_inv E db V"
    and same: "\<And>k' l. l \<le> TREE_DEPTH \<Longrightarrow> node_value E db1 k' l = node_value E db k' l"
    and walk: "walk_inv E db1 (V(k \<mapsto> v)) k TREE_DEPTH db' h"
  shows "smt_nodes_inv E db' (V(k \<mapsto> v))"
  unfolding smt_nodes_inv_def
proof (intro allI impI)
  fix k' :: bytes and l :: nat
  assume k': "length k' = 32" and l: "l \<le> TREE_DEPTH"
  show "node_value E db' k' l = subtree (se_crypto E) (V(k \<mapsto> v)) l (path_to k' l)"
  proof (cases "path_to k' l = path_to k l")
    case True
    then show ?thesis using walk k' l by (simp add: walk_inv_def)
  next
    case False
    have len: "length (path_to k' l) = TREE_DEPTH - l" by (simp add: path_to_def)
    have "subtree (se_crypto E) (V(k \<mapsto> v)) l (path_to k' l) = subtree (se_crypto E) V l (path_to k' l)"
      using False l by (intro subtree_update_off [OF k]) (simp_all add: len, simp add: path_to_def)
    moreover have "node_value E db' k' l = node_value E db k' l"
      using False walk k' l same [OF l] by (simp add: walk_inv_def)
    ultimately show ?thesis using nodes k' l by (simp add: smt_nodes_inv_def)
  qed
qed

lemma StateTree_put_correct:
  assumes ok: "smt_env_ok E" and inv: "smt_inv E T V"
  shows "\<exists>T'. StateTree_put E T a s = Some T' \<and>
     smt_inv E T' (V(address_to_key (se_crypto E) a \<mapsto> se_enc E s))"
proof -
  let ?C = "se_crypto E" and ?v = "se_enc E s" and ?db = "st_db T"
  define k where "k = address_to_key ?C a"
  define sibs where "sibs = map (sibling_hash E ?db k) [1..<TREE_DEPTH + 1]"
  let ?V' = "V(k \<mapsto> ?v)"
  note C = smt_env_ok_crypto [OF ok]
  have k: "length k = 32" unfolding k_def using C by simp
  have nodes: "smt_nodes_inv E ?db V" and vals: "smt_values_inv E ?db V"
    using inv by (simp_all add: smt_inv_def)
  have sibs: "sibs ! l = subtree ?C ?V' l (path_to k (Suc l) @ [\<not> bit_at_level k (Suc l)])"
    if "l < TREE_DEPTH" for l
    using that sibling_hash_spec [OF nodes k that] sibling_off_path [OF k that]
    by (simp add: sibs_def del: upt_Suc)
  obtain db1 where i1: "se_insert E ?db (leaf_value_key k) ?v = Ok db1"
    and g1: "\<And>x. se_get E db1 x = (if x = leaf_value_key k then Ok (Some ?v) else se_get E ?db x)"
    using smt_env_ok_insert [OF ok] by blast
  obtain db2 where i2: "se_insert E db1 (storage_key_for_node k 0) (leaf_hash ?C k ?v) = Ok db2"
    and g2: "\<And>x. se_get E db2 x =
      (if x = storage_key_for_node k 0 then Ok (Some (leaf_hash ?C k ?v)) else se_get E db1 x)"
    using smt_env_ok_insert [OF ok] by blast
  have same: "node_value E db1 k' l = node_value E ?db k' l" if "l \<le> TREE_DEPTH" for k' l
    using leaf_value_key_not_node [OF that, THEN not_sym] by (simp add: node_value_def g1)
  have "node_value E db2 k' l =
      (if l = 0 \<and> path_to k' 0 = path_to k 0 then leaf_hash ?C k ?v else node_value E db1 k' l)"
    if "length k' = 32" "l \<le> TREE_DEPTH" for k' l
    using node_value_insert [OF g2 _ k that(1) _ that(2)] C by auto
  moreover have "se_get E db2 (leaf_value_key k') = se_get E db1 (leaf_value_key k')" for k'
    using leaf_value_key_not_node [of 0] by (simp add: g2)
  ultimately have "walk_inv E db1 ?V' k 0 db2 (leaf_hash ?C k ?v)"
    by (auto simp: walk_inv_def leaf_spec_key [OF k])
  from put_walk_correct [OF ok k sibs _ this]
  obtain db3 h where w: "put_walk E k sibs [1..<TREE_DEPTH + 1] db2 (leaf_hash ?C k ?v) = Some (db3, h)"
    and winv: "walk_inv E db1 ?V' k TREE_DEPTH db3 h" by auto
  have "smt_nodes_inv E db3 ?V'"
    by (rule nodes_after_walk [OF k nodes same winv])
  moreover have "smt_values_inv E db3 ?V'"
    using winv by (intro values_after_put [OF vals]) (simp add: walk_inv_def g1)
  moreover have "h = smt_root ?C ?V'" using winv by (simp add: walk_inv_def smt_root_def)
  moreover have "StateTree_put E T a s = Some \<lparr>st_db = db3, st_root = h\<rparr>"
    using i1 i2 w
    by (simp add: StateTree_put_def Let_def k_def [symmetric] AccountState_to_bytes_def
        sibs_def rev_map del: upt_Suc)
  ultimately show ?thesis by (simp add: smt_inv_def k_def)
qed

lemma StateTree_get_value:
  "smt_env_ok E \<Longrightarrow> smt_inv E T V \<Longrightarrow>
   StateTree_get E T a = (case V (address_to_key (se_crypto E) a) of None \<Rightarrow> None | Some b \<Rightarrow> se_dec E b)"
  by (simp add: StateTree_get_def smt_inv_def smt_values_inv_def AccountState_from_bytes_def
      smt_env_ok_crypto split: option.split)

lemma smt_inv_new:
  assumes "smt_env_ok E" and "\<And>k. se_get E db k = Ok None"
  shows "smt_inv E (StateTree_new E db) Map.empty"
  using assms
  by (simp add: smt_inv_def smt_nodes_inv_def smt_values_inv_def StateTree_new_def node_value_def
      subtree_empty smt_root_def compute_default_hashes_nth)

section \<open>The contract of the account store and transfers over it\<close>

definition acct_at :: "('s \<Rightarrow> string \<Rightarrow> AccountState option) \<Rightarrow> 's \<Rightarrow> string \<Rightarrow> AccountState" where
  "acct_at get s a = (case get s a of Some x \<Rightarrow> x | None \<Rightarrow> AccountState_default)"

locale account_store =
  fixes ok :: "'e \<Rightarrow> bool"
    and inv :: "'e \<Rightarrow> 's \<Rightarrow> bool"
    and key :: "'e \<Rightarrow> string \<Rightarrow> 'k"
    and get :: "'e \<Rightarrow> 's \<Rightarrow> string \<Rightarrow> AccountState option"
    and put :: "'e \<Rightarrow> 's \<Rightarrow> string \<Rightarrow> AccountState \<Rightarrow> 's option"
  assumes put_get: "ok e \<Longrightarrow> inv e s \<Longrightarrow> \<exists>s' x'. put e s a x = Some s' \<and> inv e s' \<and> acct_eq x x' \<and>
      (\<forall>b. get e s' b = (if key e b = key e a then Some x' else get e s b))"
    and get_key: "ok e \<Longrightarrow> inv e s \<Longrightarrow> key e a = key e b \<Longrightarrow> get e s a = get e s b"
begin

abbreviation acct where "acct e s a \<equiv> acct_at (get e) s a"

lemma put_acct:
  assumes "ok e" and "inv e s"
  obtains s' where "put e s a x = Some s'" and "inv e s'"
    and "\<And>b. acct_eq (if key e b = key e a then x else acct e s b) (acct e s' b)"
proof -
  obtain s' x' where "put e s a x = Some s'" "inv e s'" "acct_eq x x'"
    and "\<forall>b. get e s' b = (if key e b = key e a then Some x' else get e s b)"
    using put_get [OF assms] by blast
  then show ?thesis by (intro that [of s']) (simp_all add: acct_at_def acct_eq_def)
qed

text \<open>The three outcomes of a transfer.\<close>

lemma transfer_frozen:
  "acct_frozen (acct e s sender) \<Longrightarrow>
   transfer_on (get e) (put e) s sender receiver amount = Some (s, Err (AccountFrozen sender))"
  by (simp add: transfer_on_def acct_at_def)

lemma transfer_insufficient:
  "\<not> acct_frozen (acct e s sender) \<Longrightarrow> acct_balance (acct e s sender) < amount \<Longrightarrow>
   transfer_on (get e) (put e) s sender receiver amount
     = Some (s, Err (InsufficientBalance (acct_balance (acct e s sender)) amount))"
  by (simp add: transfer_on_def acct_at_def)

lemma transfer_ok:
  assumes ok: "ok e" and inv: "inv e s" and "\<not> acct_frozen (acct e s sender)"
    and "amount \<le> acct_balance (acct e s sender)"
  shows "\<exists>s'. transfer_on (get e) (put e) s sender receiver amount = Some (s', Ok ()) \<and> inv e s' \<and>
     (\<forall>b. acct_balance (acct e s' b) = acct_balance (acct e s b)
            - (if key e b = key e sender then amount else 0)
            + (if key e b = key e receiver then amount else 0) \<and>
          acct_nonce (acct e s' b) = acct_nonce (acct e s b)
            + (if key e b = key e sender then 1 else 0) \<and>
          acct_frozen (acct e s' b) = acct_frozen (acct e s b))"
proof -
  let ?x = "acct e s sender"
  let ?x1 = "?x\<lparr>acct_balance := acct_balance ?x - amount, acct_nonce := acct_nonce ?x + 1\<rparr>"
  obtain s1 where p1: "put e s sender ?x1 = Some s1" and i1: "inv e s1"
    and e1: "\<And>b. acct_eq (if key e b = key e sender then ?x1 else acct e s b) (acct e s1 b)"
    using put_acct [OF ok inv] by blast
  let ?y = "acct e s1 receiver"
  let ?y1 = "?y\<lparr>acct_balance := acct_balance ?y + amount\<rparr>"
  obtain s2 where p2: "put e s1 receiver ?y1 = Some s2" and i2: "inv e s2"
    and e2: "\<And>b. acct_eq (if key e b = key e receiver then ?y1 else acct e s1 b) (acct e s2 b)"
    using put_acct [OF ok i1] by blast
  have same: "acct e s b = acct e s c" "acct e s1 b = acct e s1 c" if "key e b = key e c" for b c
    using get_key [OF ok inv that] get_key [OF ok i1 that] by (simp_all add: acct_at_def)
  have "transfer_on (get e) (put e) s sender receiver amount = Some (s2, Ok ())"
    using assms(3,4) p1 p2
    by (simp add: transfer_on_def acct_at_def [symmetric] Let_def not_less)
  moreover have "acct_balance (acct e s2 b) = acct_balance (acct e s b)
        - (if key e b = key e sender then amount else 0)
        + (if key e b = key e receiver then amount else 0) \<and>
      acct_nonce (acct e s2 b) = acct_nonce (acct e s b) + (if key e b = key e sender then 1 else 0) \<and>
      acct_frozen (acct e s2 b) = acct_frozen (acct e s b)" for b
  proof -
    have 1: "acct_balance (acct e s1 c) =
        acct_balance (acct e s c) - (if key e c = key e sender then amount else 0)"
      "acct_nonce (acct e s1 c) = acct_nonce (acct e s c) + (if key e c = key e sender then 1 else 0)"
      "acct_frozen (acct e s1 c) = acct_frozen (acct e s c)" for c
      using e1 [of c] same(1) [of c sender] by (simp_all add: acct_eq_def split: if_splits)
    have 2: "acct_balance (acct e s2 b) =
        acct_balance (acct e s1 b) + (if key e b = key e receiver then amount else 0)"
      "acct_nonce (acct e s2 b) = acct_nonce (acct e s1 b)"
      "acct_frozen (acct e s2 b) = acct_frozen (acct e s1 b)"
      using e2 [of b] same(2) [of b receiver] by (simp_all add: acct_eq_def split: if_splits)
    show ?thesis unfolding 2 1 by simp
  qed
  ultimately show ?thesis using i2 by blast
qed

text \<open>Every transfer terminates without panic and keeps the sum of the balances of any finite set
  of addresses with different keys that contains sender and receiver, if the sum fits in 64 bits.\<close>

definition total where
  "total e s A = (\<Sum>a\<in>A. unat (acct_balance (acct e s a)))"

lemma transfer_conserves:
  assumes ok: "ok e" and inv: "inv e s" and A: "finite A" "sender \<in> A" "receiver \<in> A"
    and inj: "inj_on (key e) A" and bound: "total e s A < 2 ^ 64"
  shows "\<exists>s' r. transfer_on (get e) (put e) s sender receiver amount = Some (s', r) \<and>
     inv e s' \<and> total e s' A = total e s A"
proof (cases "\<not> acct_frozen (acct e s sender) \<and> amount \<le> acct_balance (acct e s sender)")
  case False
  then have "\<exists>r. transfer_on (get e) (put e) s sender receiver amount = Some (s, r)"
    using transfer_frozen [of e s sender receiver amount]
      transfer_insufficient [of e s sender amount receiver] by (meson not_le)
  then show ?thesis using inv by blast
next
  case True
  let ?bal = "\<lambda>s a. acct_balance (acct e s a)"
  obtain s' where t: "transfer_on (get e) (put e) s sender receiver amount = Some (s', Ok ())"
    and i: "inv e s'" and b: "\<And>b. ?bal s' b = ?bal s b
            - (if key e b = key e sender then amount else 0)
            + (if key e b = key e receiver then amount else 0)"
    using transfer_ok [OF ok inv] True by blast
  have key: "key e a = key e c \<longleftrightarrow> a = c" if "a \<in> A" "c \<in> A" for a c
    using inj that by (auto dest: inj_onD)
  have "total e s' A = total e s A"
  proof (cases "sender = receiver")
    case True
    then show ?thesis unfolding total_def by (simp add: b)
  next
    case False
    have le: "amount \<le> ?bal s sender" using True by blast
    have split: "total e t A = unat (?bal t sender) + unat (?bal t receiver)
        + (\<Sum>a\<in>A - {sender} - {receiver}. unat (?bal t a))" for t
      unfolding total_def
      using A False by (simp add: sum.remove [of A sender] sum.remove [of "A - {sender}" receiver])
    have rest: "(\<Sum>a\<in>A - {sender} - {receiver}. unat (?bal s' a))
        = (\<Sum>a\<in>A - {sender} - {receiver}. unat (?bal s a))"
      using A by (intro sum.cong) (auto simp: b key)
    have "unat (?bal s sender) + unat (?bal s receiver) < 2 ^ 64"
      using bound split [of s] by linarith
    moreover have am: "unat amount \<le> unat (?bal s sender)" using le by (simp add: word_le_nat_alt)
    ultimately have "unat (?bal s receiver + amount) = unat (?bal s receiver) + unat amount"
      by (intro unat_plus_no_overflow) simp
    moreover have "unat (?bal s sender - amount) = unat (?bal s sender) - unat amount"
      using le by (rule unat_minus_le)
    ultimately show ?thesis
      using split [of s] split [of s'] rest am A False by (simp add: b key)
  qed
  with t i show ?thesis by blast
qed

end

interpretation smt: account_store smt_env_ok "\<lambda>E T. \<exists>V. smt_inv E T V"
  "\<lambda>E. address_to_key (se_crypto E)" StateTree_get StateTree_put
proof
  fix E :: "'t smt_env" and T a x
  assume ok: "smt_env_ok E" and "\<exists>V. smt_inv E T V"
  then obtain V where inv: "smt_inv E T V" by blast
  let ?k = "address_to_key (se_crypto E)"
  obtain T' where put: "StateTree_put E T a x = Some T'" and inv': "smt_inv E T' (V(?k a \<mapsto> se_enc E x))"
    using StateTree_put_correct [OF ok inv] by blast
  obtain x' where dec: "se_dec E (se_enc E x) = Some x'" and eq: "acct_eq x x'"
    using ok unfolding smt_env_ok_def by blast
  have "\<forall>b. StateTree_get E T' b = (if ?k b = ?k a then Some x' else StateTree_get E T b)"
    using StateTree_get_value [OF ok inv'] StateTree_get_value [OF ok inv] dec by auto
  with put inv' eq show "\<exists>s' x'. StateTree_put E T a x = Some s' \<and> (\<exists>V. smt_inv E s' V) \<and> acct_eq x x' \<and>
      (\<forall>b. StateTree_get E s' b = (if ?k b = ?k a then Some x' else StateTree_get E T b))"
    by blast
next
  fix E :: "'t smt_env" and T a b
  assume "smt_env_ok E" and "\<exists>V. smt_inv E T V"
    and "address_to_key (se_crypto E) a = address_to_key (se_crypto E) b"
  then show "StateTree_get E T a = StateTree_get E T b"
    using StateTree_get_value by fastforce
qed

section \<open>Merkle proofs\<close>

lemma fold_proof_path:
  assumes "smt_nodes_inv E db V" and "length k = 32"
  shows "m \<le> TREE_DEPTH \<Longrightarrow>
     fold_proof (se_crypto E) (zip (map (bit_at_level k) [Suc m..<TREE_DEPTH + 1])
        (map (sibling_hash E db k) [Suc m..<TREE_DEPTH + 1])) (subtree (se_crypto E) V m (path_to k m))
     = smt_root (se_crypto E) V"
proof (induction "TREE_DEPTH - m" arbitrary: m)
  case 0
  then show ?case by (simp add: smt_root_def)
next
  case (Suc d)
  then have m: "m < TREE_DEPTH" by simp
  then have upt: "[Suc m..<TREE_DEPTH + 1] = Suc m # [Suc (Suc m)..<TREE_DEPTH + 1]"
    by (simp add: upt_rec)
  have "(if bit_at_level k (Suc m)
      then combine_hashes (se_crypto E) (sibling_hash E db k (Suc m)) (subtree (se_crypto E) V m (path_to k m))
      else combine_hashes (se_crypto E) (subtree (se_crypto E) V m (path_to k m)) (sibling_hash E db k (Suc m)))
    = subtree (se_crypto E) V (Suc m) (path_to k (Suc m))"
    unfolding subtree_path_step Let_def sibling_hash_spec [OF assms m] path_to_step [OF m, of k] ..
  then show ?case using Suc.hyps(1) [of "Suc m"] Suc.hyps(2) m unfolding upt by simp
qed

text \<open>The hash inputs a verifier combines, and the corresponding ones in the tree.\<close>

fun proof_preimages :: "crypto \<Rightarrow> (bool \<times> bytes) list \<Rightarrow> bytes \<Rightarrow> bytes set" where
  "proof_preimages C [] h = {}"
| "proof_preimages C ((b, s) # ps) h =
     insert (if b then s @ h else h @ s)
       (proof_preimages C ps (if b then combine_hashes C s h else combine_hashes C h s))"

fun tree_preimages :: "crypto \<Rightarrow> (bytes \<rightharpoonup> bytes) \<Rightarrow> nat \<Rightarrow> bool list \<Rightarrow> bytes set" where
  "tree_preimages C V m [] = {}"
| "tree_preimages C V m (b # bs) =
     insert (subtree C V m (rev bs @ [False]) @ subtree C V m (rev bs @ [True]))
       (tree_preimages C V (Suc m) bs)"

definition leaf_preimages :: "(bytes \<rightharpoonup> bytes) \<Rightarrow> bool list \<Rightarrow> bytes set" where
  "leaf_preimages V bs = {k @ v | k v. length k = 32 \<and> key_bits k = bs \<and> V k = Some v}"

lemma fold_proof_sound:
  "crypto_ok C \<Longrightarrow> fold_proof C ps h = subtree C V (m + length ps) [] \<Longrightarrow> length h = 32 \<Longrightarrow>
     (\<forall>(b, s)\<in>set ps. length s = 32) \<Longrightarrow>
     inj_on (c_blake3 C) (proof_preimages C ps h \<union> tree_preimages C V m (map fst ps)) \<Longrightarrow>
     h = subtree C V m (rev (map fst ps))"
proof (induction C ps h arbitrary: m rule: fold_proof.induct)
  case (1 C h)
  then show ?case by simp
next
  case (2 C b s ps h)
  let ?h' = "if b then combine_hashes C s h else combine_hashes C h s"
  let ?x = "rev (map fst ps)"
  let ?F = "subtree C V m (?x @ [False])" and ?T = "subtree C V m (?x @ [True])"
  have inj: "inj_on (c_blake3 C) (proof_preimages C ps ?h' \<union> tree_preimages C V (Suc m) (map fst ps))"
    by (rule inj_on_subset [OF "2.prems"(5)]) auto
  have "?h' = subtree C V (Suc m) ?x"
    by (rule "2.IH") (use "2.prems" inj in \<open>simp_all\<close>)
  then have eq: "c_blake3 C (if b then s @ h else h @ s) = c_blake3 C (?F @ ?T)"
    by (cases b) (simp_all add: combine_hashes_def blake3_hash_def)
  have pre: "(if b then s @ h else h @ s) = ?F @ ?T"
    by (rule inj_onD [OF "2.prems"(5) eq]) simp_all
  have "length ?F = 32" "length s = 32" "length h = 32"
    using "2.prems" by (simp_all add: length_subtree)
  with pre show ?case by (cases b) simp_all
qed

lemma leaf_sound:
  assumes C: "crypto_ok C" and k: "length k = 32"
    and h: "leaf_hash C k v = leaf_spec C V bs" and nz: "leaf_hash C k v \<noteq> replicate 32 0"
    and inj: "inj_on (c_blake3 C) (insert (k @ v) (leaf_preimages V bs))"
  shows "V k = Some v \<and> key_bits k = bs"
proof -
  from h nz obtain k' where k': "length k' = 32" "key_bits k' = bs" "V k' \<noteq> None"
    by (auto simp: leaf_spec_def split: if_splits)
  then obtain v' where v': "V k' = Some v'" by blast
  have "leaf_spec C V bs = leaf_hash C k' v'"
    using k' v' leaf_spec_key [of k' C V] by auto
  with h have "c_blake3 C (k @ v) = c_blake3 C (k' @ v')"
    by (simp add: leaf_hash_def blake3_hash_def)
  moreover have "k' @ v' \<in> leaf_preimages V bs" using k' v' by (auto simp: leaf_preimages_def)
  ultimately have "k @ v = k' @ v'" using inj by (auto dest: inj_onD)
  then show ?thesis using k k' v' by simp
qed

lemma verify_get_proof:
  assumes ok: "smt_env_ok E" and inv: "smt_inv E T V"
    and val: "V (address_to_key (se_crypto E) a) = map_option (se_enc E) val"
    and b: "val = None \<or> b = a"
  shows "StateTree_verify_proof E (st_root T) b val (StateTree_get_proof E T a)"
proof -
  let ?C = "se_crypto E"
  define k where "k = address_to_key ?C a"
  have k: "length k = 32" unfolding k_def using smt_env_ok_crypto [OF ok] by simp
  have nodes: "smt_nodes_inv E (st_db T) V" and root: "st_root T = smt_root ?C V"
    using inv by (simp_all add: smt_inv_def)
  have leaf: "subtree ?C V 0 (path_to k 0) =
      (case val of Some s \<Rightarrow> leaf_hash ?C k (se_enc E s) | None \<Rightarrow> default_hash ?C 0)"
    using val by (cases val) (simp_all add: leaf_spec_key [OF k] k_def [symmetric])
  show ?thesis
    using b fold_proof_path [OF nodes k, of 0] leaf root
    by (auto simp: StateTree_verify_proof_def StateTree_get_proof_def Let_def k_def [symmetric]
        AccountState_to_bytes_def compute_default_hashes_nth simp del: upt_Suc split: option.splits)
qed

end
