(* ===== verification/State_Tree_Props.thy ===== *)
theory State_Tree_Props
  imports State_Tree
begin

text \<open>
  The properties of the state tree and of transfers, with a concrete environment on which they
  are instantiated: a store that is an association list, a small self-delimiting codec for
  accounts, and a hash that counts the tree level in its first two bytes, so that it separates
  the inputs on a path.
\<close>

section \<open>A concrete environment\<close>

definition enc_list :: "('a \<Rightarrow> bytes) \<Rightarrow> 'a list \<Rightarrow> bytes" where
  "enc_list f xs = concat (map (\<lambda>x. 1 # f x) xs) @ [0]"

function dec_list :: "(bytes \<Rightarrow> ('a \<times> bytes) option) \<Rightarrow> bytes \<Rightarrow> ('a list \<times> bytes) option" where
  "dec_list d [] = None"
| "dec_list d (b # bs) =
     (if b = 0 then Some ([], bs)
      else case d bs of
             None \<Rightarrow> None
           | Some (x, rest) \<Rightarrow>
               if length rest \<le> length bs
               then (case dec_list d rest of None \<Rightarrow> None | Some (xs, rest') \<Rightarrow> Some (x # xs, rest'))
               else None)"
  by pat_completeness auto
termination
  by (relation "measure (\<lambda>(d, bs). length bs)") auto

lemma dec_enc_list:
  assumes "\<And>x rest. d (f x @ rest) = Some (x, rest)"
  shows "dec_list d (enc_list f xs @ rest) = Some (xs, rest)"
  by (induction xs) (simp_all add: enc_list_def assms)

definition enc_byte :: "u8 \<Rightarrow> bytes" where
  "enc_byte b = [b]"

definition dec_byte :: "bytes \<Rightarrow> (u8 \<times> bytes) option" where
  "dec_byte bs = (case bs of [] \<Rightarrow> None | b # rest \<Rightarrow> Some (b, rest))"

definition enc_str :: "string \<Rightarrow> bytes" where
  "enc_str s = enc_list enc_byte (as_bytes s)"

definition dec_str :: "bytes \<Rightarrow> (string \<times> bytes) option" where
  "dec_str bs = (case dec_list dec_byte bs of
      None \<Rightarrow> None | Some (b, rest) \<Rightarrow> Some (demo_hex_encode b, rest))"

definition enc_pair :: "string \<times> bytes \<Rightarrow> bytes" where
  "enc_pair p = enc_str (fst p) @ enc_list enc_byte (snd p)"

definition dec_pair :: "bytes \<Rightarrow> ((string \<times> bytes) \<times> bytes) option" where
  "dec_pair bs = (case dec_str bs of
      None \<Rightarrow> None
    | Some (s, rest) \<Rightarrow> (case dec_list dec_byte rest of
        None \<Rightarrow> None | Some (b, rest') \<Rightarrow> Some ((s, b), rest')))"

definition demo_enc :: "AccountState \<Rightarrow> bytes" where
  "demo_enc s = u64_to_be_bytes (acct_nonce s) @ u64_to_be_bytes (acct_balance s) @
     enc_list enc_pair (acct_balance_commitments s) @ enc_list enc_str (acct_credit_lines s) @
     [if acct_frozen s then 1 else 0]"

definition demo_dec :: "bytes \<Rightarrow> AccountState option" where
  "demo_dec bs = (case dec_list dec_pair (drop 16 bs) of
      None \<Rightarrow> None
    | Some (m, r1) \<Rightarrow> (case dec_list dec_str r1 of
        None \<Rightarrow> None
      | Some (ls, r2) \<Rightarrow> (case r2 of
          [] \<Rightarrow> None
        | f # _ \<Rightarrow> Some \<lparr>acct_nonce = u64_from_be_bytes (take 8 bs),
             acct_balance = u64_from_be_bytes (take 8 (drop 8 bs)),
             acct_balance_commitments = m, acct_credit_lines = ls, acct_frozen = (f = 1)\<rparr>)))"

lemma as_bytes_demo_hex [simp]: "demo_hex_encode (as_bytes s) = s"
  using demo_hex_roundtrip [of "as_bytes s"] unfolding as_bytes_inj .

lemma dec_enc_bytes: "dec_list dec_byte (enc_list enc_byte b @ rest) = Some (b, rest)"
  by (rule dec_enc_list) (simp add: dec_byte_def enc_byte_def)

lemma dec_enc_str: "dec_str (enc_str s @ rest) = Some (s, rest)"
  by (simp add: dec_str_def enc_str_def dec_enc_bytes)

lemma dec_enc_pair: "dec_pair (enc_pair p @ rest) = Some (p, rest)"
  by (simp add: dec_pair_def enc_pair_def dec_enc_str dec_enc_bytes)

lemma demo_codec: "demo_dec (demo_enc s) = Some s"
  by (simp add: demo_dec_def demo_enc_def dec_enc_list [OF dec_enc_pair] dec_enc_list [OF dec_enc_str])

text \<open>The level-counting hash.\<close>

definition hash_tag :: "bytes \<Rightarrow> nat" where
  "hash_tag h = le_nat (take 2 h)"

definition level_hash :: "bytes \<Rightarrow> bytes" where
  "level_hash x =
     (if length x = 64 then nat_le_bytes 2 (hash_tag x + 1) @ take 30 (drop 2 x)
      else [0, 0] @ take 30 (x @ replicate 30 0))"

definition demo_env :: "(bytes \<times> bytes) list smt_env" where
  "demo_env = \<lparr>se_crypto = demo_crypto\<lparr>c_blake3 := level_hash\<rparr>,
     se_get = (\<lambda>t k. Ok (map_of t k)), se_insert = (\<lambda>t k v. Ok ((k, v) # t)),
     se_enc = demo_enc, se_dec = demo_dec\<rparr>"

lemma demo_env_ok: "smt_env_ok demo_env"
proof -
  have "length (level_hash x) = 32" for x
    by (simp add: level_hash_def min_def)
  then have "crypto_ok (demo_crypto\<lparr>c_blake3 := level_hash\<rparr>)"
    using demo_crypto_ok by (simp add: crypto_ok_def)
  moreover have "acct_eq s s" for s by (simp add: acct_eq_def)
  ultimately show ?thesis
    by (auto simp: smt_env_ok_def demo_env_def demo_codec)
qed

lemma demo_env_simps [simp]:
  "c_blake3 (se_crypto demo_env) = level_hash" "se_get demo_env t k = Ok (map_of t k)"
  by (simp_all add: demo_env_def)

section \<open>Roots and lookups\<close>

fun puts :: "'t smt_env \<Rightarrow> 't StateTree \<Rightarrow> (string \<times> AccountState) list \<Rightarrow> 't StateTree option" where
  "puts E T [] = Some T"
| "puts E T ((a, s) # xs) = (case StateTree_put E T a s of None \<Rightarrow> None | Some T' \<Rightarrow> puts E T' xs)"

definition contents :: "'t smt_env \<Rightarrow> (string \<times> AccountState) list \<Rightarrow> (bytes \<rightharpoonup> bytes) \<Rightarrow> (bytes \<rightharpoonup> bytes)" where
  "contents E xs V = fold (\<lambda>(a, s) V. V(address_to_key (se_crypto E) a \<mapsto> se_enc E s)) xs V"

lemma puts_correct:
  assumes "smt_env_ok E"
  shows "smt_inv E T V \<Longrightarrow> \<exists>T'. puts E T xs = Some T' \<and> smt_inv E T' (contents E xs V)"
proof (induction xs arbitrary: T V)
  case Nil
  then show ?case by (simp add: contents_def)
next
  case (Cons p xs)
  obtain a s where p: "p = (a, s)" by fastforce
  from StateTree_put_correct [OF assms Cons.prems, of a s] obtain T' where
    "StateTree_put E T a s = Some T'"
    "smt_inv E T' (V(address_to_key (se_crypto E) a \<mapsto> se_enc E s))" by blast
  with Cons.IH show ?case by (fastforce simp: p contents_def)
qed

text \<open>
  C5. The state root is a function of the contents: on a new tree over an empty store every sequence
  of writes succeeds, and the root it leaves is the hash of the full 256-level tree over the map
  from keys to serialised accounts, so the order of the writes and overwritten values leave no
  trace: another sequence with the same final contents leaves the same root.
\<close>
theorem state_root_canonical:
  assumes "smt_env_ok E" and "\<And>k. se_get E db k = Ok None"
    and "contents E xs Map.empty = contents E ys Map.empty"
  shows "\<exists>T T'. puts E (StateTree_new E db) xs = Some T \<and> puts E (StateTree_new E db) ys = Some T' \<and>
     st_root T = smt_root (se_crypto E) (contents E xs Map.empty) \<and> st_root T' = st_root T"
proof -
  from puts_correct [OF assms(1) smt_inv_new [OF assms(1,2)]]
  have "\<exists>T. puts E (StateTree_new E db) zs = Some T \<and>
      st_root T = smt_root (se_crypto E) (contents E zs Map.empty)" for zs
    by (fastforce simp: smt_inv_def)
  with assms(3) show ?thesis by metis
qed

theorem state_root_canonical_witness:
  "\<exists>T T'. puts demo_env (StateTree_new demo_env [])
        [(''al'', AccountState_with_balance 1), (''al'', AccountState_with_balance 5)] = Some T \<and>
     puts demo_env (StateTree_new demo_env []) [(''al'', AccountState_with_balance 5)] = Some T' \<and>
     st_root T' = st_root T"
proof -
  have "contents demo_env [(''al'', AccountState_with_balance 1), (''al'', AccountState_with_balance 5)] Map.empty
      = contents demo_env [(''al'', AccountState_with_balance 5)] Map.empty"
    by (simp add: contents_def)
  from state_root_canonical [OF demo_env_ok _ this, of "[]"] show ?thesis by auto
qed

text \<open>
  C6. Read after write: \<open>put\<close> never panics, keeps the invariant that every stored node hash, every
  stored value and the root agree with the specification, and afterwards \<open>get\<close> returns the
  written account (up to the iteration order of its map) for every address with the same key and
  is unchanged for every other address.
\<close>
theorem state_get_after_put:
  assumes "smt_env_ok E" and "smt_inv E T V"
  shows "\<exists>T'. StateTree_put E T a s = Some T' \<and>
     smt_inv E T' (V(address_to_key (se_crypto E) a \<mapsto> se_enc E s)) \<and>
     (\<forall>b. if address_to_key (se_crypto E) b = address_to_key (se_crypto E) a
          then \<exists>s'. StateTree_get E T' b = Some s' \<and> acct_eq s s'
          else StateTree_get E T' b = StateTree_get E T b)"
proof -
  obtain T' where put: "StateTree_put E T a s = Some T'"
    and inv': "smt_inv E T' (V(address_to_key (se_crypto E) a \<mapsto> se_enc E s))"
    using StateTree_put_correct [OF assms] by blast
  obtain s' where "se_dec E (se_enc E s) = Some s'" "acct_eq s s'"
    using assms(1) unfolding smt_env_ok_def by blast
  with put inv' StateTree_get_value [OF assms] StateTree_get_value [OF assms(1) inv']
  show ?thesis by auto
qed

definition demo_tree :: "(bytes \<times> bytes) list StateTree" where
  "demo_tree = the (StateTree_put demo_env (StateTree_new demo_env []) ''alice''
     (AccountState_with_balance 100))"

definition demo_contents :: "bytes \<rightharpoonup> bytes" where
  "demo_contents = [address_to_key (se_crypto demo_env) ''alice'' \<mapsto> demo_enc (AccountState_with_balance 100)]"

lemma demo_new_inv: "smt_inv demo_env (StateTree_new demo_env []) Map.empty"
  by (rule smt_inv_new [OF demo_env_ok]) simp

lemma demo_tree_inv: "smt_inv demo_env demo_tree demo_contents"
proof -
  obtain T where T: "StateTree_put demo_env (StateTree_new demo_env []) ''alice''
      (AccountState_with_balance 100) = Some T"
    and inv: "smt_inv demo_env T [address_to_key (se_crypto demo_env) ''alice''
      \<mapsto> se_enc demo_env (AccountState_with_balance 100)]"
    using StateTree_put_correct [OF demo_env_ok demo_new_inv] by blast
  have "demo_tree = T" by (simp add: demo_tree_def T)
  moreover have "se_enc demo_env = demo_enc" by (simp add: demo_env_def)
  ultimately show ?thesis using inv by (simp add: demo_contents_def)
qed

lemma demo_keys:
  "address_to_key (se_crypto demo_env) ''alice'' \<noteq> address_to_key (se_crypto demo_env) ''bob''"
  by (simp add: address_to_key_def blake3_hash_def level_hash_def as_bytes_def)

theorem state_get_after_put_witness:
  "\<exists>T'. StateTree_put demo_env demo_tree ''bob'' (AccountState_with_balance 7) = Some T' \<and>
     (\<exists>s'. StateTree_get demo_env T' ''bob'' = Some s' \<and> acct_eq (AccountState_with_balance 7) s') \<and>
     StateTree_get demo_env T' ''alice'' = StateTree_get demo_env demo_tree ''alice''"
proof -
  obtain T' where "StateTree_put demo_env demo_tree ''bob'' (AccountState_with_balance 7) = Some T'"
    and get: "\<forall>b. if address_to_key (se_crypto demo_env) b = address_to_key (se_crypto demo_env) ''bob''
          then \<exists>s'. StateTree_get demo_env T' b = Some s' \<and> acct_eq (AccountState_with_balance 7) s'
          else StateTree_get demo_env T' b = StateTree_get demo_env demo_tree b"
    using state_get_after_put [OF demo_env_ok demo_tree_inv] by blast
  moreover from get [rule_format, of "''bob''"] get [rule_format, of "''alice''"] demo_keys
  have "(\<exists>s'. StateTree_get demo_env T' ''bob'' = Some s' \<and> acct_eq (AccountState_with_balance 7) s') \<and>
     StateTree_get demo_env T' ''alice'' = StateTree_get demo_env demo_tree ''alice''" by auto
  ultimately show ?thesis by blast
qed

section \<open>Proofs of inclusion and exclusion\<close>

text \<open>
  C8. Completeness of Merkle proofs: for every address the proof made by \<open>get_proof\<close> verifies
  against the current root, as an inclusion proof for any account that serialises to the stored
  bytes, and as an exclusion proof when nothing is stored under the address.
\<close>
theorem get_proof_verifies:
  assumes "smt_env_ok E" and "smt_inv E T V"
    and "V (address_to_key (se_crypto E) a) = map_option (se_enc E) val"
  shows "StateTree_verify_proof E (st_root T) a val (StateTree_get_proof E T a)"
  by (rule verify_get_proof [OF assms]) simp

lemma demo_lookup:
  "demo_contents (address_to_key (se_crypto demo_env) ''alice'')
     = map_option (se_enc demo_env) (Some (AccountState_with_balance 100))"
  "demo_contents (address_to_key (se_crypto demo_env) ''bob'') = map_option (se_enc demo_env) None"
  using demo_keys by (auto simp: demo_contents_def demo_env_def)

theorem get_proof_verifies_witness:
  "StateTree_verify_proof demo_env (st_root demo_tree) ''alice'' (Some (AccountState_with_balance 100))
     (StateTree_get_proof demo_env demo_tree ''alice'') \<and>
   StateTree_verify_proof demo_env (st_root demo_tree) ''bob'' None
     (StateTree_get_proof demo_env demo_tree ''bob'')"
  using get_proof_verifies [OF demo_env_ok demo_tree_inv demo_lookup(1)]
    get_proof_verifies [OF demo_env_ok demo_tree_inv demo_lookup(2)] by blast

text \<open>
  C7. Soundness of inclusion proofs: if any proof with 32-byte siblings verifies for an address and
  an account against the current root, then the account is stored under that address and \<open>get\<close>
  returns it, unless BLAKE3 collides among the inputs hashed along the proof and the tree path,
  or the leaf hashes to the all-zero digest that stands for an empty leaf. The proof may claim
  any path bits: the leaf hash contains the key, so a foreign path does not help.
\<close>
theorem inclusion_proof_sound:
  assumes "smt_env_ok E" and "smt_inv E T V"
    and "StateTree_verify_proof E (st_root T) a (Some s) mproof"
    and "\<forall>h\<in>set (siblings mproof). length h = 32"
    and "leaf = leaf_hash (se_crypto E) (address_to_key (se_crypto E) a) (se_enc E s)"
    and "leaf \<noteq> replicate 32 0"
    and "inj_on (c_blake3 (se_crypto E))
       (proof_preimages (se_crypto E) (zip (path_bits mproof) (siblings mproof)) leaf \<union>
        tree_preimages (se_crypto E) V 0 (path_bits mproof) \<union>
        insert (address_to_key (se_crypto E) a @ se_enc E s) (leaf_preimages V (rev (path_bits mproof))))"
  shows "V (address_to_key (se_crypto E) a) = Some (se_enc E s) \<and>
     (\<exists>s'. StateTree_get E T a = Some s' \<and> acct_eq s s')"
proof -
  let ?C = "se_crypto E" and ?ps = "zip (path_bits mproof) (siblings mproof)"
  define k where "k = address_to_key ?C a"
  note C = smt_env_ok_crypto [OF assms(1)]
  have k: "length k = 32" unfolding k_def using C by simp
  have len: "length (siblings mproof) = TREE_DEPTH" "length (path_bits mproof) = TREE_DEPTH"
    and fold: "fold_proof ?C ?ps leaf = st_root T"
    using assms(3,5)
    by (simp_all add: StateTree_verify_proof_def Let_def AccountState_to_bytes_def split: if_splits)
  have fst_ps: "map fst ?ps = path_bits mproof" using len by simp
  have root: "fold_proof ?C ?ps leaf = subtree ?C V (0 + length ?ps) []"
    using fold assms(2) len by (simp add: smt_inv_def smt_root_def)
  have "leaf = subtree ?C V 0 (rev (map fst ?ps))"
  proof (rule fold_proof_sound [OF C root])
    show "length leaf = 32" using assms(5) C by simp
    show "\<forall>(b, s)\<in>set ?ps. length s = 32" using assms(4) by (auto dest: set_zip_rightD)
    show "inj_on (c_blake3 ?C) (proof_preimages ?C ?ps leaf \<union> tree_preimages ?C V 0 (map fst ?ps))"
      unfolding fst_ps by (rule inj_on_subset [OF assms(7)]) auto
  qed
  then have leaf: "leaf_hash ?C k (se_enc E s) = leaf_spec ?C V (rev (path_bits mproof))"
    using assms(5) fst_ps by (simp add: k_def)
  have "V k = Some (se_enc E s)"
    using leaf_sound [OF C k leaf] assms(5,6) inj_on_subset [OF assms(7)] by (auto simp: k_def)
  moreover obtain s' where "se_dec E (se_enc E s) = Some s'" "acct_eq s s'"
    using assms(1) unfolding smt_env_ok_def by blast
  ultimately show ?thesis
    using StateTree_get_value [OF assms(1,2)] by (simp add: k_def)
qed

text \<open>
  The dual statement fails. \<open>verify_proof\<close> takes the path from the proof and not from the key, and
  the leaf of an exclusion proof does not depend on the address, so the proof of absence of one
  address verifies as a proof of absence of every address, stored or not.
\<close>
lemma exclusion_proof_not_bound:
  assumes "smt_env_ok E" and "smt_inv E T V" and "V (address_to_key (se_crypto E) a) = None"
  shows "StateTree_verify_proof E (st_root T) b None (StateTree_get_proof E T a)"
  by (rule verify_get_proof [OF assms(1,2)]) (simp_all add: assms(3))

lemma exclusion_proof_for_stored_account:
  "StateTree_verify_proof demo_env (st_root demo_tree) ''alice'' None
     (StateTree_get_proof demo_env demo_tree ''bob'') \<and>
   demo_contents (address_to_key (se_crypto demo_env) ''alice'') \<noteq> None"
  using exclusion_proof_not_bound [OF demo_env_ok demo_tree_inv] demo_lookup by simp

text \<open>
  The collision hypotheses of the soundness theorem hold in the concrete environment: the hash
  of a node carries its level, so the inputs on a path are separated.
\<close>

lemma hash_tag_level_hash:
  "length x = 64 \<Longrightarrow> hash_tag x < 2 ^ 15 \<Longrightarrow> hash_tag (level_hash x) = hash_tag x + 1"
proof -
  assume "length x = 64" "hash_tag x < 2 ^ 15"
  then have "hash_tag (level_hash x) = le_nat (nat_le_bytes 2 (hash_tag x + 1))"
    by (simp add: hash_tag_def level_hash_def del: nat_le_bytes_numeral)
  also have "\<dots> = (hash_tag x + 1) mod 256 ^ 2" by (rule le_nat_le_bytes)
  finally show ?thesis using \<open>hash_tag x < 2 ^ 15\<close> by simp
qed

lemma hash_tag_append: "length a = 32 \<Longrightarrow> hash_tag (a @ b) = hash_tag a"
  by (simp add: hash_tag_def)

lemma demo_subtree_tag:
  assumes "\<And>k v. V k = Some v \<Longrightarrow> length k \<noteq> 32 \<or> length v \<noteq> 32"
  shows "l \<le> TREE_DEPTH \<Longrightarrow> hash_tag (subtree (se_crypto demo_env) V l bs) = l"
proof (induction l arbitrary: bs)
  case 0
  have z: "hash_tag (replicate 32 0) = 0" by (simp add: hash_tag_def numeral_2_eq_2)
  have "hash_tag (leaf_hash (se_crypto demo_env) k v) = 0" if "length k = 32" "V k = Some v" for k v
    using assms [OF that(2)] that(1)
    by (simp add: leaf_hash_def blake3_hash_def level_hash_def hash_tag_def)
  then show ?case
    using z
    by (cases "\<exists>k. length k = 32 \<and> key_bits k = bs \<and> V k \<noteq> None")
      (auto simp: leaf_spec_key, auto simp: leaf_spec_def)
next
  case (Suc l)
  let ?F = "subtree (se_crypto demo_env) V l (bs @ [False])"
  let ?T = "subtree (se_crypto demo_env) V l (bs @ [True])"
  have len: "length ?F = 32" "length ?T = 32"
    by (simp_all add: length_subtree smt_env_ok_crypto [OF demo_env_ok])
  then have "hash_tag (?F @ ?T) = l" using Suc by (simp add: hash_tag_append)
  then show ?case
    using len Suc.prems hash_tag_level_hash [of "?F @ ?T"]
    by (simp add: combine_hashes_def blake3_hash_def TREE_DEPTH_def)
qed

lemma demo_tree_preimages:
  assumes V: "\<And>k v. V k = Some v \<Longrightarrow> length k \<noteq> 32 \<or> length v \<noteq> 32"
  shows "m + length bs \<le> TREE_DEPTH \<Longrightarrow>
     inj_on level_hash (tree_preimages (se_crypto demo_env) V m bs) \<and>
     (\<forall>x\<in>tree_preimages (se_crypto demo_env) V m bs. m < hash_tag (level_hash x))"
proof (induction bs arbitrary: m)
  case Nil
  then show ?case by simp
next
  case (Cons b bs)
  let ?C = "se_crypto demo_env"
  let ?x = "subtree ?C V m (rev bs @ [False]) @ subtree ?C V m (rev bs @ [True])"
  have "level_hash ?x = subtree ?C V (Suc m) (rev bs)"
    by (simp add: combine_hashes_def blake3_hash_def)
  then have "hash_tag (level_hash ?x) = Suc m"
    using demo_subtree_tag [OF V, where l = "Suc m" and bs = "rev bs"] Cons.prems by simp
  moreover have "inj_on level_hash (tree_preimages ?C V (Suc m) bs)"
    "\<forall>y\<in>tree_preimages ?C V (Suc m) bs. Suc m < hash_tag (level_hash y)"
    using Cons.IH [of "Suc m"] Cons.prems by simp_all
  ultimately show ?case by (auto simp: inj_on_insert)
qed

lemma honest_path:
  "m \<le> TREE_DEPTH \<Longrightarrow> rev (map (bit_at_level k) [Suc m..<TREE_DEPTH + 1]) = path_to k m"
proof (induction "TREE_DEPTH - m" arbitrary: m)
  case 0
  then show ?case by simp
next
  case (Suc d)
  then have m: "m < TREE_DEPTH" by simp
  have upt: "[Suc m..<TREE_DEPTH + 1] = Suc m # [Suc (Suc m)..<TREE_DEPTH + 1]"
    using m by (simp add: upt_rec)
  have "rev (map (bit_at_level k) [Suc (Suc m)..<TREE_DEPTH + 1]) = path_to k (Suc m)"
    using Suc.hyps(1) [of "Suc m"] Suc.hyps(2) m by simp
  then show ?case unfolding upt path_to_step [OF m] by simp
qed

text \<open>An honest proof hashes exactly the inputs of the tree.\<close>

lemma honest_preimages:
  assumes "smt_nodes_inv E db V" and "length k = 32"
  shows "m \<le> TREE_DEPTH \<Longrightarrow>
     proof_preimages (se_crypto E) (zip (map (bit_at_level k) [Suc m..<TREE_DEPTH + 1])
        (map (sibling_hash E db k) [Suc m..<TREE_DEPTH + 1])) (subtree (se_crypto E) V m (path_to k m))
     = tree_preimages (se_crypto E) V m (map (bit_at_level k) [Suc m..<TREE_DEPTH + 1])"
proof (induction "TREE_DEPTH - m" arbitrary: m)
  case 0
  then show ?case by simp
next
  case (Suc d)
  then have m: "m < TREE_DEPTH" by simp
  let ?C = "se_crypto E" and ?b = "bit_at_level k (Suc m)"
  have upt: "[Suc m..<TREE_DEPTH + 1] = Suc m # [Suc (Suc m)..<TREE_DEPTH + 1]"
    using m by (simp add: upt_rec)
  have path: "rev (map (bit_at_level k) [Suc (Suc m)..<TREE_DEPTH + 1]) = path_to k (Suc m)"
    by (rule honest_path) (use m in simp)
  have step: "(if ?b then combine_hashes ?C (sibling_hash E db k (Suc m)) (subtree ?C V m (path_to k m))
      else combine_hashes ?C (subtree ?C V m (path_to k m)) (sibling_hash E db k (Suc m)))
    = subtree ?C V (Suc m) (path_to k (Suc m))"
    unfolding subtree_path_step Let_def sibling_hash_spec [OF assms m] path_to_step [OF m, of k] ..
  have pre: "(if ?b then sibling_hash E db k (Suc m) @ subtree ?C V m (path_to k m)
      else subtree ?C V m (path_to k m) @ sibling_hash E db k (Suc m))
    = subtree ?C V m (path_to k (Suc m) @ [False]) @ subtree ?C V m (path_to k (Suc m) @ [True])"
    unfolding sibling_hash_spec [OF assms m] path_to_step [OF m, of k] by simp
  have "proof_preimages ?C (zip (map (bit_at_level k) [Suc (Suc m)..<TREE_DEPTH + 1])
        (map (sibling_hash E db k) [Suc (Suc m)..<TREE_DEPTH + 1]))
        (subtree ?C V (Suc m) (path_to k (Suc m)))
     = tree_preimages ?C V (Suc m) (map (bit_at_level k) [Suc (Suc m)..<TREE_DEPTH + 1])"
    using Suc.hyps(1) [of "Suc m"] Suc.hyps(2) m by simp
  then show ?case
    unfolding upt by (simp only: list.map zip_Cons_Cons proof_preimages.simps tree_preimages.simps
        step pre path)
qed

theorem inclusion_proof_sound_witness:
  "StateTree_verify_proof demo_env (st_root demo_tree) ''alice'' (Some (AccountState_with_balance 100))
     (StateTree_get_proof demo_env demo_tree ''alice'') \<and>
   (\<exists>s'. StateTree_get demo_env demo_tree ''alice'' = Some s' \<and>
      acct_eq (AccountState_with_balance 100) s')"
proof -
  let ?C = "se_crypto demo_env" and ?s = "AccountState_with_balance 100"
  let ?mproof = "StateTree_get_proof demo_env demo_tree ''alice''"
  define k where "k = address_to_key ?C ''alice''"
  define leaf where "leaf = leaf_hash ?C k (se_enc demo_env ?s)"
  have k: "length k = 32" unfolding k_def using smt_env_ok_crypto [OF demo_env_ok] by simp
  have nodes: "smt_nodes_inv demo_env (st_db demo_tree) demo_contents"
    using demo_tree_inv by (simp add: smt_inv_def)
  have len: "length (demo_enc ?s) = 19"
    by (simp add: demo_enc_def AccountState_with_balance_def AccountState_default_def enc_list_def hm_new_def)
  have bits: "path_bits ?mproof = map (bit_at_level k) [Suc 0..<TREE_DEPTH + 1]"
    and sibs: "siblings ?mproof = map (sibling_hash demo_env (st_db demo_tree) k) [Suc 0..<TREE_DEPTH + 1]"
    by (simp_all add: StateTree_get_proof_def Let_def k_def del: upt_Suc)
  have sib_len: "\<forall>h\<in>set (siblings ?mproof). length h = 32"
  proof
    fix h assume "h \<in> set (siblings ?mproof)"
    then obtain l where "l < TREE_DEPTH" "h = sibling_hash demo_env (st_db demo_tree) k (Suc l)"
      unfolding sibs by (auto simp del: upt_Suc) (metis Suc_le_D Suc_le_lessD Suc_le_eq less_Suc_eq_le)
    then show "length h = 32"
      using sibling_hash_spec [OF nodes k] length_subtree [OF smt_env_ok_crypto [OF demo_env_ok]] by simp
  qed
  have V: "length k' \<noteq> 32 \<or> length v \<noteq> 32" if "demo_contents k' = Some v" for k' v
    using that len by (auto simp: demo_contents_def split: if_splits)
  have look: "demo_contents k = Some (se_enc demo_env ?s)"
    using demo_lookup(1) by (simp add: k_def)
  have leaf_eq: "leaf = subtree ?C demo_contents 0 (path_to k 0)"
    by (simp add: leaf_def leaf_spec_key [OF k] look)
  have path: "rev (path_bits ?mproof) = key_bits k"
    unfolding bits using honest_path [of 0 k] by simp
  have ppre: "proof_preimages ?C (zip (path_bits ?mproof) (siblings ?mproof)) leaf
      = tree_preimages ?C demo_contents 0 (path_bits ?mproof)"
    unfolding bits sibs leaf_eq by (rule honest_preimages [OF nodes k]) simp
  have lpre: "leaf_preimages demo_contents (key_bits k) = {k @ se_enc demo_env ?s}"
    using k look by (auto simp: leaf_preimages_def key_bits_inj)
  have tag0: "hash_tag (level_hash (k @ se_enc demo_env ?s)) = 0"
    using k len by (simp add: level_hash_def hash_tag_def demo_env_def)
  have tpre: "inj_on level_hash (tree_preimages ?C demo_contents 0 (path_bits ?mproof)) \<and>
      (\<forall>x\<in>tree_preimages ?C demo_contents 0 (path_bits ?mproof). 0 < hash_tag (level_hash x))"
    by (rule demo_tree_preimages [OF V]) (simp_all add: bits)
  have inj: "inj_on (c_blake3 ?C)
       (proof_preimages ?C (zip (path_bits ?mproof) (siblings ?mproof)) leaf \<union>
        tree_preimages ?C demo_contents 0 (path_bits ?mproof) \<union>
        insert (k @ se_enc demo_env ?s) (leaf_preimages demo_contents (rev (path_bits ?mproof))))"
    using tpre tag0 unfolding ppre path lpre by (auto simp: inj_on_insert)
  have "leaf ! 4 = 97"
    using k len by (simp add: leaf_def leaf_hash_def blake3_hash_def level_hash_def k_def
        address_to_key_def as_bytes_def demo_env_def)
  then have nz: "leaf \<noteq> replicate 32 0" by auto
  have ver: "StateTree_verify_proof demo_env (st_root demo_tree) ''alice'' (Some ?s) ?mproof"
    by (rule verify_get_proof [OF demo_env_ok demo_tree_inv demo_lookup(1)]) simp
  from inclusion_proof_sound [OF demo_env_ok demo_tree_inv ver sib_len leaf_def [unfolded k_def] nz
      inj [unfolded k_def]] ver
  show ?thesis by blast
qed

section \<open>Transfers\<close>

text \<open>
  C9. The outcomes of \<open>apply_transfer\<close>: a frozen sender and an insufficient balance are reported and
  leave the tree as it was; otherwise the transfer succeeds, keeps the tree invariant, moves the
  amount in 64-bit arithmetic, adds one to the sender's nonce, and changes nothing else (also when
  sender and receiver share a key).
\<close>
theorem apply_transfer_outcomes:
  assumes "smt_env_ok E" and "smt_inv E T V"
  shows "let acct = acct_at (StateTree_get E); x = acct T sender; key = address_to_key (se_crypto E) in
     if acct_frozen x then apply_transfer E T sender receiver amount = Some (T, Err (AccountFrozen sender))
     else if acct_balance x < amount
     then apply_transfer E T sender receiver amount
        = Some (T, Err (InsufficientBalance (acct_balance x) amount))
     else \<exists>T' V'. apply_transfer E T sender receiver amount = Some (T', Ok ()) \<and> smt_inv E T' V' \<and>
       (\<forall>b. acct_balance (acct T' b) = acct_balance (acct T b)
               - (if key b = key sender then amount else 0)
               + (if key b = key receiver then amount else 0) \<and>
            acct_nonce (acct T' b) = acct_nonce (acct T b) + (if key b = key sender then 1 else 0) \<and>
            acct_frozen (acct T' b) = acct_frozen (acct T b))"
proof -
  have "\<exists>V. smt_inv E T V" using assms(2) by blast
  from smt.transfer_ok [OF assms(1) this, of sender amount receiver]
    smt.transfer_frozen [of E T sender receiver amount]
    smt.transfer_insufficient [of E T sender amount receiver]
  show ?thesis unfolding apply_transfer_def Let_def by (auto simp: not_less)
qed

lemma demo_alice: "\<exists>x. StateTree_get demo_env demo_tree ''alice'' = Some x \<and>
    acct_eq (AccountState_with_balance 100) x"
  using StateTree_get_value [OF demo_env_ok demo_tree_inv, of "''alice''"] demo_lookup(1)
  by (simp add: demo_env_def demo_codec acct_eq_def)

lemma demo_alice_fields:
  "\<not> acct_frozen (acct_at (StateTree_get demo_env) demo_tree ''alice'')"
  "acct_balance (acct_at (StateTree_get demo_env) demo_tree ''alice'') = 100"
  "acct_balance (acct_at (StateTree_get demo_env) demo_tree ''bob'') = 0"
  using demo_alice StateTree_get_value [OF demo_env_ok demo_tree_inv, of "''bob''"] demo_lookup(2)
  by (auto simp: acct_at_def acct_eq_def AccountState_with_balance_def AccountState_default_def)

theorem apply_transfer_outcomes_witness:
  "\<exists>T'. apply_transfer demo_env demo_tree ''alice'' ''bob'' 30 = Some (T', Ok ()) \<and>
     acct_balance (acct_at (StateTree_get demo_env) T' ''alice'') = 70 \<and>
     acct_balance (acct_at (StateTree_get demo_env) T' ''bob'') = 30"
  using apply_transfer_outcomes [OF demo_env_ok demo_tree_inv, of "''alice''" "''bob''" 30]
    demo_alice_fields demo_keys
  by (auto simp: Let_def)

fun transfers :: "'t smt_env \<Rightarrow> 't StateTree \<Rightarrow> (string \<times> string \<times> u64) list \<Rightarrow> 't StateTree option" where
  "transfers E T [] = Some T"
| "transfers E T ((s, r, n) # xs) =
     (case apply_transfer E T s r n of None \<Rightarrow> None | Some (T', _) \<Rightarrow> transfers E T' xs)"

text \<open>
  C10. Conservation of value: a sequence of transfers, failed ones included, never panics and keeps the
  sum of the balances of every finite set of addresses with distinct keys that contains all
  senders and receivers, provided that sum fits in 64 bits.
\<close>
theorem transfers_conserve_total:
  assumes "smt_env_ok E" and "smt_inv E T V" and "finite A"
    and "inj_on (address_to_key (se_crypto E)) A"
    and "\<forall>(s, r, n)\<in>set xs. s \<in> A \<and> r \<in> A"
    and "(\<Sum>a\<in>A. unat (acct_balance (acct_at (StateTree_get E) T a))) < 2 ^ 64"
  shows "\<exists>T'. transfers E T xs = Some T' \<and>
     (\<Sum>a\<in>A. unat (acct_balance (acct_at (StateTree_get E) T' a)))
       = (\<Sum>a\<in>A. unat (acct_balance (acct_at (StateTree_get E) T a)))"
  using assms(2,5,6)
proof (induction xs arbitrary: T V)
  case Nil
  then show ?case by simp
next
  case (Cons p xs)
  obtain s r n where p: "p = (s, r, n)" by (metis prod_cases3)
  have "\<exists>V. smt_inv E T V" and "s \<in> A" "r \<in> A" using Cons.prems p by auto
  from smt.transfer_conserves [OF assms(1) this(1) assms(3) this(2,3) assms(4), of n] Cons.prems(3)
  obtain T' V' res where t: "apply_transfer E T s r n = Some (T', res)" and inv: "smt_inv E T' V'"
    and tot: "smt.total E T' A = smt.total E T A"
    by (auto simp: smt.total_def apply_transfer_def)
  from Cons.IH [OF inv] Cons.prems(2,3) tot show ?case
    by (simp add: p t smt.total_def)
qed

theorem transfers_conserve_total_witness:
  "\<exists>T'. transfers demo_env demo_tree [(''alice'', ''bob'', 30), (''bob'', ''alice'', 90)] = Some T' \<and>
     (\<Sum>a\<in>{''alice'', ''bob''}. unat (acct_balance (acct_at (StateTree_get demo_env) T' a))) = 100"
proof -
  have "inj_on (address_to_key (se_crypto demo_env)) {''alice'', ''bob''}"
    using demo_keys by (auto simp: inj_on_def)
  from transfers_conserve_total [OF demo_env_ok demo_tree_inv _ this,
      of "[(''alice'', ''bob'', 30), (''bob'', ''alice'', 90)]"]
  show ?thesis by (simp add: demo_alice_fields)
qed

text \<open>
  The nonce does not guard against replay: a transfer that succeeded succeeds again unchanged
  whenever the balance allows it.
\<close>
lemma transfer_replays:
  assumes "smt_env_ok E" and "smt_inv E T V"
    and "address_to_key (se_crypto E) sender \<noteq> address_to_key (se_crypto E) receiver"
    and "\<not> acct_frozen (acct_at (StateTree_get E) T sender)"
    and "2 * unat amount \<le> unat (acct_balance (acct_at (StateTree_get E) T sender))"
  shows "\<exists>T1 T2. apply_transfer E T sender receiver amount = Some (T1, Ok ()) \<and>
     apply_transfer E T1 sender receiver amount = Some (T2, Ok ())"
proof -
  have inv: "\<exists>V. smt_inv E T V" using assms(2) by blast
  have le: "amount \<le> acct_balance (acct_at (StateTree_get E) T sender)"
    using assms(5) by (simp add: word_le_nat_alt)
  from smt.transfer_ok [OF assms(1) inv assms(4) le, of receiver] assms(3)
  obtain T1 V1 where t1: "apply_transfer E T sender receiver amount = Some (T1, Ok ())"
    and inv1: "smt_inv E T1 V1"
    and bal: "acct_balance (acct_at (StateTree_get E) T1 sender)
        = acct_balance (acct_at (StateTree_get E) T sender) - amount"
    and fr: "\<not> acct_frozen (acct_at (StateTree_get E) T1 sender)"
    using assms(4) by (auto simp: apply_transfer_def)
  have "amount \<le> acct_balance (acct_at (StateTree_get E) T1 sender)"
    using assms(5) le by (simp add: bal word_le_nat_alt unat_minus_le)
  from smt.transfer_ok [OF assms(1) _ fr this, of receiver] inv1 t1 show ?thesis
    by (auto simp: apply_transfer_def)
qed

end
