(* ===== verification/Blocks.thy ===== *)
theory Blocks
  imports Transactions
begin

text \<open>
  Blocks, \<open>protocol/src/storage/block.rs\<close>: header hash, transaction Merkle root, genesis, new blocks
  and \<open>Block::verify\<close>. The JSON serialiser of \<open>serde_json\<close> is an argument (\<open>json\<close>); its error case
  falls back to no bytes, as in the source. The lemmas show what a block hash binds, and that the
  Merkle root binds a transaction list of known length only.
\<close>

section \<open>Types\<close>

record BlockHeader =
  bh_height :: u64
  bh_hash :: bytes
  bh_parent_hash :: bytes
  bh_timestamp :: u64
  bh_validator :: string
  bh_state_root :: bytes
  bh_tx_root :: bytes
  bh_signature :: bytes

record Block =
  blk_header :: BlockHeader
  blk_transactions :: "Transaction list"

type_synonym tx_json = "Transaction \<Rightarrow> (bytes, string) result"

definition GENESIS_COINBASE_MESSAGE :: bytes where
  "GENESIS_COINBASE_MESSAGE = as_bytes ''ALAS/2026: The future of payments belongs to everyone''"

definition BlockHeader_hash_hex :: "crypto \<Rightarrow> BlockHeader \<Rightarrow> string" where
  "BlockHeader_hash_hex C h = c_hex_encode C (bh_hash h)"

definition BlockHeader_parent_hash_hex :: "crypto \<Rightarrow> BlockHeader \<Rightarrow> string" where
  "BlockHeader_parent_hash_hex C h = c_hex_encode C (bh_parent_hash h)"

section \<open>Header hash and Merkle root\<close>

definition header_preimage :: "u64 \<Rightarrow> bytes \<Rightarrow> u64 \<Rightarrow> string \<Rightarrow> bytes \<Rightarrow> bytes \<Rightarrow> bytes" where
  "header_preimage height parent_hash timestamp validator state_root tx_root =
     u64_to_le_bytes height @ parent_hash @ u64_to_le_bytes timestamp @ as_bytes validator @
     state_root @ tx_root"

definition compute_header_hash ::
  "crypto \<Rightarrow> u64 \<Rightarrow> bytes \<Rightarrow> u64 \<Rightarrow> string \<Rightarrow> bytes \<Rightarrow> bytes \<Rightarrow> bytes" where
  "compute_header_hash C height parent_hash timestamp validator state_root tx_root =
     blake3_hash C (header_preimage height parent_hash timestamp validator state_root tx_root)"

definition tx_leaf :: "crypto \<Rightarrow> tx_json \<Rightarrow> Transaction \<Rightarrow> bytes" where
  "tx_leaf C json tx = blake3_hash C (case json tx of Ok b \<Rightarrow> b | Err _ \<Rightarrow> [])"

text \<open>One round of the loop: pairs are hashed together, an odd last element with itself.\<close>

fun pair_level :: "crypto \<Rightarrow> bytes list \<Rightarrow> bytes list" where
  "pair_level C (l # r # rest) = blake3_hash C (l @ r) # pair_level C rest"
| "pair_level C [l] = [blake3_hash C (l @ l)]"
| "pair_level C [] = []"

lemma length_pair_level: "length (pair_level C xs) = (length xs + 1) div 2"
  by (induction C xs rule: pair_level.induct) auto

lemma pair_level_Nil_iff [simp]: "pair_level C xs = [] \<longleftrightarrow> xs = []"
  by (cases "(C, xs)" rule: pair_level.cases) auto

function pair_loop :: "crypto \<Rightarrow> bytes list \<Rightarrow> bytes" where
  "pair_loop C hashes = (if length hashes > 1 then pair_loop C (pair_level C hashes) else hashes ! 0)"
  by auto
termination
  by (relation "measure (\<lambda>(C, hashes). length hashes)") (auto simp: length_pair_level)

declare pair_loop.simps [simp del]

definition compute_merkle_root :: "crypto \<Rightarrow> tx_json \<Rightarrow> Transaction list \<Rightarrow> bytes" where
  "compute_merkle_root C json transactions =
     (if transactions = [] then replicate 32 0
      else pair_loop C (map (tx_leaf C json) transactions))"

section \<open>Blocks\<close>

definition genesis_validator :: string where
  "genesis_validator = ''nova:0000000000000000000000000000000000000000000000000000000000000000''"

definition Block_genesis :: "crypto \<Rightarrow> Block" where
  "Block_genesis C =
     (let timestamp = 0; state_root = blake3_hash C GENESIS_COINBASE_MESSAGE; tx_root = replicate 32 0;
          hash = compute_header_hash C 0 (replicate 32 0) timestamp genesis_validator state_root tx_root
      in \<lparr>blk_header = \<lparr>bh_height = 0, bh_hash = hash, bh_parent_hash = replicate 32 0,
             bh_timestamp = timestamp, bh_validator = genesis_validator, bh_state_root = state_root,
             bh_tx_root = tx_root, bh_signature = []\<rparr>,
          blk_transactions = []\<rparr>)"

definition Block_new ::
  "crypto \<Rightarrow> tx_json \<Rightarrow> u64 \<Rightarrow> Block \<Rightarrow> Transaction list \<Rightarrow> string \<Rightarrow> bytes \<Rightarrow> Block" where
  "Block_new C json now parent transactions validator state_root =
     (let height = bh_height (blk_header parent) + 1;
          parent_hash = bh_hash (blk_header parent);
          timestamp = now;
          tx_root = compute_merkle_root C json transactions;
          hash = compute_header_hash C height parent_hash timestamp validator state_root tx_root
      in \<lparr>blk_header = \<lparr>bh_height = height, bh_hash = hash, bh_parent_hash = parent_hash,
             bh_timestamp = timestamp, bh_validator = validator, bh_state_root = state_root,
             bh_tx_root = tx_root, bh_signature = []\<rparr>,
          blk_transactions = transactions\<rparr>)"

definition Block_compute_hash :: "crypto \<Rightarrow> Block \<Rightarrow> bytes" where
  "Block_compute_hash C b =
     compute_header_hash C (bh_height (blk_header b)) (bh_parent_hash (blk_header b))
       (bh_timestamp (blk_header b)) (bh_validator (blk_header b)) (bh_state_root (blk_header b))
       (bh_tx_root (blk_header b))"

definition Block_verify :: "crypto \<Rightarrow> tx_json \<Rightarrow> Block \<Rightarrow> (unit, string) result" where
  "Block_verify C json b =
     (let expected_hash = Block_compute_hash C b in
      if bh_hash (blk_header b) \<noteq> expected_hash
      then Err (''block '' @ show_nat (unat (bh_height (blk_header b))) @ '' hash mismatch: stored='' @
                c_hex_encode C (bh_hash (blk_header b)) @ '', computed='' @ c_hex_encode C expected_hash)
      else
        let expected_tx_root = compute_merkle_root C json (blk_transactions b) in
        if bh_tx_root (blk_header b) \<noteq> expected_tx_root
        then Err (''block '' @ show_nat (unat (bh_height (blk_header b))) @ '' tx_root mismatch: stored='' @
                  c_hex_encode C (bh_tx_root (blk_header b)) @ '', computed='' @
                  c_hex_encode C expected_tx_root)
        else if bh_height (blk_header b) = 0 \<and> bh_parent_hash (blk_header b) \<noteq> replicate 32 0
        then Err ''genesis block must have zeroed parent_hash''
        else Ok ())"

definition Block_height :: "Block \<Rightarrow> u64" where
  "Block_height b = bh_height (blk_header b)"

definition Block_tx_count :: "Block \<Rightarrow> nat" where
  "Block_tx_count b = length (blk_transactions b)"

definition Block_hash_hex :: "crypto \<Rightarrow> Block \<Rightarrow> string" where
  "Block_hash_hex C b = c_hex_encode C (bh_hash (blk_header b))"

section \<open>The in-memory chain (storage/chain.rs)\<close>

record Chain =
  ch_blocks :: "Block list"

definition Chain_append :: "Chain \<Rightarrow> Block \<Rightarrow> Chain" where
  "Chain_append c block = c\<lparr>ch_blocks := ch_blocks c @ [block]\<rparr>"

definition Chain_tip :: "Chain \<Rightarrow> Block option" where
  "Chain_tip c = (if ch_blocks c = [] then None else Some (last (ch_blocks c)))"

definition Chain_height :: "Chain \<Rightarrow> u64" where
  "Chain_height c = word_of_nat (length (ch_blocks c))"

lemma Chain_append_tip:
  "Chain_tip (Chain_append c b) = Some b" "Chain_height (Chain_append c b) = Chain_height c + 1"
  by (simp_all add: Chain_append_def Chain_tip_def Chain_height_def)

section \<open>Merkle roots\<close>

lemma Block_verify_iff:
  "Block_verify C json b = Ok () \<longleftrightarrow>
     bh_hash (blk_header b) = Block_compute_hash C b \<and>
     bh_tx_root (blk_header b) = compute_merkle_root C json (blk_transactions b) \<and>
     (bh_height (blk_header b) = 0 \<longrightarrow> bh_parent_hash (blk_header b) = replicate 32 0)"
  by (auto simp: Block_verify_def Let_def)

lemma pair_level_eq: "pair_level C xs = merkle_next_level C xs"
  by (induction C xs rule: pair_level.induct) (auto simp: blake3_hash_def blake3_hash_multi_def)

lemma pair_loop_eq: "xs \<noteq> [] \<Longrightarrow> pair_loop C xs = merkle_loop C xs"
proof (induction C xs rule: pair_loop.induct)
  case (1 C xs)
  then show ?case
    by (cases "length xs > 1")
      (simp_all add: pair_loop.simps [of C xs] merkle_loop.simps [of C xs] hd_conv_nth
        flip: pair_level_eq)
qed

text \<open>The inputs of the hash function in the tree over a list of leaves.\<close>

fun pair_inputs :: "bytes list \<Rightarrow> bytes list" where
  "pair_inputs (l # r # rest) = (l @ r) # pair_inputs rest"
| "pair_inputs [l] = [l @ l]"
| "pair_inputs [] = []"

function tree_inputs :: "crypto \<Rightarrow> bytes list \<Rightarrow> bytes list" where
  "tree_inputs C hashes =
     (if length hashes > 1 then pair_inputs hashes @ tree_inputs C (pair_level C hashes) else [])"
  by auto
termination
  by (relation "measure (\<lambda>(C, hashes). length hashes)") (auto simp: length_pair_level)

declare tree_inputs.simps [simp del]

definition root_inputs :: "crypto \<Rightarrow> tx_json \<Rightarrow> Transaction list \<Rightarrow> bytes list" where
  "root_inputs C json txs =
     map (\<lambda>tx. case json tx of Ok b \<Rightarrow> b | Err _ \<Rightarrow> []) txs @ tree_inputs C (map (tx_leaf C json) txs)"

lemma pair_level_inj:
  assumes "pair_level C xs = pair_level C ys" and "length xs = length ys"
    and "\<forall>x\<in>set xs \<union> set ys. length x = 32"
    and "inj_on (c_blake3 C) (set (pair_inputs xs) \<union> set (pair_inputs ys))"
  shows "xs = ys"
  using assms
proof (induction C xs arbitrary: ys rule: pair_level.induct)
  case (1 C l r rest)
  from 1(3) obtain l' r' rest' where ys: "ys = l' # r' # rest'" by (cases ys; cases "tl ys") auto
  have h: "c_blake3 C (l @ r) = c_blake3 C (l' @ r')" and rest: "pair_level C rest = pair_level C rest'"
    using 1(2) by (simp_all add: ys blake3_hash_def)
  have "l @ r = l' @ r'" using h by (rule inj_onD [OF 1(5)]) (simp_all add: ys)
  moreover have "inj_on (c_blake3 C) (set (pair_inputs rest) \<union> set (pair_inputs rest'))"
    using 1(5) by (rule inj_on_subset) (simp add: ys, blast)
  then have "rest = rest'" using 1(3,4) by (intro 1(1) [OF rest]) (simp_all add: ys)
  ultimately show ?case using 1(4) by (simp add: ys)
next
  case (2 C l)
  from 2(2) obtain l' where ys: "ys = [l']" by (cases ys) auto
  have "l @ l = l' @ l'" by (rule inj_onD [OF 2(4)]) (use 2(1) in \<open>simp_all add: ys blake3_hash_def\<close>)
  then show ?case using 2(3) by (simp add: ys)
next
  case (3 C)
  then show ?case by simp
qed

lemma length_in_pair_level: "crypto_ok C \<Longrightarrow> x \<in> set (pair_level C xs) \<Longrightarrow> length x = 32"
  by (induction C xs rule: pair_level.induct) (auto simp: blake3_hash_def crypto_okD)

lemma pair_loop_inj:
  assumes "crypto_ok C" "pair_loop C xs = pair_loop C ys" and "length xs = length ys" and "xs \<noteq> []"
    and "\<forall>x\<in>set xs \<union> set ys. length x = 32"
    and "inj_on (c_blake3 C) (set (tree_inputs C xs) \<union> set (tree_inputs C ys))"
  shows "xs = ys"
  using assms
proof (induction C xs arbitrary: ys rule: pair_loop.induct)
  case (1 C xs)
  show ?case
  proof (cases "length xs > 1")
    case True
    have inputs: "set (tree_inputs C zs) = set (pair_inputs zs) \<union> set (tree_inputs C (pair_level C zs))"
      if "length zs = length xs" for zs
      using True that by (simp add: tree_inputs.simps [of C zs])
    have sub: "inj_on (c_blake3 C) (set (tree_inputs C (pair_level C xs)) \<union> set (tree_inputs C (pair_level C ys)))"
      "inj_on (c_blake3 C) (set (pair_inputs xs) \<union> set (pair_inputs ys))"
      using 1(7) 1(4) inputs [of xs] inputs [of ys] by (auto intro: inj_on_subset)
    have "pair_level C xs = pair_level C ys"
      using True 1(2-5) sub(1) length_in_pair_level [OF 1(2)]
      by (intro 1(1)) (auto simp: pair_loop.simps [of C xs] pair_loop.simps [of C ys] length_pair_level)
    from pair_level_inj [OF this 1(4,6) sub(2)] show ?thesis .
  next
    case False
    then obtain x y where "xs = [x]" "ys = [y]"
      using 1(4,5) by (cases xs; cases ys; cases "tl xs"; cases "tl ys") auto
    then show ?thesis using 1(3) by (simp add: pair_loop.simps)
  qed
qed

lemma merkle_root_inj:
  assumes C: "crypto_ok C" and eq: "compute_merkle_root C json txs = compute_merkle_root C json txs'"
    and len: "length txs = length txs'"
    and inj: "inj_on (c_blake3 C) (set (root_inputs C json txs) \<union> set (root_inputs C json txs'))"
  shows "map (\<lambda>tx. case json tx of Ok b \<Rightarrow> b | Err _ \<Rightarrow> []) txs = map (\<lambda>tx. case json tx of Ok b \<Rightarrow> b | Err _ \<Rightarrow> []) txs'"
proof (cases "txs = []")
  case True
  then show ?thesis using len by simp
next
  case False
  let ?b = "\<lambda>tx. case json tx of Ok b \<Rightarrow> b | Err _ \<Rightarrow> []"
  have "txs' \<noteq> []" using False len by auto
  then have "pair_loop C (map (tx_leaf C json) txs) = pair_loop C (map (tx_leaf C json) txs')"
    using eq False by (simp add: compute_merkle_root_def)
  moreover have "inj_on (c_blake3 C) (set (tree_inputs C (map (tx_leaf C json) txs)) \<union>
      set (tree_inputs C (map (tx_leaf C json) txs')))"
    using inj by (rule inj_on_subset) (auto simp: root_inputs_def)
  ultimately have "map (tx_leaf C json) txs = map (tx_leaf C json) txs'"
    using C len False by (intro pair_loop_inj) (auto simp: tx_leaf_def blake3_hash_def crypto_okD)
  then have "map (c_blake3 C) (map ?b txs) = map (c_blake3 C) (map ?b txs')"
    unfolding tx_leaf_def blake3_hash_def by (simp add: comp_def)
  moreover have "inj_on (c_blake3 C) (set (map ?b txs) \<union> set (map ?b txs'))"
    using inj by (rule inj_on_subset) (auto simp: root_inputs_def)
  ultimately show ?thesis by (rule map_inj_on)
qed

text \<open>An odd list and the list with its last element repeated have the same parent level.\<close>

lemma pair_level_dup: "odd (length xs) \<Longrightarrow> pair_level C (xs @ [last xs]) = pair_level C xs"
  by (induction C xs rule: pair_level.induct) auto

lemma merkle_root_dup:
  assumes "odd (length txs)" and "1 < length txs"
  shows "compute_merkle_root C json (txs @ [last txs]) = compute_merkle_root C json txs"
proof -
  let ?h = "map (tx_leaf C json) txs"
  have ne: "txs \<noteq> []" using assms by auto
  have "pair_level C (?h @ [last ?h]) = pair_level C ?h" using assms by (intro pair_level_dup) simp
  then have "pair_loop C (?h @ [last ?h]) = pair_loop C ?h"
    using assms ne by (simp add: pair_loop.simps [of C "?h @ [last ?h]"] pair_loop.simps [of C ?h])
  then show ?thesis using ne by (simp add: compute_merkle_root_def last_map)
qed

lemma verify_accepts_duplicated_tail:
  assumes "Block_verify C json b = Ok ()" and "odd (length (blk_transactions b))"
    and "1 < length (blk_transactions b)"
  shows "Block_verify C json (b\<lparr>blk_transactions := blk_transactions b @ [last (blk_transactions b)]\<rparr>) = Ok ()"
  using assms by (simp add: Block_verify_iff merkle_root_dup Block_compute_hash_def)

section \<open>What the hash binds\<close>

definition header_ok :: "BlockHeader \<Rightarrow> bool" where
  "header_ok h \<longleftrightarrow> length (bh_hash h) = 32 \<and> length (bh_parent_hash h) = 32 \<and>
     length (bh_state_root h) = 32 \<and> length (bh_tx_root h) = 32"

definition header_input :: "BlockHeader \<Rightarrow> bytes" where
  "header_input h = header_preimage (bh_height h) (bh_parent_hash h) (bh_timestamp h) (bh_validator h)
     (bh_state_root h) (bh_tx_root h)"

lemma Block_compute_hash_eq: "Block_compute_hash C b = c_blake3 C (header_input (blk_header b))"
  by (simp add: Block_compute_hash_def compute_header_hash_def header_input_def blake3_hash_def)

lemma header_preimage_inj:
  assumes "header_preimage h p t v s r = header_preimage h' p' t' v' s' r'"
    and "length p = 32" "length p' = 32" "length s = 32" "length s' = 32" "length r = 32" "length r' = 32"
  shows "h = h' \<and> p = p' \<and> t = t' \<and> v = v' \<and> s = s' \<and> r = r'"
proof -
  have len: "length v = length v'"
    using arg_cong [OF assms(1), of length] assms(2-7) by (simp add: header_preimage_def)
  show ?thesis
    using assms(1) unfolding header_preimage_def
    by (simp add: append_eq_same_length assms(2-7) len)
qed

lemma header_input_inj:
  assumes "header_input h = header_input h'" and "header_ok h" "header_ok h'" and "bh_hash h = bh_hash h'"
  shows "h' = h\<lparr>bh_signature := bh_signature h'\<rparr>"
proof -
  have "bh_height h = bh_height h' \<and> bh_parent_hash h = bh_parent_hash h' \<and>
      bh_timestamp h = bh_timestamp h' \<and> bh_validator h = bh_validator h' \<and>
      bh_state_root h = bh_state_root h' \<and> bh_tx_root h = bh_tx_root h'"
    using assms(2,3) unfolding header_ok_def
    by (intro header_preimage_inj [OF assms(1) [unfolded header_input_def]]) simp_all
  then show ?thesis using assms(4) by simp
qed

lemma verified_hash_binds:
  assumes "Block_verify C json b = Ok ()" "Block_verify C json b' = Ok ()"
    and "bh_hash (blk_header b) = bh_hash (blk_header b')"
    and "header_ok (blk_header b)" "header_ok (blk_header b')"
    and "inj_on (c_blake3 C) {header_input (blk_header b), header_input (blk_header b')}"
  shows "blk_header b' = (blk_header b)\<lparr>bh_signature := bh_signature (blk_header b')\<rparr>"
proof -
  have "bh_hash (blk_header b) = c_blake3 C (header_input (blk_header b))"
    using assms(1) by (simp only: Block_verify_iff Block_compute_hash_eq)
  moreover have "bh_hash (blk_header b') = c_blake3 C (header_input (blk_header b'))"
    using assms(2) by (simp only: Block_verify_iff Block_compute_hash_eq)
  ultimately have "c_blake3 C (header_input (blk_header b)) = c_blake3 C (header_input (blk_header b'))"
    using assms(3) by argo
  then have "header_input (blk_header b) = header_input (blk_header b')"
    by (rule inj_onD [OF assms(6)]) simp_all
  from header_input_inj [OF this assms(4,5,3)] show ?thesis .
qed

lemma new_block_verifies:
  assumes "unat (bh_height (blk_header parent)) < 2 ^ 64 - 1"
  shows "Block_verify C json (Block_new C json now parent txs validator state_root) = Ok ()"
proof -
  have "unat (bh_height (blk_header parent) + 1) = unat (bh_height (blk_header parent)) + 1"
    using assms by (simp add: unat_plus_no_overflow)
  then have "bh_height (blk_header parent) + 1 \<noteq> 0" by (metis Suc_eq_plus1 nat.distinct(1) unat_0)
  then show ?thesis by (simp add: Block_verify_iff Block_new_def Block_compute_hash_def Let_def)
qed

section \<open>Properties\<close>

text \<open>
  C15. A block hash commits to the block: two verified blocks with the same hash and the same number of
  transactions have the same header, up to the signature, and the same transactions, unless BLAKE3
  collides on the inputs hashed for these two blocks or the serialiser confuses two of their
  transactions.
\<close>
theorem block_hash_binds:
  assumes "crypto_ok C" and "Block_verify C json b = Ok ()" "Block_verify C json b' = Ok ()"
    and "bh_hash (blk_header b) = bh_hash (blk_header b')"
    and "Block_tx_count b = Block_tx_count b'"
    and "header_ok (blk_header b)" "header_ok (blk_header b')"
    and "inj_on (c_blake3 C) {header_input (blk_header b), header_input (blk_header b')}"
    and "inj_on (c_blake3 C) (set (root_inputs C json (blk_transactions b)) \<union>
           set (root_inputs C json (blk_transactions b')))"
    and "inj_on (\<lambda>tx. case json tx of Ok x \<Rightarrow> x | Err _ \<Rightarrow> [])
           (set (blk_transactions b) \<union> set (blk_transactions b'))"
  shows "blk_header b' = (blk_header b)\<lparr>bh_signature := bh_signature (blk_header b')\<rparr> \<and>
    blk_transactions b' = blk_transactions b"
proof
  show hdr: "blk_header b' = (blk_header b)\<lparr>bh_signature := bh_signature (blk_header b')\<rparr>"
    by (rule verified_hash_binds [OF assms(2-4,6-8)])
  then have "bh_tx_root (blk_header b') = bh_tx_root (blk_header b)"
    by (metis BlockHeader.select_convs(7) BlockHeader.surjective BlockHeader.update_convs(8))
  then have "compute_merkle_root C json (blk_transactions b) = compute_merkle_root C json (blk_transactions b')"
    using assms(2,3) unfolding Block_verify_iff by argo
  from merkle_root_inj [OF assms(1) this assms(5) [unfolded Block_tx_count_def] assms(9)]
  have "blk_transactions b = blk_transactions b'" using assms(10) by (rule map_inj_on)
  then show "blk_transactions b' = blk_transactions b" by (rule sym)
qed

text \<open>
  What the node builds, it accepts: the genesis block and every block made by \<open>Block::new\<close> pass
  \<open>Block::verify\<close>, as long as the height of the parent is below the largest 64-bit number; the new
  block is linked to its parent and one higher.
\<close>
lemma built_blocks_verify:
  assumes "unat (bh_height (blk_header parent)) < 2 ^ 64 - 1"
  shows "Block_verify C json (Block_genesis C) = Ok () \<and>
    (let b = Block_new C json now parent txs validator state_root in
       Block_verify C json b = Ok () \<and>
       bh_parent_hash (blk_header b) = bh_hash (blk_header parent) \<and>
       unat (bh_height (blk_header b)) = unat (bh_height (blk_header parent)) + 1)"
  using new_block_verifies [OF assms] unat_plus_no_overflow [of "bh_height (blk_header parent)" 1] assms
  by (simp add: Block_verify_iff [of C json "Block_genesis C"] Let_def)
    (simp add: Block_new_def Block_genesis_def Block_compute_hash_def compute_merkle_root_def Let_def)


section \<open>Witnesses\<close>

definition demo_json :: tx_json where
  "demo_json tx = Ok (as_bytes (tx_id tx))"

definition demo_block :: Block where
  "demo_block = Block_new demo_crypto demo_json 7 (Block_genesis demo_crypto) [demo_tx] ''v'' (replicate 32 1)"

lemma genesis_height: "bh_height (blk_header (Block_genesis C)) = 0"
  by (simp add: Block_genesis_def Let_def)

lemma Block_verify_signature:
  "Block_verify C json (b\<lparr>blk_header := (blk_header b)\<lparr>bh_signature := s\<rparr>\<rparr>) = Block_verify C json b"
  by (simp add: Block_verify_def Block_compute_hash_def Let_def)

lemma demo_block_ok: "header_ok (blk_header demo_block)"
  by (simp add: demo_block_def Block_new_def Block_genesis_def header_ok_def Let_def
      compute_header_hash_def compute_merkle_root_def pair_loop.simps tx_leaf_def blake3_hash_def
      crypto_okD [OF demo_crypto_ok])

lemma demo_block_transactions: "blk_transactions demo_block = [demo_tx]"
  by (simp add: demo_block_def Block_new_def Let_def)

theorem block_hash_binds_witness:
  "let b' = demo_block\<lparr>blk_header := (blk_header demo_block)\<lparr>bh_signature := [1, 2]\<rparr>\<rparr> in
   blk_header b' = (blk_header demo_block)\<lparr>bh_signature := bh_signature (blk_header b')\<rparr> \<and>
   blk_transactions b' = blk_transactions demo_block"
proof -
  let ?b = "demo_block\<lparr>blk_header := (blk_header demo_block)\<lparr>bh_signature := [1, 2]\<rparr>\<rparr>"
  have "Block_verify demo_crypto demo_json demo_block = Ok ()"
    by (simp add: demo_block_def Block_new_def Block_verify_iff Block_compute_hash_def Let_def genesis_height)
  then show ?thesis
    using block_hash_binds [OF demo_crypto_ok, of demo_json demo_block ?b] demo_block_ok
    by (simp add: Block_verify_signature Block_tx_count_def header_ok_def header_input_def
        demo_block_transactions root_inputs_def tree_inputs.simps)
qed

end
