(* ===== verification/Nova_DB.thy ===== *)
theory Nova_DB
  imports Blocks State_Tree
begin

text \<open>
  The storage engine, \<open>protocol/src/storage/db.rs\<close>: typed accessors over five sled trees. A sled
  tree, its operations, the database handle and bincode are the fields of \<open>db_env\<close>, an argument of
  every definition; \<open>sled_ok\<close> states what the sled documentation promises for a run without I/O
  errors. Writes that happened before an error stay in the returned state. The lemmas give the
  round trips, the order of range scans (big-endian keys sort like heights), and what is left
  behind by a \<open>put_block\<close> that fails half-way.
\<close>

section \<open>Types\<close>

datatype DbError = Sled string | DbSerialization string | NotFound string

type_synonym 'a db_result = "('a, DbError) result"

definition META_LATEST_HEIGHT :: bytes where
  "META_LATEST_HEIGHT = as_bytes ''latest_block_height''"

record ('t, 'd) db_env =
  de_get :: "'t \<Rightarrow> bytes \<Rightarrow> (bytes option, string) result"
  de_insert :: "'t \<Rightarrow> bytes \<Rightarrow> bytes \<Rightarrow> ('t, string) result"
  de_apply_batch :: "'t \<Rightarrow> (bytes \<times> bytes) list \<Rightarrow> ('t, string) result"
  de_range :: "'t \<Rightarrow> bytes \<Rightarrow> bytes \<Rightarrow> (bytes \<times> bytes, string) result list"
  de_len :: "'t \<Rightarrow> nat"
  de_open_tree :: "'d \<Rightarrow> string \<Rightarrow> ('t, string) result"
  de_flush :: "'d \<Rightarrow> (unit, string) result"
  de_enc_block :: "Block \<Rightarrow> (bytes, string) result"
  de_dec_block :: "bytes \<Rightarrow> (Block, string) result"
  de_enc_tx :: "Transaction \<Rightarrow> (bytes, string) result"
  de_dec_tx :: "bytes \<Rightarrow> (Transaction, string) result"
  de_enc_acct :: "AccountState \<Rightarrow> (bytes, string) result"
  de_dec_acct :: "bytes \<Rightarrow> (AccountState, string) result"

record ('t, 'd) NovaDB =
  nd_db :: 'd
  nd_blocks :: 't
  nd_block_hashes :: 't
  nd_transactions :: 't
  nd_accounts :: 't
  nd_metadata :: 't

section \<open>Operations\<close>

definition NovaDB_from_db :: "('t, 'd) db_env \<Rightarrow> 'd \<Rightarrow> ('t, 'd) NovaDB db_result" where
  "NovaDB_from_db E db =
     (case de_open_tree E db ''blocks'' of Err e \<Rightarrow> Err (Sled e) | Ok blocks \<Rightarrow>
      (case de_open_tree E db ''block_hashes'' of Err e \<Rightarrow> Err (Sled e) | Ok block_hashes \<Rightarrow>
       (case de_open_tree E db ''transactions'' of Err e \<Rightarrow> Err (Sled e) | Ok transactions \<Rightarrow>
        (case de_open_tree E db ''accounts'' of Err e \<Rightarrow> Err (Sled e) | Ok accounts \<Rightarrow>
         (case de_open_tree E db ''metadata'' of Err e \<Rightarrow> Err (Sled e) | Ok metadata \<Rightarrow>
            Ok \<lparr>nd_db = db, nd_blocks = blocks, nd_block_hashes = block_hashes,
                nd_transactions = transactions, nd_accounts = accounts, nd_metadata = metadata\<rparr>)))))"

definition NovaDB_open_tree :: "('t, 'd) db_env \<Rightarrow> ('t, 'd) NovaDB \<Rightarrow> string \<Rightarrow> 't db_result" where
  "NovaDB_open_tree E db name = (case de_open_tree E (nd_db db) name of Ok t \<Rightarrow> Ok t | Err e \<Rightarrow> Err (Sled e))"

text \<open>The loop that collects the batch of transactions.\<close>

fun tx_batch :: "('t, 'd) db_env \<Rightarrow> Transaction list \<Rightarrow> (bytes \<times> bytes) list db_result" where
  "tx_batch E [] = Ok []"
| "tx_batch E (tx # txs) =
     (case de_enc_tx E tx of
        Err e \<Rightarrow> Err (DbSerialization e)
      | Ok tx_bytes \<Rightarrow>
          (case tx_batch E txs of
             Err e \<Rightarrow> Err e
           | Ok batch \<Rightarrow> Ok ((as_bytes (tx_id tx), tx_bytes) # batch)))"

definition NovaDB_put_block ::
  "('t, 'd) db_env \<Rightarrow> ('t, 'd) NovaDB \<Rightarrow> Block \<Rightarrow> ('t, 'd) NovaDB \<times> unit db_result" where
  "NovaDB_put_block E db block =
     (let height_key = u64_to_be_bytes (bh_height (blk_header block)) in
      case de_enc_block E block of Err e \<Rightarrow> (db, Err (DbSerialization e)) | Ok block_bytes \<Rightarrow>
      (case de_apply_batch E (nd_blocks db) [(height_key, block_bytes)] of
         Err e \<Rightarrow> (db, Err (Sled e))
       | Ok t \<Rightarrow>
       let db = db\<lparr>nd_blocks := t\<rparr> in
       (case de_insert E (nd_block_hashes db) (bh_hash (blk_header block)) height_key of
          Err e \<Rightarrow> (db, Err (Sled e))
        | Ok t \<Rightarrow>
        let db = db\<lparr>nd_block_hashes := t\<rparr> in
        (case tx_batch E (blk_transactions block) of
           Err e \<Rightarrow> (db, Err e)
         | Ok batch \<Rightarrow>
         (case de_apply_batch E (nd_transactions db) batch of
            Err e \<Rightarrow> (db, Err (Sled e))
          | Ok t \<Rightarrow>
          let db = db\<lparr>nd_transactions := t\<rparr> in
          (case de_insert E (nd_metadata db) META_LATEST_HEIGHT height_key of
             Err e \<Rightarrow> (db, Err (Sled e))
           | Ok t \<Rightarrow>
           let db = db\<lparr>nd_metadata := t\<rparr> in
           (case de_flush E (nd_db db) of Err e \<Rightarrow> (db, Err (Sled e)) | Ok _ \<Rightarrow> (db, Ok ()))))))))"

definition NovaDB_get_block :: "('t, 'd) db_env \<Rightarrow> ('t, 'd) NovaDB \<Rightarrow> u64 \<Rightarrow> Block option db_result" where
  "NovaDB_get_block E db height =
     (case de_get E (nd_blocks db) (u64_to_be_bytes height) of
        Err e \<Rightarrow> Err (Sled e)
      | Ok None \<Rightarrow> Ok None
      | Ok (Some bytes) \<Rightarrow>
          (case de_dec_block E bytes of Err e \<Rightarrow> Err (DbSerialization e) | Ok block \<Rightarrow> Ok (Some block)))"

text \<open>\<open>u64::from_be_bytes(bytes.try_into()?)\<close>: the slice must have eight bytes.\<close>

definition height_of_bytes :: "bytes \<Rightarrow> u64 db_result" where
  "height_of_bytes b =
     (if length b = 8 then Ok (u64_from_be_bytes b) else Err (DbSerialization ''invalid height bytes''))"

definition NovaDB_get_block_by_hash ::
  "('t, 'd) db_env \<Rightarrow> ('t, 'd) NovaDB \<Rightarrow> bytes \<Rightarrow> Block option db_result" where
  "NovaDB_get_block_by_hash E db hash =
     (case de_get E (nd_block_hashes db) hash of
        Err e \<Rightarrow> Err (Sled e)
      | Ok None \<Rightarrow> Ok None
      | Ok (Some height_bytes) \<Rightarrow>
          (case height_of_bytes height_bytes of
             Err e \<Rightarrow> Err e
           | Ok height \<Rightarrow> NovaDB_get_block E db height))"

fun collect_blocks ::
  "('t, 'd) db_env \<Rightarrow> (bytes \<times> bytes, string) result list \<Rightarrow> Block list \<Rightarrow> Block list db_result" where
  "collect_blocks E [] blocks = Ok blocks"
| "collect_blocks E (r # rs) blocks =
     (case r of
        Err e \<Rightarrow> Err (Sled e)
      | Ok (_, v) \<Rightarrow>
          (case de_dec_block E v of
             Err e \<Rightarrow> Err (DbSerialization e)
           | Ok block \<Rightarrow> collect_blocks E rs (blocks @ [block])))"

definition NovaDB_get_block_range ::
  "('t, 'd) db_env \<Rightarrow> ('t, 'd) NovaDB \<Rightarrow> u64 \<Rightarrow> u64 \<Rightarrow> Block list db_result" where
  "NovaDB_get_block_range E db start_h end_h =
     collect_blocks E (de_range E (nd_blocks db) (u64_to_be_bytes start_h) (u64_to_be_bytes end_h)) []"

definition NovaDB_put_transaction ::
  "('t, 'd) db_env \<Rightarrow> ('t, 'd) NovaDB \<Rightarrow> Transaction \<Rightarrow> ('t, 'd) NovaDB \<times> unit db_result" where
  "NovaDB_put_transaction E db tx =
     (case de_enc_tx E tx of
        Err e \<Rightarrow> (db, Err (DbSerialization e))
      | Ok tx_bytes \<Rightarrow>
          (case de_insert E (nd_transactions db) (as_bytes (tx_id tx)) tx_bytes of
             Err e \<Rightarrow> (db, Err (Sled e))
           | Ok t \<Rightarrow> (db\<lparr>nd_transactions := t\<rparr>, Ok ())))"

definition NovaDB_get_transaction ::
  "('t, 'd) db_env \<Rightarrow> ('t, 'd) NovaDB \<Rightarrow> string \<Rightarrow> Transaction option db_result" where
  "NovaDB_get_transaction E db tid =
     (case de_get E (nd_transactions db) (as_bytes tid) of
        Err e \<Rightarrow> Err (Sled e)
      | Ok None \<Rightarrow> Ok None
      | Ok (Some bytes) \<Rightarrow>
          (case de_dec_tx E bytes of Err e \<Rightarrow> Err (DbSerialization e) | Ok tx \<Rightarrow> Ok (Some tx)))"

definition NovaDB_put_account ::
  "('t, 'd) db_env \<Rightarrow> ('t, 'd) NovaDB \<Rightarrow> string \<Rightarrow> AccountState \<Rightarrow> ('t, 'd) NovaDB \<times> unit db_result" where
  "NovaDB_put_account E db address state =
     (case de_enc_acct E state of
        Err e \<Rightarrow> (db, Err (DbSerialization e))
      | Ok bytes \<Rightarrow>
          (case de_insert E (nd_accounts db) (as_bytes address) bytes of
             Err e \<Rightarrow> (db, Err (Sled e))
           | Ok t \<Rightarrow> (db\<lparr>nd_accounts := t\<rparr>, Ok ())))"

definition NovaDB_get_account ::
  "('t, 'd) db_env \<Rightarrow> ('t, 'd) NovaDB \<Rightarrow> string \<Rightarrow> AccountState option db_result" where
  "NovaDB_get_account E db address =
     (case de_get E (nd_accounts db) (as_bytes address) of
        Err e \<Rightarrow> Err (Sled e)
      | Ok None \<Rightarrow> Ok None
      | Ok (Some bytes) \<Rightarrow>
          (case de_dec_acct E bytes of Err e \<Rightarrow> Err (DbSerialization e) | Ok s \<Rightarrow> Ok (Some s)))"

definition NovaDB_get_latest_block_height ::
  "('t, 'd) db_env \<Rightarrow> ('t, 'd) NovaDB \<Rightarrow> u64 option db_result" where
  "NovaDB_get_latest_block_height E db =
     (case de_get E (nd_metadata db) META_LATEST_HEIGHT of
        Err e \<Rightarrow> Err (Sled e)
      | Ok None \<Rightarrow> Ok None
      | Ok (Some bytes) \<Rightarrow> (case height_of_bytes bytes of Err e \<Rightarrow> Err e | Ok height \<Rightarrow> Ok (Some height)))"

definition NovaDB_set_latest_block_height ::
  "('t, 'd) db_env \<Rightarrow> ('t, 'd) NovaDB \<Rightarrow> u64 \<Rightarrow> ('t, 'd) NovaDB \<times> unit db_result" where
  "NovaDB_set_latest_block_height E db height =
     (case de_insert E (nd_metadata db) META_LATEST_HEIGHT (u64_to_be_bytes height) of
        Err e \<Rightarrow> (db, Err (Sled e))
      | Ok t \<Rightarrow> (db\<lparr>nd_metadata := t\<rparr>, Ok ()))"

definition NovaDB_block_count :: "('t, 'd) db_env \<Rightarrow> ('t, 'd) NovaDB \<Rightarrow> nat" where
  "NovaDB_block_count E db = de_len E (nd_blocks db)"

definition NovaDB_transaction_count :: "('t, 'd) db_env \<Rightarrow> ('t, 'd) NovaDB \<Rightarrow> nat" where
  "NovaDB_transaction_count E db = de_len E (nd_transactions db)"

definition NovaDB_account_count :: "('t, 'd) db_env \<Rightarrow> ('t, 'd) NovaDB \<Rightarrow> nat" where
  "NovaDB_account_count E db = de_len E (nd_accounts db)"

definition NovaDB_flush :: "('t, 'd) db_env \<Rightarrow> ('t, 'd) NovaDB \<Rightarrow> unit db_result" where
  "NovaDB_flush E db = (case de_flush E (nd_db db) of Ok _ \<Rightarrow> Ok () | Err e \<Rightarrow> Err (Sled e))"

section \<open>Order of the block keys\<close>

lemma list_less_snoc:
  fixes xs ys :: "'a::linorder list"
  assumes "length xs = length ys"
  shows "xs @ [a] < ys @ [b] \<longleftrightarrow> xs < ys \<or> xs = ys \<and> a < b"
  using assms by (induction xs ys rule: list_induct2) auto

lemma u8_less: "(word_of_nat x :: u8) < word_of_nat y \<longleftrightarrow> x mod 256 < y mod 256"
  by (simp add: word_less_nat_alt unat_of_nat)

lemma less_by_digits:
  fixes x y :: nat
  assumes "x = 256 * a + b" "y = 256 * c + d" "b < 256" "d < 256"
  shows "x < y \<longleftrightarrow> a < c \<or> a = c \<and> b < d"
  using assms by arith

lemma rev_nat_le_bytes_less:
  "x < 256 ^ n \<Longrightarrow> y < 256 ^ n \<Longrightarrow> rev (nat_le_bytes n x) < rev (nat_le_bytes n y) \<longleftrightarrow> x < y"
proof (induction n arbitrary: x y)
  case 0
  then show ?case by simp
next
  case (Suc n)
  have bounds: "x div 256 < 256 ^ n" "y div 256 < 256 ^ n"
    using Suc.prems by (simp_all add: less_mult_imp_div_less)
  have "x < y \<longleftrightarrow> x div 256 < y div 256 \<or> x div 256 = y div 256 \<and> x mod 256 < y mod 256"
    by (rule less_by_digits) simp_all
  then show ?case
    using Suc.IH [OF bounds] bounds
    by (simp add: list_less_snoc u8_less nat_le_bytes_inj)
qed

lemma be_bytes_less [simp]: "u64_to_be_bytes a < u64_to_be_bytes b \<longleftrightarrow> a < b"
  unfolding u64_to_be_bytes_def rev_nat_le_bytes_less [OF unat_u64_bound unat_u64_bound]
  by (simp add: word_less_nat_alt)

lemma be_bytes_le [simp]: "u64_to_be_bytes a \<le> u64_to_be_bytes b \<longleftrightarrow> a \<le> b"
  by (simp add: le_less)

section \<open>What sled promises\<close>

text \<open>
  A run without I/O errors: reads and writes succeed, a read returns the last write, a batch is
  applied in order, and a range scan yields the entries between the bounds in key order.
\<close>

definition sled_ok :: "('t, 'd) db_env \<Rightarrow> bool" where
  "sled_ok E \<longleftrightarrow>
     (\<forall>t k. is_ok (de_get E t k)) \<and>
     (\<forall>t k v. \<exists>t'. de_insert E t k v = Ok t' \<and>
        (\<forall>k'. de_get E t' k' = (if k' = k then Ok (Some v) else de_get E t k'))) \<and>
     (\<forall>t kvs. \<exists>t'. de_apply_batch E t kvs = Ok t' \<and>
        (\<forall>k. de_get E t' k = (case map_of (rev kvs) k of Some v \<Rightarrow> Ok (Some v) | None \<Rightarrow> de_get E t k))) \<and>
     (\<forall>t lo hi. lo \<le> hi \<longrightarrow> (\<exists>kvs. de_range E t lo hi = map Ok kvs \<and> sorted_wrt (<) (map fst kvs) \<and>
        set kvs = {(k, v). de_get E t k = Ok (Some v) \<and> lo \<le> k \<and> k \<le> hi})) \<and>
     (\<forall>d. is_ok (de_flush E d))"

definition block_codec :: "('t, 'd) db_env \<Rightarrow> Block \<Rightarrow> bool" where
  "block_codec E b \<longleftrightarrow> (\<exists>x. de_enc_block E b = Ok x \<and> de_dec_block E x = Ok b)"

definition tx_codec :: "('t, 'd) db_env \<Rightarrow> Transaction \<Rightarrow> bool" where
  "tx_codec E tx \<longleftrightarrow> (\<exists>x. de_enc_tx E tx = Ok x \<and> de_dec_tx E x = Ok tx)"

lemma sled_okD:
  assumes "sled_ok E"
  shows sled_insert: "\<exists>t'. de_insert E t k v = Ok t' \<and>
        (\<forall>k'. de_get E t' k' = (if k' = k then Ok (Some v) else de_get E t k'))"
    and sled_batch: "\<exists>t'. de_apply_batch E t kvs = Ok t' \<and>
        (\<forall>k. de_get E t' k = (case map_of (rev kvs) k of Some v \<Rightarrow> Ok (Some v) | None \<Rightarrow> de_get E t k))"
    and sled_range: "lo \<le> hi \<Longrightarrow> \<exists>kvs. de_range E t lo hi = map Ok kvs \<and> sorted_wrt (<) (map fst kvs) \<and>
        set kvs = {(k, v). de_get E t k = Ok (Some v) \<and> lo \<le> k \<and> k \<le> hi}"
    and sled_flush: "is_ok (de_flush E d)"
proof -
  note ok = assms [unfolded sled_ok_def]
  show "\<exists>t'. de_insert E t k v = Ok t' \<and>
        (\<forall>k'. de_get E t' k' = (if k' = k then Ok (Some v) else de_get E t k'))"
    by (rule ok [THEN conjunct2, THEN conjunct1, rule_format])
  show "\<exists>t'. de_apply_batch E t kvs = Ok t' \<and>
        (\<forall>k. de_get E t' k = (case map_of (rev kvs) k of Some v \<Rightarrow> Ok (Some v) | None \<Rightarrow> de_get E t k))"
    by (rule ok [THEN conjunct2, THEN conjunct2, THEN conjunct1, rule_format])
  show "lo \<le> hi \<Longrightarrow> \<exists>kvs. de_range E t lo hi = map Ok kvs \<and> sorted_wrt (<) (map fst kvs) \<and>
        set kvs = {(k, v). de_get E t k = Ok (Some v) \<and> lo \<le> k \<and> k \<le> hi}"
    by (rule ok [THEN conjunct2, THEN conjunct2, THEN conjunct2, THEN conjunct1, rule_format])
  show "is_ok (de_flush E d)"
    by (rule ok [THEN conjunct2, THEN conjunct2, THEN conjunct2, THEN conjunct2, rule_format])
qed

lemma tx_batch_ok:
  assumes "\<forall>tx\<in>set txs. tx_codec E tx"
  shows "\<exists>batch. tx_batch E txs = Ok batch \<and> map fst batch = map (as_bytes \<circ> tx_id) txs \<and>
     list_all2 (\<lambda>tx p. de_dec_tx E (snd p) = Ok tx) txs batch"
  using assms by (induction txs) (auto simp: tx_codec_def)

text \<open>A fault-free \<open>put_block\<close>, tree by tree.\<close>

lemma put_block_trees:
  assumes E: "sled_ok E" and enc: "de_enc_block E b = Ok x" and batch: "tx_batch E (blk_transactions b) = Ok batch"
  obtains db' where "NovaDB_put_block E db b = (db', Ok ())"
    and "\<And>k. de_get E (nd_blocks db') k = (if k = u64_to_be_bytes (bh_height (blk_header b))
           then Ok (Some x) else de_get E (nd_blocks db) k)"
    and "\<And>k. de_get E (nd_block_hashes db') k = (if k = bh_hash (blk_header b)
           then Ok (Some (u64_to_be_bytes (bh_height (blk_header b)))) else de_get E (nd_block_hashes db) k)"
    and "\<And>k. de_get E (nd_transactions db') k =
           (case map_of (rev batch) k of Some v \<Rightarrow> Ok (Some v) | None \<Rightarrow> de_get E (nd_transactions db) k)"
    and "\<And>k. de_get E (nd_metadata db') k = (if k = META_LATEST_HEIGHT
           then Ok (Some (u64_to_be_bytes (bh_height (blk_header b)))) else de_get E (nd_metadata db) k)"
    and "nd_accounts db' = nd_accounts db"
proof -
  let ?h = "u64_to_be_bytes (bh_height (blk_header b))"
  obtain t1 where t1: "de_apply_batch E (nd_blocks db) [(?h, x)] = Ok t1"
    "\<And>k. de_get E t1 k = (if k = ?h then Ok (Some x) else de_get E (nd_blocks db) k)"
    using sled_batch [OF E, of "nd_blocks db" "[(?h, x)]"] by auto
  obtain t2 where t2: "de_insert E (nd_block_hashes db) (bh_hash (blk_header b)) ?h = Ok t2"
    "\<And>k. de_get E t2 k = (if k = bh_hash (blk_header b) then Ok (Some ?h) else de_get E (nd_block_hashes db) k)"
    using sled_insert [OF E] by blast
  obtain t3 where t3: "de_apply_batch E (nd_transactions db) batch = Ok t3"
    "\<And>k. de_get E t3 k = (case map_of (rev batch) k of Some v \<Rightarrow> Ok (Some v) | None \<Rightarrow> de_get E (nd_transactions db) k)"
    using sled_batch [OF E] by blast
  obtain t4 where t4: "de_insert E (nd_metadata db) META_LATEST_HEIGHT ?h = Ok t4"
    "\<And>k. de_get E t4 k = (if k = META_LATEST_HEIGHT then Ok (Some ?h) else de_get E (nd_metadata db) k)"
    using sled_insert [OF E] by blast
  obtain u where "de_flush E (nd_db db) = Ok u" using sled_flush [OF E] by (meson is_ok.elims(2))
  then have "NovaDB_put_block E db b = (db\<lparr>nd_blocks := t1, nd_block_hashes := t2, nd_transactions := t3,
      nd_metadata := t4\<rparr>, Ok ())"
    using enc batch t1(1) t2(1) t3(1) t4(1) by (simp add: NovaDB_put_block_def)
  then show ?thesis by (rule that) (simp_all add: t1(2) t2(2) t3(2) t4(2))
qed

lemma map_of_rev_batch:
  assumes "list_all2 R txs batch" and "map fst batch = map f txs" and "distinct (map f txs)" and "tx \<in> set txs"
  shows "\<exists>v. map_of (rev batch) (f tx) = Some v \<and> R tx (f tx, v)"
proof -
  obtain i where i: "i < length txs" "txs ! i = tx" using assms(4) by (auto simp: in_set_conv_nth)
  have len: "length batch = length txs" using assms(1) by (simp add: list_all2_lengthD)
  have p: "fst (batch ! i) = f tx"
    using arg_cong [OF assms(2), of "\<lambda>xs. xs ! i"] i len by simp
  have "batch ! i \<in> set (rev batch)" using i len by simp
  moreover have "distinct (map fst (rev batch))"
    using assms(2,3) by (simp add: rev_map [symmetric])
  ultimately have "map_of (rev batch) (f tx) = Some (snd (batch ! i))"
    using p by (metis map_of_is_SomeI prod.collapse)
  moreover have "R tx (f tx, snd (batch ! i))"
    using list_all2_nthD [OF assms(1) i(1)] i(2) p by (metis prod.collapse)
  ultimately show ?thesis by blast
qed

lemma map_of_rev_None: "k \<notin> set (map fst batch) \<Longrightarrow> map_of (rev batch) k = None"
  by (auto simp: map_of_eq_None_iff)

text \<open>The queries after a fault-free \<open>put_block\<close>.\<close>

lemma put_block_queries:
  assumes E: "sled_ok E" and b: "block_codec E b" and txs: "\<forall>tx\<in>set (blk_transactions b). tx_codec E tx"
  obtains db' where "NovaDB_put_block E db b = (db', Ok ())"
    and "\<And>h. NovaDB_get_block E db' h =
           (if h = bh_height (blk_header b) then Ok (Some b) else NovaDB_get_block E db h)"
    and "\<And>k. NovaDB_get_block_by_hash E db' k =
           (if k = bh_hash (blk_header b) then Ok (Some b)
            else case de_get E (nd_block_hashes db) k of
                Err e \<Rightarrow> Err (Sled e) | Ok None \<Rightarrow> Ok None
              | Ok (Some hb) \<Rightarrow> (case height_of_bytes hb of
                    Err e \<Rightarrow> Err e | Ok h \<Rightarrow> NovaDB_get_block E db' h))"
    and "\<And>tx. distinct (map tx_id (blk_transactions b)) \<Longrightarrow> tx \<in> set (blk_transactions b) \<Longrightarrow>
           NovaDB_get_transaction E db' (tx_id tx) = Ok (Some tx)"
    and "\<And>i. i \<notin> tx_id ` set (blk_transactions b) \<Longrightarrow>
           NovaDB_get_transaction E db' i = NovaDB_get_transaction E db i"
    and "NovaDB_get_latest_block_height E db' = Ok (Some (bh_height (blk_header b)))"
    and "\<And>a. NovaDB_get_account E db' a = NovaDB_get_account E db a"
proof -
  obtain x where x: "de_enc_block E b = Ok x" "de_dec_block E x = Ok b"
    using b by (auto simp: block_codec_def)
  obtain batch where batch: "tx_batch E (blk_transactions b) = Ok batch"
    and keys: "map fst batch = map (as_bytes \<circ> tx_id) (blk_transactions b)"
    and dec: "list_all2 (\<lambda>tx p. de_dec_tx E (snd p) = Ok tx) (blk_transactions b) batch"
    using tx_batch_ok [OF txs] by blast
  obtain db' where put: "NovaDB_put_block E db b = (db', Ok ())"
    and g1: "\<And>k. de_get E (nd_blocks db') k = (if k = u64_to_be_bytes (bh_height (blk_header b))
           then Ok (Some x) else de_get E (nd_blocks db) k)"
    and g2: "\<And>k. de_get E (nd_block_hashes db') k = (if k = bh_hash (blk_header b)
           then Ok (Some (u64_to_be_bytes (bh_height (blk_header b)))) else de_get E (nd_block_hashes db) k)"
    and g3: "\<And>k. de_get E (nd_transactions db') k =
           (case map_of (rev batch) k of Some v \<Rightarrow> Ok (Some v) | None \<Rightarrow> de_get E (nd_transactions db) k)"
    and g4: "\<And>k. de_get E (nd_metadata db') k = (if k = META_LATEST_HEIGHT
           then Ok (Some (u64_to_be_bytes (bh_height (blk_header b)))) else de_get E (nd_metadata db) k)"
    and g5: "nd_accounts db' = nd_accounts db"
    by (rule put_block_trees [OF E x(1) batch, of db], rule that)
  have tx: "NovaDB_get_transaction E db' (tx_id tx) = Ok (Some tx)"
    if "distinct (map tx_id (blk_transactions b))" "tx \<in> set (blk_transactions b)" for tx
  proof -
    have "distinct (map (as_bytes \<circ> tx_id) (blk_transactions b))"
      using that(1) by (auto simp: distinct_map inj_on_def)
    from map_of_rev_batch [OF dec keys this that(2)] show ?thesis
      by (auto simp: NovaDB_get_transaction_def g3)
  qed
  have other: "NovaDB_get_transaction E db' i = NovaDB_get_transaction E db i"
    if "i \<notin> tx_id ` set (blk_transactions b)" for i
  proof -
    have "as_bytes i \<notin> set (map fst batch)" using that by (auto simp: keys)
    from map_of_rev_None [OF this] show ?thesis by (simp add: NovaDB_get_transaction_def g3)
  qed
  show ?thesis
    by (rule that [OF put _ _ tx other])
      (simp_all add: NovaDB_get_block_def NovaDB_get_block_by_hash_def g1 g2 g4 g5 x height_of_bytes_def
        NovaDB_get_latest_block_height_def NovaDB_get_account_def)
qed

section \<open>Range scans\<close>

definition blocks_inv :: "('t, 'd) db_env \<Rightarrow> ('t, 'd) NovaDB \<Rightarrow> bool" where
  "blocks_inv E db \<longleftrightarrow> (\<forall>k v. de_get E (nd_blocks db) k = Ok (Some v) \<longrightarrow>
     (\<exists>b. de_dec_block E v = Ok b \<and> k = u64_to_be_bytes (bh_height (blk_header b))))"

lemma put_block_blocks_inv:
  assumes "sled_ok E" "block_codec E b" "\<forall>tx\<in>set (blk_transactions b). tx_codec E tx" "blocks_inv E db"
  shows "blocks_inv E (fst (NovaDB_put_block E db b))"
proof -
  obtain x where x: "de_enc_block E b = Ok x" "de_dec_block E x = Ok b"
    using assms(2) by (auto simp: block_codec_def)
  obtain batch where batch: "tx_batch E (blk_transactions b) = Ok batch" using tx_batch_ok [OF assms(3)] by blast
  obtain db' where put: "NovaDB_put_block E db b = (db', Ok ())"
    and get: "\<And>k. de_get E (nd_blocks db') k = (if k = u64_to_be_bytes (bh_height (blk_header b))
           then Ok (Some x) else de_get E (nd_blocks db) k)"
    by (rule put_block_trees [OF assms(1) x(1) batch, of db], rule that)
  show ?thesis
    using x(2) assms(4) unfolding put fst_conv blocks_inv_def by (simp add: get)
qed

lemma collect_blocks_ok:
  "\<forall>p\<in>set kvs. \<exists>b. de_dec_block E (snd p) = Ok b \<Longrightarrow>
   collect_blocks E (map Ok kvs) acc =
     Ok (acc @ map (\<lambda>p. case de_dec_block E (snd p) of Ok b \<Rightarrow> b) kvs)"
  by (induction kvs arbitrary: acc) auto

lemma range_of_inv:
  assumes E: "sled_ok E" and inv: "blocks_inv E db" and le: "s \<le> e"
  shows "\<exists>res. NovaDB_get_block_range E db s e = Ok res \<and>
     sorted_wrt (<) (map (bh_height \<circ> blk_header) res) \<and>
     set res = {b. s \<le> bh_height (blk_header b) \<and> bh_height (blk_header b) \<le> e \<and>
                  NovaDB_get_block E db (bh_height (blk_header b)) = Ok (Some b)}"
proof -
  let ?dec = "\<lambda>p :: bytes \<times> bytes. case de_dec_block E (snd p) of Ok b \<Rightarrow> b"
  have "u64_to_be_bytes s \<le> u64_to_be_bytes e" using le by simp
  from sled_range [OF E this, of "nd_blocks db"] obtain kvs
    where r: "de_range E (nd_blocks db) (u64_to_be_bytes s) (u64_to_be_bytes e) = map Ok kvs"
    and sorted: "sorted_wrt (<) (map fst kvs)"
    and set: "set kvs = {(k, v). de_get E (nd_blocks db) k = Ok (Some v) \<and> u64_to_be_bytes s \<le> k \<and> k \<le> u64_to_be_bytes e}"
    by blast
  have dec: "\<exists>b. de_dec_block E (snd p) = Ok b \<and> fst p = u64_to_be_bytes (bh_height (blk_header b))"
    if "p \<in> set kvs" for p
  proof -
    obtain k v where p: "p = (k, v)" by (cases p)
    then have "de_get E (nd_blocks db) k = Ok (Some v)" using that unfolding set by simp
    then show ?thesis using inv unfolding p blocks_inv_def by simp
  qed
  have "\<forall>p\<in>set kvs. \<exists>b. de_dec_block E (snd p) = Ok b" using dec by blast
  from collect_blocks_ok [OF this, of "[]"] have res: "NovaDB_get_block_range E db s e = Ok (map ?dec kvs)"
    unfolding NovaDB_get_block_range_def r by simp
  have keys: "map fst kvs = map (u64_to_be_bytes \<circ> (bh_height \<circ> blk_header) \<circ> ?dec) kvs"
  proof (rule map_cong [OF refl])
    fix p assume "p \<in> set kvs"
    from dec [OF this] show "fst p = (u64_to_be_bytes \<circ> (bh_height \<circ> blk_header) \<circ> ?dec) p" by auto
  qed
  have "sorted_wrt (<) (map (bh_height \<circ> blk_header) (map ?dec kvs))"
    using sorted unfolding keys by (simp add: sorted_wrt_map)
  moreover have "b \<in> set (map ?dec kvs) \<longleftrightarrow> s \<le> bh_height (blk_header b) \<and> bh_height (blk_header b) \<le> e \<and>
      NovaDB_get_block E db (bh_height (blk_header b)) = Ok (Some b)" for b
  proof
    assume "b \<in> set (map ?dec kvs)"
    then obtain p where p: "p \<in> set kvs" "b = ?dec p" by auto
    with dec [OF p(1)] have d: "de_dec_block E (snd p) = Ok b" "fst p = u64_to_be_bytes (bh_height (blk_header b))"
      by auto
    with p(1) show "s \<le> bh_height (blk_header b) \<and> bh_height (blk_header b) \<le> e \<and>
      NovaDB_get_block E db (bh_height (blk_header b)) = Ok (Some b)"
      unfolding set by (auto simp: NovaDB_get_block_def)
  next
    assume h: "s \<le> bh_height (blk_header b) \<and> bh_height (blk_header b) \<le> e \<and>
      NovaDB_get_block E db (bh_height (blk_header b)) = Ok (Some b)"
    then obtain v where "de_get E (nd_blocks db) (u64_to_be_bytes (bh_height (blk_header b))) = Ok (Some v)"
      "de_dec_block E v = Ok b"
      by (auto simp: NovaDB_get_block_def split: result.splits option.splits)
    then have "(u64_to_be_bytes (bh_height (blk_header b)), v) \<in> set kvs"
      and b: "b = ?dec (u64_to_be_bytes (bh_height (blk_header b)), v)"
      using h unfolding set by simp_all
    from imageI [OF this(1), of ?dec] show "b \<in> set (map ?dec kvs)" unfolding list.set_map b [symmetric] .
  qed
  ultimately show ?thesis using res by (intro exI [of _ "map ?dec kvs"]) (simp add: set_eq_iff)
qed

text \<open>Putting a list of blocks.\<close>

fun put_blocks :: "('t, 'd) db_env \<Rightarrow> ('t, 'd) NovaDB \<Rightarrow> Block list \<Rightarrow> ('t, 'd) NovaDB" where
  "put_blocks E db [] = db"
| "put_blocks E db (b # bs) = put_blocks E (fst (NovaDB_put_block E db b)) bs"

definition codecs :: "('t, 'd) db_env \<Rightarrow> Block list \<Rightarrow> bool" where
  "codecs E bs \<longleftrightarrow> (\<forall>b\<in>set bs. block_codec E b \<and> (\<forall>tx\<in>set (blk_transactions b). tx_codec E tx))"

lemma put_blocks_inv: "sled_ok E \<Longrightarrow> codecs E bs \<Longrightarrow> blocks_inv E db \<Longrightarrow> blocks_inv E (put_blocks E db bs)"
  by (induction bs arbitrary: db) (simp_all add: codecs_def put_block_blocks_inv)

text \<open>A hash index entry is never removed: replacing the block at a height leaves the old hash behind.\<close>

lemma stale_hash_index:
  assumes "sled_ok E" and "codecs E [b, b']"
    and "bh_height (blk_header b) = bh_height (blk_header b')" and "bh_hash (blk_header b) \<noteq> bh_hash (blk_header b')"
  shows "NovaDB_get_block_by_hash E (put_blocks E db [b, b']) (bh_hash (blk_header b)) = Ok (Some b')"
proof -
  have c: "block_codec E b" "block_codec E b'" "\<forall>tx\<in>set (blk_transactions b). tx_codec E tx"
    "\<forall>tx\<in>set (blk_transactions b'). tx_codec E tx"
    using assms(2) by (simp_all add: codecs_def)
  obtain x where x: "de_enc_block E b = Ok x" using c(1) by (auto simp: block_codec_def)
  obtain batch where batch: "tx_batch E (blk_transactions b) = Ok batch" using tx_batch_ok [OF c(3)] by blast
  obtain db1 where db1: "NovaDB_put_block E db b = (db1, Ok ())"
    "\<And>k. de_get E (nd_block_hashes db1) k = (if k = bh_hash (blk_header b)
       then Ok (Some (u64_to_be_bytes (bh_height (blk_header b)))) else de_get E (nd_block_hashes db) k)"
    by (rule put_block_trees [OF assms(1) x batch, of db], rule that)
  obtain db2 where db2: "NovaDB_put_block E db1 b' = (db2, Ok ())"
    "\<And>h. NovaDB_get_block E db2 h =
           (if h = bh_height (blk_header b') then Ok (Some b') else NovaDB_get_block E db1 h)"
    "\<And>k. NovaDB_get_block_by_hash E db2 k =
           (if k = bh_hash (blk_header b') then Ok (Some b')
            else case de_get E (nd_block_hashes db1) k of
                Err e \<Rightarrow> Err (Sled e) | Ok None \<Rightarrow> Ok None
              | Ok (Some hb) \<Rightarrow> (case height_of_bytes hb of
                    Err e \<Rightarrow> Err e | Ok h \<Rightarrow> NovaDB_get_block E db2 h))"
    by (rule put_block_queries [OF assms(1) c(2,4), where db = db1], rule that)
  show ?thesis
    using assms(3,4) db1 db2 by (simp add: height_of_bytes_def)
qed

text \<open>The trees are written one after the other: a failure in between leaves the block stored.\<close>

lemma failed_put_block_leaves_block:
  assumes "de_enc_block E b = Ok x" "de_dec_block E x = Ok b"
    and "de_apply_batch E (nd_blocks db) [(u64_to_be_bytes (bh_height (blk_header b)), x)] = Ok t"
    and "de_get E t (u64_to_be_bytes (bh_height (blk_header b))) = Ok (Some x)"
    and "de_insert E (nd_block_hashes db) (bh_hash (blk_header b)) (u64_to_be_bytes (bh_height (blk_header b))) = Err e"
  shows "\<exists>db'. NovaDB_put_block E db b = (db', Err (Sled e)) \<and>
     NovaDB_get_block E db' (bh_height (blk_header b)) = Ok (Some b)"
  using assms by (simp add: NovaDB_put_block_def NovaDB_get_block_def Let_def)

section \<open>Properties\<close>


text \<open>
  Range scans: after any sequence of stored blocks on an empty database, \<open>get_block_range\<close> returns
  exactly the stored blocks whose height lies between the bounds, each once, in ascending order of
  height; missing heights are skipped.
\<close>
lemma block_range_sorted:
  assumes "sled_ok E" and "codecs E bs" and "\<forall>k. de_get E (nd_blocks db) k = Ok None" and "s \<le> e"
  shows "\<exists>res. NovaDB_get_block_range E (put_blocks E db bs) s e = Ok res \<and>
     sorted_wrt (<) (map (bh_height \<circ> blk_header) res) \<and>
     set res = {b. s \<le> bh_height (blk_header b) \<and> bh_height (blk_header b) \<le> e \<and>
       NovaDB_get_block E (put_blocks E db bs) (bh_height (blk_header b)) = Ok (Some b)}"
proof -
  have "blocks_inv E db" using assms(3) by (simp add: blocks_inv_def)
  from range_of_inv [OF assms(1) put_blocks_inv [OF assms(1,2) this] assms(4)] show ?thesis .
qed

section \<open>Witnesses\<close>

definition demo_db_env :: "((bytes \<times> bytes) list, unit) db_env" where
  "demo_db_env = \<lparr>de_get = (\<lambda>t k. Ok (map_of t k)), de_insert = (\<lambda>t k v. Ok ((k, v) # t)),
     de_apply_batch = (\<lambda>t kvs. Ok (rev kvs @ t)),
     de_range = (\<lambda>t lo hi. map (\<lambda>k. Ok (k, the (map_of t k)))
        (filter (\<lambda>k. lo \<le> k \<and> k \<le> hi) (sorted_list_of_set (fst ` set t)))),
     de_len = length, de_open_tree = (\<lambda>_ _. Ok []), de_flush = (\<lambda>_. Ok ()),
     de_enc_block = (\<lambda>_. Ok [1]), de_dec_block = (\<lambda>_. Ok demo_block),
     de_enc_tx = (\<lambda>_. Ok [2]), de_dec_tx = (\<lambda>_. Ok demo_tx),
     de_enc_acct = (\<lambda>_. Ok [3]), de_dec_acct = (\<lambda>_. Ok AccountState_default)\<rparr>"

definition demo_db :: "((bytes \<times> bytes) list, unit) NovaDB" where
  "demo_db = \<lparr>nd_db = (), nd_blocks = [], nd_block_hashes = [], nd_transactions = [],
     nd_accounts = [], nd_metadata = []\<rparr>"

lemma demo_range:
  "\<exists>kvs. de_range demo_db_env t lo hi = map Ok kvs \<and> sorted_wrt (<) (map fst kvs) \<and>
     set kvs = {(k, v). de_get demo_db_env t k = Ok (Some v) \<and> lo \<le> k \<and> k \<le> hi}"
proof -
  let ?ks = "filter (\<lambda>k. lo \<le> k \<and> k \<le> hi) (sorted_list_of_set (fst ` set t))"
  let ?kvs = "map (\<lambda>k. (k, the (map_of t k))) ?ks"
  have "sorted_wrt (<) ?ks" by (intro sorted_wrt_filter) simp
  then have "sorted_wrt (<) (map fst ?kvs)" by (simp add: comp_def)
  moreover have "set ?kvs = {(k, v). map_of t k = Some v \<and> lo \<le> k \<and> k \<le> hi}"
  proof -
    have "k \<in> fst ` set t \<longleftrightarrow> (\<exists>v. map_of t k = Some v)" for k
      by (metis map_of_eq_None_iff not_None_eq)
    then show ?thesis by auto
  qed
  moreover have "de_range demo_db_env t lo hi = map Ok ?kvs" by (simp add: demo_db_env_def comp_def)
  ultimately show ?thesis by (intro exI [of _ ?kvs]) (simp add: demo_db_env_def)
qed

lemma demo_db_env_ok: "sled_ok demo_db_env"
  unfolding sled_ok_def
  using demo_range by (auto simp: demo_db_env_def map_add_def split: option.split)

lemma demo_codecs: "codecs demo_db_env [demo_block]"
  by (simp add: codecs_def block_codec_def tx_codec_def demo_db_env_def demo_block_transactions)


end
