(* ===== verification/Credit_Escrow.thy ===== *)
theory Credit_Escrow
  imports Nova_Prelude
begin

text \<open>
  The credit escrow contract, \<open>contracts/src/credit_escrow.rs\<close>. Every method of \<open>CreditEscrow\<close> is a
  function on the record; the clock is the argument \<open>now\<close>, the fresh UUID the argument
  \<open>escrow_id\<close>. \<open>plus_secs\<close> stands for \<open>DateTime + Duration::seconds\<close> of \<open>chrono\<close>, whose overflow
  panics (\<open>None\<close>). The methods are the steps of a transition relation; the lemmas give the
  invariant of the reachable escrows, the effect of each method, the finality of the terminal
  states and that an undisputed escrow can always be completed.
\<close>

section \<open>Types\<close>

datatype EscrowError =
    InvalidState string string
  | AmountOverflow
  | Overfunded u64 u64
  | InsufficientEscrowed u64 u64
  | Overpayment u64 u64
  | AlreadyDisputed

datatype EscrowStatus = Pending | Funded | Active | Completed | Disputed | Defaulted

fun EscrowStatus_fmt :: "EscrowStatus \<Rightarrow> string" where
  "EscrowStatus_fmt Pending = ''Pending''"
| "EscrowStatus_fmt Funded = ''Funded''"
| "EscrowStatus_fmt Active = ''Active''"
| "EscrowStatus_fmt Completed = ''Completed''"
| "EscrowStatus_fmt Disputed = ''Disputed''"
| "EscrowStatus_fmt Defaulted = ''Defaulted''"

record CreditTerms =
  ct_principal :: u64
  ct_interest_rate_bps :: u32
  ct_total_owed :: u64
  ct_repayment_deadline :: datetime
  ct_grace_period_secs :: u64

record CreditEscrow =
  ce_escrow_id :: string
  ce_lender :: string
  ce_borrower :: string
  ce_principal :: u64
  ce_funded_amount :: u64
  ce_released_amount :: u64
  ce_repaid_amount :: u64
  ce_terms :: CreditTerms
  ce_status :: EscrowStatus
  ce_created_at :: datetime
  ce_updated_at :: datetime

section \<open>Operations\<close>

definition CreditEscrow_create ::
  "string \<Rightarrow> datetime \<Rightarrow> string \<Rightarrow> string \<Rightarrow> CreditTerms \<Rightarrow> CreditEscrow" where
  "CreditEscrow_create escrow_id now lender borrower terms =
     \<lparr>ce_escrow_id = escrow_id, ce_lender = lender, ce_borrower = borrower,
      ce_principal = ct_principal terms, ce_funded_amount = 0, ce_released_amount = 0,
      ce_repaid_amount = 0, ce_terms = terms, ce_status = Pending, ce_created_at = now,
      ce_updated_at = now\<rparr>"

definition CreditEscrow_fund ::
  "datetime \<Rightarrow> CreditEscrow \<Rightarrow> u64 \<Rightarrow> CreditEscrow \<times> (unit, EscrowError) result" where
  "CreditEscrow_fund now e amount =
     (if ce_status e \<noteq> Pending
      then (e, Err (InvalidState (EscrowStatus_fmt (ce_status e)) ''Pending''))
      else case checked_sub (ce_principal e) (ce_funded_amount e) of
        None \<Rightarrow> (e, Err AmountOverflow)
      | Some remaining \<Rightarrow>
          if amount > remaining then (e, Err (Overfunded amount remaining))
          else (case checked_add (ce_funded_amount e) amount of
              None \<Rightarrow> (e, Err AmountOverflow)
            | Some funded \<Rightarrow>
                let e = e\<lparr>ce_funded_amount := funded\<rparr>;
                    e = (if ce_funded_amount e = ce_principal e then e\<lparr>ce_status := Funded\<rparr> else e)
                in (e\<lparr>ce_updated_at := now\<rparr>, Ok ())))"

definition CreditEscrow_release_to_borrower ::
  "datetime \<Rightarrow> CreditEscrow \<Rightarrow> u64 \<Rightarrow> CreditEscrow \<times> (unit, EscrowError) result" where
  "CreditEscrow_release_to_borrower now e amount =
     (if ce_status e \<noteq> Funded \<and> ce_status e \<noteq> Active
      then (e, Err (InvalidState (EscrowStatus_fmt (ce_status e)) ''Funded or Active''))
      else case checked_sub (ce_funded_amount e) (ce_released_amount e) of
        None \<Rightarrow> (e, Err AmountOverflow)
      | Some available \<Rightarrow>
          if amount > available then (e, Err (InsufficientEscrowed amount available))
          else (case checked_add (ce_released_amount e) amount of
              None \<Rightarrow> (e, Err AmountOverflow)
            | Some released \<Rightarrow>
                (e\<lparr>ce_released_amount := released, ce_status := Active, ce_updated_at := now\<rparr>, Ok ())))"

definition CreditEscrow_repay ::
  "datetime \<Rightarrow> CreditEscrow \<Rightarrow> u64 \<Rightarrow> CreditEscrow \<times> (unit, EscrowError) result" where
  "CreditEscrow_repay now e amount =
     (if ce_status e \<noteq> Active
      then (e, Err (InvalidState (EscrowStatus_fmt (ce_status e)) ''Active''))
      else case checked_sub (ct_total_owed (ce_terms e)) (ce_repaid_amount e) of
        None \<Rightarrow> (e, Err AmountOverflow)
      | Some outstanding \<Rightarrow>
          if amount > outstanding then (e, Err (Overpayment amount outstanding))
          else (case checked_add (ce_repaid_amount e) amount of
              None \<Rightarrow> (e, Err AmountOverflow)
            | Some repaid \<Rightarrow>
                let e = e\<lparr>ce_repaid_amount := repaid\<rparr>;
                    e = (if ce_repaid_amount e \<ge> ct_total_owed (ce_terms e)
                         then e\<lparr>ce_status := Completed\<rparr> else e)
                in (e\<lparr>ce_updated_at := now\<rparr>, Ok ())))"

text \<open>\<open>grace_period_secs as i64\<close> reinterprets the 64 bits as a signed number.\<close>

definition CreditEscrow_check_default ::
  "(datetime \<Rightarrow> int \<Rightarrow> datetime option) \<Rightarrow> datetime \<Rightarrow> CreditEscrow \<Rightarrow> (CreditEscrow \<times> bool) option" where
  "CreditEscrow_check_default plus_secs now e =
     (if ce_status e \<noteq> Active then Some (e, False)
      else case plus_secs (ct_repayment_deadline (ce_terms e)) (sint (ct_grace_period_secs (ce_terms e))) of
        None \<Rightarrow> None
      | Some effective_deadline \<Rightarrow>
          if now > effective_deadline \<and> ce_repaid_amount e < ct_total_owed (ce_terms e)
          then Some (e\<lparr>ce_status := Defaulted, ce_updated_at := now\<rparr>, True)
          else Some (e, False))"

definition CreditEscrow_dispute ::
  "datetime \<Rightarrow> CreditEscrow \<Rightarrow> string \<Rightarrow> CreditEscrow \<times> (unit, EscrowError) result" where
  "CreditEscrow_dispute now e reason =
     (if ce_status e = Completed \<or> ce_status e = Defaulted
      then (e, Err (InvalidState (EscrowStatus_fmt (ce_status e)) ''Pending, Funded, or Active''))
      else if ce_status e = Disputed then (e, Err AlreadyDisputed)
      else (e\<lparr>ce_status := Disputed, ce_updated_at := now\<rparr>, Ok ()))"

lemmas escrow_defs = CreditEscrow_fund_def CreditEscrow_release_to_borrower_def
  CreditEscrow_repay_def CreditEscrow_check_default_def CreditEscrow_dispute_def

section \<open>The escrow as a transition system\<close>

inductive escrow_step :: "(datetime \<Rightarrow> int \<Rightarrow> datetime option) \<Rightarrow> CreditEscrow \<Rightarrow> CreditEscrow \<Rightarrow> bool"
  for plus_secs where
  fund: "CreditEscrow_fund now e amount = (e', r) \<Longrightarrow> escrow_step plus_secs e e'"
| release: "CreditEscrow_release_to_borrower now e amount = (e', r) \<Longrightarrow> escrow_step plus_secs e e'"
| repay: "CreditEscrow_repay now e amount = (e', r) \<Longrightarrow> escrow_step plus_secs e e'"
| check_default: "CreditEscrow_check_default plus_secs now e = Some (e', d) \<Longrightarrow> escrow_step plus_secs e e'"
| dispute: "CreditEscrow_dispute now e reason = (e', r) \<Longrightarrow> escrow_step plus_secs e e'"

inductive escrow_reachable :: "(datetime \<Rightarrow> int \<Rightarrow> datetime option) \<Rightarrow> CreditEscrow \<Rightarrow> bool"
  for plus_secs where
  created: "escrow_reachable plus_secs (CreditEscrow_create escrow_id now lender borrower terms)"
| step: "escrow_reachable plus_secs e \<Longrightarrow> escrow_step plus_secs e e' \<Longrightarrow> escrow_reachable plus_secs e'"

inductive_cases escrow_stepE: "escrow_step plus_secs e e'"

text \<open>
  The invariant: what is released was funded, what was funded is within the principal, what is
  repaid is within what is owed, and each status says how far the escrow has come.
\<close>

definition amounts_ok :: "CreditEscrow \<Rightarrow> bool" where
  "amounts_ok e \<longleftrightarrow>
     ce_principal e = ct_principal (ce_terms e) \<and> ce_released_amount e \<le> ce_funded_amount e \<and>
     ce_funded_amount e \<le> ce_principal e \<and> ce_repaid_amount e \<le> ct_total_owed (ce_terms e)"

definition status_ok :: "CreditEscrow \<Rightarrow> bool" where
  "status_ok e \<longleftrightarrow> (case ce_status e of
       Pending \<Rightarrow> ce_released_amount e = 0 \<and> ce_repaid_amount e = 0
     | Funded \<Rightarrow> ce_funded_amount e = ce_principal e \<and> ce_released_amount e = 0 \<and> ce_repaid_amount e = 0
     | Active \<Rightarrow> ce_funded_amount e = ce_principal e \<and>
         (ce_repaid_amount e \<noteq> ct_total_owed (ce_terms e) \<or> ct_total_owed (ce_terms e) = 0)
     | Completed \<Rightarrow> ce_funded_amount e = ce_principal e \<and> ce_repaid_amount e = ct_total_owed (ce_terms e)
     | Defaulted \<Rightarrow> ce_funded_amount e = ce_principal e \<and> ce_repaid_amount e \<noteq> ct_total_owed (ce_terms e)
     | Disputed \<Rightarrow> True)"

definition escrow_inv :: "CreditEscrow \<Rightarrow> bool" where
  "escrow_inv e \<longleftrightarrow> amounts_ok e \<and> status_ok e"

text \<open>Adding at most what is left neither overflows nor passes the limit.\<close>

lemma add_within:
  fixes a b c :: u64
  assumes "a \<le> c" and "b \<le> c - a"
  shows "checked_sub c a = Some (c - a)" and "checked_add a b = Some (a + b)"
    and "a + b \<le> c" and "a \<le> a + b" and "unat (a + b) = unat a + unat b"
    and "a + b = c \<longleftrightarrow> b = c - a"
proof -
  have "unat b \<le> unat c - unat a" "unat a \<le> unat c"
    using assms by (simp_all add: word_le_nat_alt unat_minus_le)
  then have le: "unat a + unat b \<le> unat c" by linarith
  then have lt: "unat a + unat b < 2 ^ 64" using unat_less_64 [of c] by linarith
  show "checked_sub c a = Some (c - a)" using assms(1) by (simp add: checked_sub_def)
  show "checked_add a b = Some (a + b)" using lt by (simp add: checked_add_def)
  show sum: "unat (a + b) = unat a + unat b" using lt by (intro unat_plus_no_overflow) simp
  show "a + b \<le> c" "a \<le> a + b" using le sum by (simp_all add: word_le_nat_alt)
  show "a + b = c \<longleftrightarrow> b = c - a" by (auto simp: algebra_simps)
qed

lemma fits_iff:
  fixes a b c :: u64
  assumes "a \<le> c"
  shows "c - a < b \<longleftrightarrow> \<not> unat a + unat b \<le> unat c"
    and "unat a + unat b \<le> unat c \<Longrightarrow> unat (a + b) = unat a + unat b"
proof -
  show "c - a < b \<longleftrightarrow> \<not> unat a + unat b \<le> unat c"
    unfolding word_less_nat_alt unat_minus_le [OF assms]
    using assms [unfolded word_le_nat_alt] by linarith
  show "unat (a + b) = unat a + unat b" if "unat a + unat b \<le> unat c"
    using that unat_less_64 [of c] by (intro unat_plus_no_overflow) simp
qed

text \<open>Each call is a step, also when it fails.\<close>

lemma step_of:
  "escrow_step plus_secs e (fst (CreditEscrow_fund now e amount))"
  "escrow_step plus_secs e (fst (CreditEscrow_release_to_borrower now e amount))"
  "escrow_step plus_secs e (fst (CreditEscrow_repay now e amount))"
  "escrow_step plus_secs e (fst (CreditEscrow_dispute now e reason))"
  by (rule escrow_step.intros, rule prod.collapse [symmetric])+

section \<open>Effect of the operations on consistent escrows\<close>

lemma escrow_invD:
  assumes "escrow_inv e"
  shows "ct_principal (ce_terms e) = ce_principal e" "ce_released_amount e \<le> ce_funded_amount e"
    "ce_funded_amount e \<le> ce_principal e" "ce_repaid_amount e \<le> ct_total_owed (ce_terms e)"
    "status_ok e"
  using assms unfolding escrow_inv_def amounts_ok_def by argo+

lemma fund_eq:
  assumes "escrow_inv e"
  shows "CreditEscrow_fund now e amount =
     (if ce_status e \<noteq> Pending
      then (e, Err (InvalidState (EscrowStatus_fmt (ce_status e)) ''Pending''))
      else if amount > ce_principal e - ce_funded_amount e
      then (e, Err (Overfunded amount (ce_principal e - ce_funded_amount e)))
      else (e\<lparr>ce_funded_amount := ce_funded_amount e + amount,
              ce_status := (if ce_funded_amount e + amount = ce_principal e then Funded else ce_status e),
              ce_updated_at := now\<rparr>, Ok ()))"
proof -
  define r where "r = ce_principal e - ce_funded_amount e"
  have le: "ce_funded_amount e \<le> ce_principal e"
    by (rule escrow_invD [OF assms])
  note within = add_within [OF le, of amount, folded r_def]
  have sub: "checked_sub (ce_principal e) (ce_funded_amount e) = Some r"
    using le by (simp add: checked_sub_def r_def)
  show ?thesis
  proof (cases "amount \<le> r")
    case True
    note add = within(2) [OF True]
    from True have "\<not> r < amount" by simp
    then show ?thesis
      unfolding CreditEscrow_fund_def sub r_def [symmetric] add option.case by (simp add: Let_def)
  next
    case False
    then have "r < amount" by simp
    then show ?thesis unfolding CreditEscrow_fund_def sub r_def [symmetric] option.case by simp
  qed
qed

lemma release_eq:
  assumes "escrow_inv e"
  shows "CreditEscrow_release_to_borrower now e amount =
     (if ce_status e \<noteq> Funded \<and> ce_status e \<noteq> Active
      then (e, Err (InvalidState (EscrowStatus_fmt (ce_status e)) ''Funded or Active''))
      else if amount > ce_funded_amount e - ce_released_amount e
      then (e, Err (InsufficientEscrowed amount (ce_funded_amount e - ce_released_amount e)))
      else (e\<lparr>ce_released_amount := ce_released_amount e + amount, ce_status := Active,
              ce_updated_at := now\<rparr>, Ok ()))"
proof -
  define r where "r = ce_funded_amount e - ce_released_amount e"
  have le: "ce_released_amount e \<le> ce_funded_amount e"
    by (rule escrow_invD [OF assms])
  note within = add_within [OF le, of amount, folded r_def]
  have sub: "checked_sub (ce_funded_amount e) (ce_released_amount e) = Some r"
    using le by (simp add: checked_sub_def r_def)
  show ?thesis
  proof (cases "amount \<le> r")
    case True
    note add = within(2) [OF True]
    from True have "\<not> r < amount" by simp
    then show ?thesis
      unfolding CreditEscrow_release_to_borrower_def sub r_def [symmetric] add option.case by (simp add: Let_def)
  next
    case False
    then have "r < amount" by simp
    then show ?thesis unfolding CreditEscrow_release_to_borrower_def sub r_def [symmetric] option.case by simp
  qed
qed

lemma repay_eq:
  assumes "escrow_inv e"
  shows "CreditEscrow_repay now e amount =
     (if ce_status e \<noteq> Active
      then (e, Err (InvalidState (EscrowStatus_fmt (ce_status e)) ''Active''))
      else if amount > ct_total_owed (ce_terms e) - ce_repaid_amount e
      then (e, Err (Overpayment amount (ct_total_owed (ce_terms e) - ce_repaid_amount e)))
      else (e\<lparr>ce_repaid_amount := ce_repaid_amount e + amount,
              ce_status := (if ce_repaid_amount e + amount = ct_total_owed (ce_terms e)
                            then Completed else ce_status e),
              ce_updated_at := now\<rparr>, Ok ()))"
proof -
  define r where "r = ct_total_owed (ce_terms e) - ce_repaid_amount e"
  have le: "ce_repaid_amount e \<le> ct_total_owed (ce_terms e)"
    by (rule escrow_invD [OF assms])
  note within = add_within [OF le, of amount, folded r_def]
  have sub: "checked_sub (ct_total_owed (ce_terms e)) (ce_repaid_amount e) = Some r"
    using le by (simp add: checked_sub_def r_def)
  show ?thesis
  proof (cases "amount \<le> r")
    case True
    note add = within(2) [OF True]
    have ge: "ct_total_owed (ce_terms e) \<le> ce_repaid_amount e + amount \<longleftrightarrow>
        ce_repaid_amount e + amount = ct_total_owed (ce_terms e)"
      using within(3) [OF True] by auto
    from True have "\<not> r < amount" by simp
    then show ?thesis
      unfolding CreditEscrow_repay_def sub r_def [symmetric] add option.case by (simp add: Let_def ge)
  next
    case False
    then have "r < amount" by simp
    then show ?thesis unfolding CreditEscrow_repay_def sub r_def [symmetric] option.case by simp
  qed
qed

lemmas escrow_eqs = fund_eq release_eq repay_eq

lemma fund_inv:
  assumes "escrow_inv e"
  shows "escrow_inv (fst (CreditEscrow_fund now e amount))"
proof (cases "amount \<le> ce_principal e - ce_funded_amount e")
  case True
  have "ce_funded_amount e \<le> ce_principal e"
    by (rule escrow_invD [OF assms])
  note within = add_within(3,4) [OF this True]
  show ?thesis
    unfolding fund_eq [OF assms]
    using escrow_invD [OF assms] True within
    by (cases "ce_status e") (simp_all add: escrow_inv_def amounts_ok_def status_ok_def not_less)
next
  case False
  then show ?thesis using assms unfolding fund_eq [OF assms] by (simp add: not_le)
qed

lemma release_inv:
  assumes "escrow_inv e"
  shows "escrow_inv (fst (CreditEscrow_release_to_borrower now e amount))"
proof (cases "amount \<le> ce_funded_amount e - ce_released_amount e")
  case True
  have "ce_released_amount e \<le> ce_funded_amount e"
    by (rule escrow_invD [OF assms])
  note within = add_within(3,4) [OF this True]
  show ?thesis
    unfolding release_eq [OF assms]
    using escrow_invD [OF assms] True within
    by (cases "ce_status e") (simp_all add: escrow_inv_def amounts_ok_def status_ok_def not_less)
next
  case False
  then show ?thesis using assms unfolding release_eq [OF assms] by (simp add: not_le)
qed

lemma repay_inv:
  assumes "escrow_inv e"
  shows "escrow_inv (fst (CreditEscrow_repay now e amount))"
proof (cases "amount \<le> ct_total_owed (ce_terms e) - ce_repaid_amount e")
  case True
  have "ce_repaid_amount e \<le> ct_total_owed (ce_terms e)"
    by (rule escrow_invD [OF assms])
  note within = add_within(3,4) [OF this True]
  show ?thesis
    unfolding repay_eq [OF assms]
    using escrow_invD [OF assms] True within
    by (cases "ce_status e") (simp_all add: escrow_inv_def amounts_ok_def status_ok_def not_less)
next
  case False
  then show ?thesis using assms unfolding repay_eq [OF assms] by (simp add: not_le)
qed

lemma check_default_inv:
  assumes "escrow_inv e" and "CreditEscrow_check_default plus_secs now e = Some (e', d)"
  shows "escrow_inv e'"
proof (cases d)
  case True
  then have "ce_status e = Active" "e' = e\<lparr>ce_status := Defaulted, ce_updated_at := now\<rparr>"
    "ce_repaid_amount e < ct_total_owed (ce_terms e)"
    using assms(2) by (auto simp: CreditEscrow_check_default_def split: if_splits option.splits)
  then show ?thesis
    using escrow_invD [OF assms(1)] by (simp add: escrow_inv_def amounts_ok_def status_ok_def)
next
  case False
  then show ?thesis
    using assms by (auto simp: CreditEscrow_check_default_def split: if_splits option.splits)
qed

lemma dispute_inv: "escrow_inv e \<Longrightarrow> escrow_inv (fst (CreditEscrow_dispute now e reason))"
  using escrow_invD [of e]
  by (simp add: CreditEscrow_dispute_def) (simp add: escrow_inv_def amounts_ok_def status_ok_def)

lemma create_inv: "escrow_inv (CreditEscrow_create escrow_id now lender borrower terms)"
  by (simp add: CreditEscrow_create_def escrow_inv_def amounts_ok_def status_ok_def)

lemma step_inv: "escrow_inv e \<Longrightarrow> escrow_step plus_secs e e' \<Longrightarrow> escrow_inv e'"
  by (erule escrow_stepE)
    (metis fund_inv release_inv repay_inv dispute_inv check_default_inv fst_conv)+

lemma reachable_inv: "escrow_reachable plus_secs e \<Longrightarrow> escrow_inv e"
  by (induction rule: escrow_reachable.induct) (auto intro: create_inv step_inv)

section \<open>Properties\<close>

text \<open>Sample escrow: principal 100, owed 110, deadline 50, no grace period; \<open>plus_secs\<close> counts in
  nanoseconds and never overflows.\<close>

definition demo_plus :: "datetime \<Rightarrow> int \<Rightarrow> datetime option" where
  "demo_plus d s = Some (d + s * 1000000000)"

definition demo_terms :: CreditTerms where
  "demo_terms = \<lparr>ct_principal = 100, ct_interest_rate_bps = 1000, ct_total_owed = 110,
     ct_repayment_deadline = 50, ct_grace_period_secs = 0\<rparr>"

definition demo_escrow :: CreditEscrow where
  "demo_escrow = CreditEscrow_create ''id'' 0 ''lender'' ''borrower'' demo_terms"

definition demo_active :: CreditEscrow where
  "demo_active = fst (CreditEscrow_release_to_borrower 2 (fst (CreditEscrow_fund 1 demo_escrow 100)) 40)"

lemma demo_reachable:
  "escrow_reachable demo_plus demo_escrow" "escrow_reachable demo_plus demo_active"
proof -
  show c: "escrow_reachable demo_plus demo_escrow"
    unfolding demo_escrow_def by (rule escrow_reachable.created)
  show "escrow_reachable demo_plus demo_active"
    unfolding demo_active_def
    by (rule escrow_reachable.step [OF escrow_reachable.step [OF c step_of(1)] step_of(2)])
qed

lemma demo_active_eq:
  "demo_active = demo_escrow\<lparr>ce_funded_amount := 100, ce_released_amount := 40,
     ce_status := Active, ce_updated_at := 2\<rparr>"
  by (simp add: demo_active_def demo_escrow_def CreditEscrow_create_def demo_terms_def
      CreditEscrow_fund_def CreditEscrow_release_to_borrower_def checked_sub_def checked_add_def)

text \<open>
  C11. Invariant of the escrow: in every state reachable from creation by any sequence of calls, also
  failed ones, at any times, released \<open>\<le>\<close> funded \<open>\<le>\<close> principal and repaid \<open>\<le>\<close> total owed hold; before
  the first release nothing is repaid; a funded, active, completed or defaulted escrow holds the
  full principal; a completed one is repaid in full and a defaulted one is not.
\<close>
theorem escrow_reachable_invariant:
  assumes "escrow_reachable plus_secs e"
  shows "ce_released_amount e \<le> ce_funded_amount e \<and> ce_funded_amount e \<le> ct_principal (ce_terms e) \<and>
     ce_repaid_amount e \<le> ct_total_owed (ce_terms e) \<and>
     (ce_status e \<in> {Pending, Funded} \<longrightarrow> ce_released_amount e = 0 \<and> ce_repaid_amount e = 0) \<and>
     (ce_status e \<in> {Funded, Active, Completed, Defaulted} \<longrightarrow>
        ce_funded_amount e = ct_principal (ce_terms e)) \<and>
     (ce_status e = Completed \<longrightarrow> ce_repaid_amount e = ct_total_owed (ce_terms e)) \<and>
     (ce_status e = Defaulted \<longrightarrow> ce_repaid_amount e < ct_total_owed (ce_terms e))"
proof -
  note inv = escrow_invD [OF reachable_inv [OF assms]]
  have "ce_funded_amount e \<le> ct_principal (ce_terms e)" using inv(1,3) by simp
  moreover have "ce_status e = Defaulted \<Longrightarrow> ce_repaid_amount e < ct_total_owed (ce_terms e)"
    using inv(4,5) by (simp add: status_ok_def order_less_le)
  ultimately show ?thesis
    using inv(1,2,4,5) by (cases "ce_status e") (simp_all add: status_ok_def)
qed

theorem escrow_reachable_invariant_witness:
  "ce_status demo_active = Active \<and> ce_released_amount demo_active = 40 \<and>
   ce_released_amount demo_active \<le> ce_funded_amount demo_active \<and>
   ce_funded_amount demo_active = ct_principal (ce_terms demo_active)"
  using escrow_reachable_invariant [OF demo_reachable(2)] by (simp add: demo_active_eq)

text \<open>
  C12. The three money operations are exact: on a reachable escrow each succeeds exactly in the right
  status and when the amount is within what remains, then adds exactly the amount (no
  wrap-around) and touches no other amount; otherwise the escrow is unchanged. The overflow error
  the code guards against never occurs.
\<close>
theorem escrow_operations_exact:
  assumes "escrow_reachable plus_secs e"
  shows "(case CreditEscrow_fund now e amount of (e', r) \<Rightarrow>
       (r = Ok () \<longleftrightarrow> ce_status e = Pending \<and>
          unat (ce_funded_amount e) + unat amount \<le> unat (ce_principal e)) \<and>
       (r = Ok () \<longrightarrow> unat (ce_funded_amount e') = unat (ce_funded_amount e) + unat amount \<and>
          ce_released_amount e' = ce_released_amount e \<and> ce_repaid_amount e' = ce_repaid_amount e) \<and>
       (r \<noteq> Ok () \<longrightarrow> e' = e) \<and> r \<noteq> Err AmountOverflow) \<and>
     (case CreditEscrow_release_to_borrower now e amount of (e', r) \<Rightarrow>
       (r = Ok () \<longleftrightarrow> ce_status e \<in> {Funded, Active} \<and>
          unat (ce_released_amount e) + unat amount \<le> unat (ce_funded_amount e)) \<and>
       (r = Ok () \<longrightarrow> unat (ce_released_amount e') = unat (ce_released_amount e) + unat amount \<and>
          ce_funded_amount e' = ce_funded_amount e \<and> ce_repaid_amount e' = ce_repaid_amount e) \<and>
       (r \<noteq> Ok () \<longrightarrow> e' = e) \<and> r \<noteq> Err AmountOverflow) \<and>
     (case CreditEscrow_repay now e amount of (e', r) \<Rightarrow>
       (r = Ok () \<longleftrightarrow> ce_status e = Active \<and>
          unat (ce_repaid_amount e) + unat amount \<le> unat (ct_total_owed (ce_terms e))) \<and>
       (r = Ok () \<longrightarrow> unat (ce_repaid_amount e') = unat (ce_repaid_amount e) + unat amount \<and>
          ce_funded_amount e' = ce_funded_amount e \<and> ce_released_amount e' = ce_released_amount e) \<and>
       (r \<noteq> Ok () \<longrightarrow> e' = e) \<and> r \<noteq> Err AmountOverflow)"
proof -
  note inv = reachable_inv [OF assms]
  note D = escrow_invD [OF inv]
  show ?thesis
    unfolding escrow_eqs [OF inv] fits_iff(1) [OF D(3)] fits_iff(1) [OF D(2)] fits_iff(1) [OF D(4)]
    by (simp add: fits_iff(2) [OF D(3)] fits_iff(2) [OF D(2)] fits_iff(2) [OF D(4)])
qed

theorem escrow_operations_exact_witness:
  "snd (CreditEscrow_repay 3 demo_active 110) = Ok () \<and> snd (CreditEscrow_repay 3 demo_active 111) \<noteq> Ok ()"
proof -
  note exact = escrow_operations_exact [OF demo_reachable(2), where now = 3, THEN conjunct2, THEN conjunct2]
  show ?thesis
    using exact [of 110] exact [of 111]
    by (simp add: case_prod_beta demo_active_eq demo_escrow_def CreditEscrow_create_def demo_terms_def)
qed

text \<open>
  Finality: a completed, defaulted or disputed escrow is never changed again by any call.
\<close>
lemma escrow_terminal:
  assumes "ce_status e \<in> {Completed, Defaulted, Disputed}" and "(escrow_step plus_secs)\<^sup>*\<^sup>* e e'"
  shows "e' = e"
  using assms(2,1)
proof (induction rule: rtranclp_induct)
  case (step y z)
  then have "y = e" by simp
  with step.hyps(2) step.prems show ?case
    by (auto simp: escrow_defs elim!: escrow_stepE)
qed simp

text \<open>
  Progress: from every reachable escrow that is not yet final there is a sequence of calls (fund the
  rest, release, repay the rest) that completes it; no funding or repayment history blocks it.
\<close>
lemma escrow_can_complete:
  assumes "escrow_reachable plus_secs e" and "ce_status e \<in> {Pending, Funded, Active}"
  shows "\<exists>e'. (escrow_step plus_secs)\<^sup>*\<^sup>* e e' \<and> ce_status e' = Completed"
proof -
  have active: "\<exists>e'. (escrow_step plus_secs)\<^sup>*\<^sup>* x e' \<and> ce_status e' = Completed"
    if "escrow_inv x" "ce_status x = Active" for x
  proof -
    let ?a = "ct_total_owed (ce_terms x) - ce_repaid_amount x"
    have "ce_status (fst (CreditEscrow_repay 0 x ?a)) = Completed"
      unfolding repay_eq [OF that(1)] using that(2) by simp
    with step_of(3) [of plus_secs x 0 ?a] show ?thesis by blast
  qed
  have funded: "\<exists>e'. (escrow_step plus_secs)\<^sup>*\<^sup>* x e' \<and> ce_status e' = Completed"
    if "escrow_inv x" "ce_status x = Funded" for x
  proof -
    let ?y = "fst (CreditEscrow_release_to_borrower 0 x 0)"
    have "escrow_step plus_secs x ?y" by (rule step_of)
    moreover have "ce_status ?y = Active"
      unfolding release_eq [OF that(1)] using that(2) by simp
    ultimately show ?thesis
      using active release_inv [OF that(1)] by (meson converse_rtranclp_into_rtranclp)
  qed
  have pending: "\<exists>e'. (escrow_step plus_secs)\<^sup>*\<^sup>* x e' \<and> ce_status e' = Completed"
    if "escrow_inv x" "ce_status x = Pending" for x
  proof -
    let ?a = "ce_principal x - ce_funded_amount x" let ?y = "fst (CreditEscrow_fund 0 x ?a)"
    have "escrow_step plus_secs x ?y" by (rule step_of)
    moreover have "ce_status ?y = Funded"
      unfolding fund_eq [OF that(1)] using that(2) by simp
    ultimately show ?thesis
      using funded fund_inv [OF that(1)] by (meson converse_rtranclp_into_rtranclp)
  qed
  show ?thesis using active funded pending reachable_inv [OF assms(1)] assms(2) by blast
qed

text \<open>
  The grace period is reinterpreted as a signed number: a period of \<open>2 ^ 64 - 1\<close> seconds moves the
  effective deadline one second before the agreed one.
\<close>
lemma grace_period_wraps:
  "CreditEscrow_check_default demo_plus 49
     (demo_active\<lparr>ce_terms := demo_terms\<lparr>ct_grace_period_secs := - 1\<rparr>\<rparr>)
   = Some (demo_active\<lparr>ce_terms := demo_terms\<lparr>ct_grace_period_secs := - 1\<rparr>, ce_status := Defaulted,
       ce_updated_at := 49\<rparr>, True)"
  by (simp add: CreditEscrow_check_default_def demo_active_eq demo_escrow_def CreditEscrow_create_def
      demo_terms_def demo_plus_def)

end
