(* ===== verification/Dispute_Resolution.thy ===== *)
theory Dispute_Resolution
  imports Nova_Prelude
begin

text \<open>
  The dispute contract, \<open>contracts/src/dispute_resolution.rs\<close>: opening, evidence, resolution and
  cancellation as functions on the record, with the clock and the fresh UUID as arguments. The
  lemmas give the invariant of the reachable disputes, who may do what, and that a closed dispute
  is final.
\<close>

section \<open>Types\<close>

datatype DisputeError =
    DisputeInvalidState string string
  | Unauthorized string
  | InvalidArbiterSignature
  | InvalidResolution string
  | AlreadyResolved

datatype DisputeStatus = Open | UnderReview | ResolvedForInitiator | ResolvedForRespondent | Cancelled

fun DisputeStatus_fmt :: "DisputeStatus \<Rightarrow> string" where
  "DisputeStatus_fmt Open = ''Open''"
| "DisputeStatus_fmt UnderReview = ''UnderReview''"
| "DisputeStatus_fmt ResolvedForInitiator = ''ResolvedForInitiator''"
| "DisputeStatus_fmt ResolvedForRespondent = ''ResolvedForRespondent''"
| "DisputeStatus_fmt Cancelled = ''Cancelled''"

datatype Resolution = ForInitiator | ForRespondent

record Evidence =
  ev_submitted_by :: string
  ev_description :: string
  ev_data_hash :: string
  ev_timestamp :: datetime

record Dispute =
  dp_id :: string
  dp_escrow_id :: string
  dp_initiator :: string
  dp_respondent :: string
  dp_reason :: string
  dp_evidence :: "Evidence list"
  dp_status :: DisputeStatus
  dp_created_at :: datetime
  dp_resolved_at :: "datetime option"

section \<open>Operations\<close>

definition Dispute_create ::
  "string \<Rightarrow> datetime \<Rightarrow> string \<Rightarrow> string \<Rightarrow> string \<Rightarrow> string \<Rightarrow> Dispute" where
  "Dispute_create did now escrow_id initiator respondent reason =
     \<lparr>dp_id = did, dp_escrow_id = escrow_id, dp_initiator = initiator, dp_respondent = respondent,
      dp_reason = reason, dp_evidence = [], dp_status = Open, dp_created_at = now,
      dp_resolved_at = None\<rparr>"

definition Dispute_submit_evidence ::
  "datetime \<Rightarrow> Dispute \<Rightarrow> string \<Rightarrow> string \<Rightarrow> string \<Rightarrow> Dispute \<times> (unit, DisputeError) result" where
  "Dispute_submit_evidence now d party description data_hash =
     (if party \<noteq> dp_initiator d \<and> party \<noteq> dp_respondent d then (d, Err (Unauthorized party))
      else if dp_status d \<notin> {Open, UnderReview}
      then (d, Err (DisputeInvalidState (DisputeStatus_fmt (dp_status d)) ''Open or UnderReview''))
      else let d = d\<lparr>dp_evidence := dp_evidence d @
                 [\<lparr>ev_submitted_by = party, ev_description = description,
                   ev_data_hash = data_hash, ev_timestamp = now\<rparr>]\<rparr>;
               d = (if dp_status d = Open then d\<lparr>dp_status := UnderReview\<rparr> else d)
           in (d, Ok ()))"

definition Dispute_resolve ::
  "datetime \<Rightarrow> Dispute \<Rightarrow> Resolution \<Rightarrow> string \<Rightarrow> Dispute \<times> (unit, DisputeError) result" where
  "Dispute_resolve now d resolution arbiter_signature =
     (if dp_status d = ResolvedForInitiator \<or> dp_status d = ResolvedForRespondent
      then (d, Err AlreadyResolved)
      else if dp_status d \<notin> {Open, UnderReview}
      then (d, Err (DisputeInvalidState (DisputeStatus_fmt (dp_status d)) ''Open or UnderReview''))
      else if arbiter_signature = [] then (d, Err InvalidArbiterSignature)
      else (d\<lparr>dp_status := (case resolution of ForInitiator \<Rightarrow> ResolvedForInitiator
                                            | ForRespondent \<Rightarrow> ResolvedForRespondent),
              dp_resolved_at := Some now\<rparr>, Ok ()))"

definition Dispute_cancel ::
  "datetime \<Rightarrow> Dispute \<Rightarrow> string \<Rightarrow> Dispute \<times> (unit, DisputeError) result" where
  "Dispute_cancel now d caller =
     (if caller \<noteq> dp_initiator d then (d, Err (Unauthorized caller))
      else if dp_status d \<notin> {Open, UnderReview}
      then (d, Err (DisputeInvalidState (DisputeStatus_fmt (dp_status d)) ''Open or UnderReview''))
      else (d\<lparr>dp_status := Cancelled, dp_resolved_at := Some now\<rparr>, Ok ()))"

lemmas dispute_defs = Dispute_submit_evidence_def Dispute_resolve_def Dispute_cancel_def

section \<open>Reachable disputes\<close>

inductive dispute_step :: "Dispute \<Rightarrow> Dispute \<Rightarrow> bool" where
  evidence: "Dispute_submit_evidence now d party desc h = (d', r) \<Longrightarrow> dispute_step d d'"
| resolve: "Dispute_resolve now d res sig = (d', r) \<Longrightarrow> dispute_step d d'"
| cancel: "Dispute_cancel now d caller = (d', r) \<Longrightarrow> dispute_step d d'"

inductive_cases dispute_stepE: "dispute_step d d'"

definition dispute_inv :: "Dispute \<Rightarrow> bool" where
  "dispute_inv d \<longleftrightarrow>
     (dp_status d = Open \<longrightarrow> dp_evidence d = []) \<and>
     (dp_status d = UnderReview \<longrightarrow> dp_evidence d \<noteq> []) \<and>
     (dp_resolved_at d = None \<longleftrightarrow> dp_status d \<in> {Open, UnderReview}) \<and>
     (\<forall>e\<in>set (dp_evidence d). ev_submitted_by e = dp_initiator d \<or> ev_submitted_by e = dp_respondent d)"

lemma dispute_step_inv: "dispute_step d d' \<Longrightarrow> dispute_inv d \<Longrightarrow> dispute_inv d'"
  by (erule dispute_stepE)
    (auto simp: dispute_defs dispute_inv_def Let_def split: if_splits Resolution.splits)

text \<open>What never changes: the parties, and evidence once it is submitted.\<close>

lemma dispute_step_mono:
  "dispute_step d d' \<Longrightarrow> dp_initiator d' = dp_initiator d \<and> dp_respondent d' = dp_respondent d \<and>
     dp_escrow_id d' = dp_escrow_id d \<and> (\<exists>more. dp_evidence d' = dp_evidence d @ more)"
  by (erule dispute_stepE) (auto simp: dispute_defs Let_def split: if_splits)

text \<open>A closed dispute is stuck.\<close>

lemma dispute_closed_final:
  "dp_status d \<in> {ResolvedForInitiator, ResolvedForRespondent, Cancelled} \<Longrightarrow> dispute_step d d' \<Longrightarrow> d' = d"
  by (erule dispute_stepE) (auto simp: dispute_defs split: if_splits)

section \<open>Properties\<close>


definition demo_dispute :: Dispute where
  "demo_dispute = Dispute_create ''d'' 0 ''e'' ''lender'' ''borrower'' ''late''"


text \<open>
  A closed dispute is final and only the entitled may act: on a resolved or cancelled dispute every
  call fails and changes nothing; evidence is accepted only from a party, cancellation only from
  the initiator, and a resolution only with a non-empty signature.
\<close>
lemma dispute_authorisation:
  "(dp_status d \<in> {ResolvedForInitiator, ResolvedForRespondent, Cancelled} \<longrightarrow>
      dispute_step d d' \<longrightarrow> d' = d) \<and>
   (snd (Dispute_submit_evidence now d party desc h) = Ok () \<longleftrightarrow>
      party \<in> {dp_initiator d, dp_respondent d} \<and> dp_status d \<in> {Open, UnderReview}) \<and>
   (snd (Dispute_cancel now d party) = Ok () \<longleftrightarrow>
      party = dp_initiator d \<and> dp_status d \<in> {Open, UnderReview}) \<and>
   (snd (Dispute_resolve now d res sig) = Ok () \<longleftrightarrow>
      sig \<noteq> [] \<and> dp_status d \<in> {Open, UnderReview})"
  using dispute_closed_final [of d d'] by (auto simp: dispute_defs Let_def)

end
