(* ===== verification/Token_Factory.thy ===== *)
theory Token_Factory
  imports Rust_Collections
begin

text \<open>
  The token contract, \<open>contracts/src/token_factory.rs\<close>: registration, mint, burn and the queries over
  the three hash maps of the factory. An \<open>unwrap\<close> that panics is the value \<open>None\<close>. The Unicode case
  mapping of \<open>str::to_uppercase\<close>, the fresh UUID and the clock are arguments. The lemmas show that
  the books balance: for every token the balances add up to the recorded supply.
\<close>

section \<open>Types\<close>

datatype TokenError =
    TokenNotFound string
  | UnauthorizedMint
  | InvalidSignature
  | SupplyOverflow u64
  | InsufficientBalance u64 u64
  | DuplicateSymbol string

type_synonym TokenId = string

datatype TokenType = Utility | Stablecoin | Governance | Reward

fun TokenType_fmt :: "TokenType \<Rightarrow> string" where
  "TokenType_fmt Utility = ''Utility''"
| "TokenType_fmt Stablecoin = ''Stablecoin''"
| "TokenType_fmt Governance = ''Governance''"
| "TokenType_fmt Reward = ''Reward''"

record TokenInfo =
  ti_token_id :: TokenId
  ti_name :: string
  ti_symbol :: string
  ti_decimals :: u8
  ti_token_type :: TokenType
  ti_issuer :: string
  ti_total_supply :: u64
  ti_created_at :: datetime

record TokenFactory =
  tf_tokens :: "(TokenId, TokenInfo) HashMap"
  tf_balances :: "(TokenId, (string, u64) HashMap) HashMap"
  tf_symbol_index :: "(string, TokenId) HashMap"

section \<open>Operations\<close>

definition TokenFactory_new :: TokenFactory where
  "TokenFactory_new = \<lparr>tf_tokens = hm_new, tf_balances = hm_new, tf_symbol_index = hm_new\<rparr>"

definition TokenFactory_create_token ::
  "(string \<Rightarrow> string) \<Rightarrow> TokenId \<Rightarrow> datetime \<Rightarrow> TokenFactory \<Rightarrow> string \<Rightarrow> string \<Rightarrow> u8 \<Rightarrow> TokenType \<Rightarrow> string \<Rightarrow>
     TokenFactory \<times> (TokenId, TokenError) result" where
  "TokenFactory_create_token to_uppercase uuid now f name symbol decimals token_type issuer =
     (let symbol_upper = to_uppercase symbol in
      if hm_get (tf_symbol_index f) symbol_upper \<noteq> None then (f, Err (DuplicateSymbol symbol))
      else
        let token_id = uuid;
            info = \<lparr>ti_token_id = token_id, ti_name = name, ti_symbol = symbol_upper,
                    ti_decimals = decimals, ti_token_type = token_type, ti_issuer = issuer,
                    ti_total_supply = 0, ti_created_at = now\<rparr>
        in (\<lparr>tf_tokens = hm_insert (tf_tokens f) token_id info,
             tf_balances = hm_insert (tf_balances f) token_id hm_new,
             tf_symbol_index = hm_insert (tf_symbol_index f) symbol_upper token_id\<rparr>,
            Ok token_id))"

definition TokenFactory_mint ::
  "TokenFactory \<Rightarrow> TokenId \<Rightarrow> string \<Rightarrow> u64 \<Rightarrow> string \<Rightarrow> (TokenFactory \<times> (unit, TokenError) result) option" where
  "TokenFactory_mint f token_id to amount issuer_signature =
     (if issuer_signature = [] then Some (f, Err InvalidSignature)
      else case hm_get (tf_tokens f) token_id of
        None \<Rightarrow> Some (f, Err (TokenNotFound token_id))
      | Some info \<Rightarrow>
          (case checked_add (ti_total_supply info) amount of
             None \<Rightarrow> Some (f, Err (SupplyOverflow amount))
           | Some new_supply \<Rightarrow>
               let f = f\<lparr>tf_tokens := hm_insert (tf_tokens f) token_id (info\<lparr>ti_total_supply := new_supply\<rparr>)\<rparr>
               in case hm_get (tf_balances f) token_id of
                    None \<Rightarrow> None
                  | Some balances \<Rightarrow>
                      let balance = (case hm_get balances to of Some b \<Rightarrow> b | None \<Rightarrow> 0);
                          balances = hm_insert balances to balance
                      in case checked_add balance amount of
                           None \<Rightarrow> Some (f\<lparr>tf_balances := hm_insert (tf_balances f) token_id balances\<rparr>,
                                         Err (SupplyOverflow amount))
                         | Some b \<Rightarrow> Some (f\<lparr>tf_balances := hm_insert (tf_balances f) token_id
                                                            (hm_insert balances to b)\<rparr>, Ok ())))"

definition TokenFactory_burn ::
  "TokenFactory \<Rightarrow> TokenId \<Rightarrow> string \<Rightarrow> u64 \<Rightarrow> string \<Rightarrow> (TokenFactory \<times> (unit, TokenError) result) option" where
  "TokenFactory_burn f token_id frm amount owner_signature =
     (if owner_signature = [] then Some (f, Err InvalidSignature)
      else case hm_get (tf_tokens f) token_id of
        None \<Rightarrow> Some (f, Err (TokenNotFound token_id))
      | Some info \<Rightarrow>
          (case hm_get (tf_balances f) token_id of
             None \<Rightarrow> Some (f, Err (TokenNotFound token_id))
           | Some balances \<Rightarrow>
               (case hm_get balances frm of
                  None \<Rightarrow> Some (f, Err (InsufficientBalance 0 amount))
                | Some balance \<Rightarrow>
                    if balance < amount then Some (f, Err (InsufficientBalance balance amount))
                    else
                      let f = f\<lparr>tf_balances := hm_insert (tf_balances f) token_id
                                                (hm_insert balances frm (balance - amount))\<rparr>
                      in case hm_get (tf_tokens f) token_id of
                           None \<Rightarrow> None
                         | Some info_mut \<Rightarrow>
                             Some (f\<lparr>tf_tokens := hm_insert (tf_tokens f) token_id
                                      (info_mut\<lparr>ti_total_supply :=
                                         saturating_sub (ti_total_supply info_mut) amount\<rparr>)\<rparr>, Ok ()))))"

definition TokenFactory_get_token_info :: "TokenFactory \<Rightarrow> TokenId \<Rightarrow> TokenInfo option" where
  "TokenFactory_get_token_info f token_id = hm_get (tf_tokens f) token_id"

definition TokenFactory_total_supply :: "TokenFactory \<Rightarrow> TokenId \<Rightarrow> u64" where
  "TokenFactory_total_supply f token_id =
     (case hm_get (tf_tokens f) token_id of Some t \<Rightarrow> ti_total_supply t | None \<Rightarrow> 0)"

definition TokenFactory_balance_of :: "TokenFactory \<Rightarrow> TokenId \<Rightarrow> string \<Rightarrow> u64" where
  "TokenFactory_balance_of f token_id address =
     (case hm_get (tf_balances f) token_id of
        None \<Rightarrow> 0
      | Some b \<Rightarrow> (case hm_get b address of Some x \<Rightarrow> x | None \<Rightarrow> 0))"

definition TokenFactory_token_count :: "TokenFactory \<Rightarrow> nat" where
  "TokenFactory_token_count f = length (hm_iter (tf_tokens f))"

section \<open>The invariant\<close>

definition ledger_total :: "(string, u64) HashMap \<Rightarrow> nat" where
  "ledger_total b = sum_list (map (unat \<circ> snd) (hm_iter b))"

definition token_ok :: "TokenFactory \<Rightarrow> TokenId \<Rightarrow> TokenInfo \<Rightarrow> bool" where
  "token_ok f tid info \<longleftrightarrow>
     ti_token_id info = tid \<and> hm_get (tf_symbol_index f) (ti_symbol info) = Some tid \<and>
     (\<exists>b. hm_get (tf_balances f) tid = Some b \<and> hm_invar b \<and> ledger_total b = unat (ti_total_supply info))"

definition tf_inv :: "TokenFactory \<Rightarrow> bool" where
  "tf_inv f \<longleftrightarrow>
     (\<forall>tid. hm_get (tf_tokens f) tid = None \<longrightarrow> hm_get (tf_balances f) tid = None) \<and>
     (\<forall>tid info. hm_get (tf_tokens f) tid = Some info \<longrightarrow> token_ok f tid info) \<and>
     (\<forall>s tid. hm_get (tf_symbol_index f) s = Some tid \<longrightarrow> hm_get (tf_tokens f) tid \<noteq> None)"

lemma ledger_total_new [simp]: "ledger_total hm_new = 0"
  by (simp add: ledger_total_def hm_defs)

lemma ledger_entry_le: "hm_invar b \<Longrightarrow> hm_get b a = Some x \<Longrightarrow> unat x \<le> ledger_total b"
  using hm.entry_le_sum [of b a x "unat \<circ> snd"] by (simp add: ledger_total_def)

lemma ledger_total_insert:
  assumes "hm_invar b"
  shows "unat (case hm_get b a of Some x \<Rightarrow> x | None \<Rightarrow> 0) + ledger_total (hm_insert b a y) = unat y + ledger_total b"
proof (cases "hm_get b a")
  case None
  then show ?thesis
    using hm.sum_insert_new [OF assms None, of "unat \<circ> snd" y] by (simp add: ledger_total_def)
next
  case (Some x)
  then show ?thesis
    using hm.sum_insert_old [OF assms Some, of "unat \<circ> snd" y] by (simp add: ledger_total_def)
qed

lemma hm_insert_twice: "hm_insert (hm_insert m k v) k w = hm_insert m k w"
  by (induction m) (auto simp: hm_insert_def)

lemma tf_invD:
  assumes "tf_inv f" and "hm_get (tf_tokens f) tid = Some info"
  obtains b where "ti_token_id info = tid" "hm_get (tf_symbol_index f) (ti_symbol info) = Some tid"
    "hm_get (tf_balances f) tid = Some b" "hm_invar b" "ledger_total b = unat (ti_total_supply info)"
  using assms unfolding tf_inv_def token_ok_def by blast

lemma tf_new_inv: "tf_inv TokenFactory_new"
  by (simp add: tf_inv_def TokenFactory_new_def)

lemma tf_create_inv:
  assumes "tf_inv f" and "TokenFactory_create_token up uuid now f name smb dec tt iss = (f', r)"
  shows "tf_inv f'"
proof (cases "hm_get (tf_symbol_index f) (up smb)")
  case None
  then have "\<And>tid info. hm_get (tf_tokens f) tid = Some info \<Longrightarrow> ti_symbol info \<noteq> up smb"
    using tf_invD [OF assms(1)] by (metis option.distinct(1))
  with None show ?thesis
    using assms by (auto simp: TokenFactory_create_token_def tf_inv_def token_ok_def Let_def split: if_splits)
next
  case (Some t)
  then show ?thesis using assms by (simp add: TokenFactory_create_token_def Let_def)
qed

text \<open>Replacing the supply and the ledger of one token by matching ones keeps the invariant.\<close>

lemma tf_update_inv:
  assumes "tf_inv f" and "hm_get (tf_tokens f) tid = Some info"
    and "hm_invar b" and "ledger_total b = unat s"
  shows "tf_inv (f\<lparr>tf_tokens := hm_insert (tf_tokens f) tid (info\<lparr>ti_total_supply := s\<rparr>),
                  tf_balances := hm_insert (tf_balances f) tid b\<rparr>)"
  using assms by (auto simp: tf_inv_def token_ok_def)

text \<open>Minting: what happens on each path, with no panic and no half-done update.\<close>

lemma mint_cases:
  assumes inv: "tf_inv f"
  shows "TokenFactory_mint f tid to amount sig =
     (if sig = [] then Some (f, Err InvalidSignature)
      else case hm_get (tf_tokens f) tid of
        None \<Rightarrow> Some (f, Err (TokenNotFound tid))
      | Some info \<Rightarrow>
          if 2 ^ 64 \<le> unat (ti_total_supply info) + unat amount then Some (f, Err (SupplyOverflow amount))
          else Some (f\<lparr>tf_tokens := hm_insert (tf_tokens f) tid
                         (info\<lparr>ti_total_supply := ti_total_supply info + amount\<rparr>),
                       tf_balances := hm_insert (tf_balances f) tid
                         (hm_insert (the (hm_get (tf_balances f) tid)) to
                            (TokenFactory_balance_of f tid to + amount))\<rparr>, Ok ()))"
proof (cases "hm_get (tf_tokens f) tid")
  case None
  then show ?thesis by (simp add: TokenFactory_mint_def)
next
  case (Some info)
  from tf_invD [OF inv Some] obtain b where b: "hm_get (tf_balances f) tid = Some b"
    "hm_invar b" "ledger_total b = unat (ti_total_supply info)" by metis
  let ?x = "case hm_get b to of Some x \<Rightarrow> x | None \<Rightarrow> 0"
  have le: "unat ?x \<le> unat (ti_total_supply info)"
    using ledger_entry_le [OF b(2)] b(3) by (auto split: option.splits)
  show ?thesis
  proof (cases "2 ^ 64 \<le> unat (ti_total_supply info) + unat amount")
    case True
    then show ?thesis using Some by (simp add: TokenFactory_mint_def checked_add_def)
  next
    case False
    then have "checked_add ?x amount = Some (?x + amount)"
      using le by (simp add: checked_add_def)
    then show ?thesis
      using Some False b(1)
      by (simp add: TokenFactory_mint_def checked_add_def Let_def TokenFactory_balance_of_def
          hm_insert_twice)
  qed
qed

lemma burn_cases:
  assumes inv: "tf_inv f"
  shows "TokenFactory_burn f tid frm amount sig =
     (if sig = [] then Some (f, Err InvalidSignature)
      else case hm_get (tf_tokens f) tid of
        None \<Rightarrow> Some (f, Err (TokenNotFound tid))
      | Some info \<Rightarrow>
          (case hm_get (the (hm_get (tf_balances f) tid)) frm of
             None \<Rightarrow> Some (f, Err (InsufficientBalance 0 amount))
           | Some balance \<Rightarrow>
               if balance < amount then Some (f, Err (InsufficientBalance balance amount))
               else Some (f\<lparr>tf_tokens := hm_insert (tf_tokens f) tid
                              (info\<lparr>ti_total_supply := ti_total_supply info - amount\<rparr>),
                            tf_balances := hm_insert (tf_balances f) tid
                              (hm_insert (the (hm_get (tf_balances f) tid)) frm (balance - amount))\<rparr>, Ok ())))"
proof (cases "hm_get (tf_tokens f) tid")
  case None
  then show ?thesis by (simp add: TokenFactory_burn_def)
next
  case (Some info)
  from tf_invD [OF inv Some] obtain b where b: "hm_get (tf_balances f) tid = Some b"
    "hm_invar b" "ledger_total b = unat (ti_total_supply info)" by metis
  show ?thesis
  proof (cases "hm_get b frm")
    case None
    then show ?thesis using Some b(1) by (simp add: TokenFactory_burn_def)
  next
    case (Some x)
    have "unat x \<le> unat (ti_total_supply info)" using ledger_entry_le [OF b(2) Some] b(3) by simp
    then have "\<not> x < amount \<Longrightarrow> saturating_sub (ti_total_supply info) amount = ti_total_supply info - amount"
      by (auto simp: saturating_sub_def word_less_nat_alt word_le_nat_alt)
    then show ?thesis
      using Some b(1) \<open>hm_get (tf_tokens f) tid = Some info\<close>
      by (simp add: TokenFactory_burn_def Let_def)
  qed
qed

lemma mint_ledger:
  assumes "hm_invar b" and "ledger_total b = unat s" and "unat s + unat amount < 2 ^ 64"
  shows "ledger_total (hm_insert b a ((case hm_get b a of Some x \<Rightarrow> x | None \<Rightarrow> 0) + amount)) = unat (s + (amount :: u64))"
proof -
  let ?x = "case hm_get b a of Some x \<Rightarrow> x | None \<Rightarrow> 0"
  have "unat ?x \<le> unat s"
    using ledger_entry_le [OF assms(1)] assms(2) by (auto split: option.splits)
  then have "unat (?x + amount) = unat ?x + unat amount" and "unat (s + amount) = unat s + unat amount"
    using assms(3) by (simp_all add: unat_plus_no_overflow)
  then show ?thesis using ledger_total_insert [OF assms(1), of a "?x + amount"] assms(2) by simp
qed

lemma burn_ledger:
  assumes "hm_invar b" and "ledger_total b = unat s" and "hm_get b a = Some x" and "\<not> x < (amount :: u64)"
  shows "ledger_total (hm_insert b a (x - amount)) = unat (s - amount)"
proof -
  have le: "amount \<le> x" using assms(4) by simp
  have "unat x \<le> unat s" using ledger_entry_le [OF assms(1,3)] assms(2) by simp
  then have "amount \<le> s" using le by (simp add: word_le_nat_alt)
  then have "unat (x - amount) = unat x - unat amount" "unat (s - amount) = unat s - unat amount"
    using le by (simp_all add: unat_sub)
  moreover have "unat amount \<le> unat x" using le by (simp add: word_le_nat_alt)
  ultimately show ?thesis
    using ledger_total_insert [OF assms(1), of a "x - amount"] assms(2,3) by simp
qed

lemma tf_mint_inv:
  assumes inv: "tf_inv f" and m: "TokenFactory_mint f tid to amount sig = Some (f', r)"
  shows "tf_inv f'"
proof (cases "f' = f")
  case False
  then obtain info where info: "hm_get (tf_tokens f) tid = Some info"
    and fits: "unat (ti_total_supply info) + unat amount < 2 ^ 64"
    and f': "f' = f\<lparr>tf_tokens := hm_insert (tf_tokens f) tid
                         (info\<lparr>ti_total_supply := ti_total_supply info + amount\<rparr>),
                       tf_balances := hm_insert (tf_balances f) tid
                         (hm_insert (the (hm_get (tf_balances f) tid)) to
                            (TokenFactory_balance_of f tid to + amount))\<rparr>"
    using m by (auto simp: mint_cases [OF inv] split: if_splits option.splits)
  obtain b where b: "hm_get (tf_balances f) tid = Some b" "hm_invar b"
    "ledger_total b = unat (ti_total_supply info)" using tf_invD [OF inv info] by metis
  show ?thesis
    unfolding f' using b mint_ledger [OF b(2,3) fits, of to]
    by (intro tf_update_inv [OF inv info]) (simp_all add: TokenFactory_balance_of_def)
qed (use inv in simp)

lemma tf_burn_inv:
  assumes inv: "tf_inv f" and m: "TokenFactory_burn f tid frm amount sig = Some (f', r)"
  shows "tf_inv f'"
proof (cases "f' = f")
  case False
  then obtain info x where info: "hm_get (tf_tokens f) tid = Some info"
    and x: "hm_get (the (hm_get (tf_balances f) tid)) frm = Some x" and le: "\<not> x < amount"
    and f': "f' = f\<lparr>tf_tokens := hm_insert (tf_tokens f) tid
                              (info\<lparr>ti_total_supply := ti_total_supply info - amount\<rparr>),
                            tf_balances := hm_insert (tf_balances f) tid
                              (hm_insert (the (hm_get (tf_balances f) tid)) frm (x - amount))\<rparr>"
    using m by (auto simp: burn_cases [OF inv] split: if_splits option.splits)
  obtain b where b: "hm_get (tf_balances f) tid = Some b" "hm_invar b"
    "ledger_total b = unat (ti_total_supply info)" using tf_invD [OF inv info] by metis
  show ?thesis
    unfolding f' using b x burn_ledger [OF b(2,3) _ le, of frm]
    by (intro tf_update_inv [OF inv info]) simp_all
qed (use inv in simp)

section \<open>Reachable factories\<close>

inductive tf_step :: "(string \<Rightarrow> string) \<Rightarrow> TokenFactory \<Rightarrow> TokenFactory \<Rightarrow> bool" for up where
  create: "TokenFactory_create_token up uuid now f name smb dec tt iss = (f', r) \<Longrightarrow> tf_step up f f'"
| mint: "TokenFactory_mint f tid to amount sig = Some (f', r) \<Longrightarrow> tf_step up f f'"
| burn: "TokenFactory_burn f tid frm amount sig = Some (f', r) \<Longrightarrow> tf_step up f f'"

abbreviation tf_reachable :: "(string \<Rightarrow> string) \<Rightarrow> TokenFactory \<Rightarrow> bool" where
  "tf_reachable up \<equiv> (tf_step up)\<^sup>*\<^sup>* TokenFactory_new"

lemma tf_step_inv: "tf_step up f f' \<Longrightarrow> tf_inv f \<Longrightarrow> tf_inv f'"
  by (induction rule: tf_step.induct) (blast intro: tf_create_inv tf_mint_inv tf_burn_inv)+

lemma tf_reachable_inv: "tf_reachable up f \<Longrightarrow> tf_inv f"
  by (induction rule: rtranclp_induct) (blast intro: tf_new_inv tf_step_inv)+

lemma supply_is_sum:
  assumes inv: "tf_inv f" and b: "hm_get (tf_balances f) tid = Some b"
  shows "(\<Sum>a\<in>dom (hm_get b). unat (TokenFactory_balance_of f tid a)) = unat (TokenFactory_total_supply f tid)"
proof -
  obtain info where info: "hm_get (tf_tokens f) tid = Some info"
    using inv b unfolding tf_inv_def by (metis not_None_eq)
  have b': "hm_invar b" "ledger_total b = unat (ti_total_supply info)"
    using tf_invD [OF inv info] b by (metis option.inject)+
  have "ledger_total b = (\<Sum>a\<in>dom (hm_get b). unat (the (hm_get b a)))"
    using hm.sum_iter [OF b'(1), of "unat \<circ> snd"] by (simp add: ledger_total_def)
  also have "\<dots> = (\<Sum>a\<in>dom (hm_get b). unat (TokenFactory_balance_of f tid a))"
    by (rule sum.cong) (auto simp: TokenFactory_balance_of_def b)
  finally show ?thesis using b'(2) info by (simp add: TokenFactory_total_supply_def)
qed

text \<open>The factories differ in the balance of one holder and the supply of one token.\<close>

definition changes_only ::
  "(u64 \<Rightarrow> u64) \<Rightarrow> TokenId \<Rightarrow> string \<Rightarrow> TokenFactory \<Rightarrow> TokenFactory \<Rightarrow> bool" where
  "changes_only g tid a f f' \<longleftrightarrow>
     (\<forall>i x. TokenFactory_balance_of f' i x =
        (if i = tid \<and> x = a then g (TokenFactory_balance_of f i x) else TokenFactory_balance_of f i x)) \<and>
     (\<forall>i. TokenFactory_total_supply f' i =
        (if i = tid then g (TokenFactory_total_supply f i) else TokenFactory_total_supply f i))"

section \<open>Properties\<close>

text \<open>
  C13. The books balance: whatever sequence of registrations, mints and burns led to a factory, the
  balances of a token's holders add up, without wrapping, to its recorded total supply; a token
  that is not registered has no ledger; and no two registered tokens have the same symbol.
\<close>
theorem factory_books_balance:
  assumes "tf_reachable up f"
  shows "(case hm_get (tf_balances f) tid of
            None \<Rightarrow> TokenFactory_get_token_info f tid = None
          | Some b \<Rightarrow> (\<Sum>a\<in>dom (hm_get b). unat (TokenFactory_balance_of f tid a))
                        = unat (TokenFactory_total_supply f tid)) \<and>
         (\<forall>tid' info info'. TokenFactory_get_token_info f tid = Some info \<longrightarrow>
            TokenFactory_get_token_info f tid' = Some info' \<longrightarrow> ti_symbol info = ti_symbol info' \<longrightarrow> tid = tid')"
proof -
  note inv = tf_reachable_inv [OF assms]
  have "hm_get (tf_balances f) tid = None \<Longrightarrow> hm_get (tf_tokens f) tid = None"
    using tf_invD [OF inv] by (metis not_None_eq)
  moreover have "ti_symbol info = ti_symbol info' \<Longrightarrow> tid = tid'"
    if "hm_get (tf_tokens f) tid = Some info" "hm_get (tf_tokens f) tid' = Some info'" for tid' info info'
    using tf_invD [OF inv that(1)] tf_invD [OF inv that(2)] by (metis option.inject)
  ultimately show ?thesis
    using supply_is_sum [OF inv] by (auto simp: TokenFactory_get_token_info_def split: option.split)
qed

definition demo_factory :: TokenFactory where
  "demo_factory = fst (TokenFactory_create_token id ''t1'' 0 TokenFactory_new ''Dollar'' ''USD'' 8 Stablecoin ''iss'')"

lemma demo_factory_reachable: "tf_reachable id demo_factory"
proof -
  have "tf_step id TokenFactory_new demo_factory"
    unfolding demo_factory_def by (rule tf_step.create) (rule prod.collapse [symmetric])
  then show ?thesis by blast
qed

lemmas demo_factory_simps = demo_factory_def TokenFactory_create_token_def TokenFactory_new_def
  TokenFactory_get_token_info_def TokenFactory_total_supply_def TokenFactory_balance_of_def Let_def

theorem factory_books_balance_witness:
  "(case hm_get (tf_balances demo_factory) ''t1'' of
      None \<Rightarrow> False
    | Some b \<Rightarrow> (\<Sum>a\<in>dom (hm_get b). unat (TokenFactory_balance_of demo_factory ''t1'' a))
                  = unat (TokenFactory_total_supply demo_factory ''t1''))"
  using factory_books_balance [OF demo_factory_reachable, of "''t1''"]
  by (simp add: demo_factory_simps)

text \<open>
  Mint and burn are exact and atomic on a reachable factory: neither panics; a mint succeeds exactly
  if a signature is given, the token exists and the supply stays below 2 to the 64, a burn exactly if a
  signature is given, the token exists, and the holder has an entry that covers the amount; success
  changes the balance and the supply of that token by the amount and no other balance or supply,
  failure changes nothing.
\<close>
lemma mint_burn_exact:
  assumes "tf_reachable up f"
  shows "(\<exists>f' r. TokenFactory_mint f tid a amount sig = Some (f', r) \<and>
     (r = Ok () \<longleftrightarrow> sig \<noteq> [] \<and> TokenFactory_get_token_info f tid \<noteq> None \<and>
                    unat (TokenFactory_total_supply f tid) + unat amount < 2 ^ 64) \<and>
     (if r = Ok () then changes_only (\<lambda>x. x + amount) tid a f f' else f' = f)) \<and>
   (\<exists>f' r. TokenFactory_burn f tid a amount sig = Some (f', r) \<and>
     (r = Ok () \<longleftrightarrow> sig \<noteq> [] \<and> (\<exists>b. hm_get (tf_balances f) tid = Some b \<and> hm_get b a \<noteq> None) \<and>
                    amount \<le> TokenFactory_balance_of f tid a) \<and>
     (if r = Ok () then changes_only (\<lambda>x. x - amount) tid a f f' else f' = f))"
proof -
  note inv = tf_reachable_inv [OF assms]
  note simps = TokenFactory_get_token_info_def TokenFactory_total_supply_def
    TokenFactory_balance_of_def changes_only_def
  show ?thesis
  proof (cases "hm_get (tf_tokens f) tid")
    case None
    then have "hm_get (tf_balances f) tid = None" using inv by (simp add: tf_inv_def)
    with None show ?thesis by (simp add: mint_cases [OF inv] burn_cases [OF inv] simps)
  next
    case (Some info)
    then obtain b where b: "hm_get (tf_balances f) tid = Some b" using tf_invD [OF inv] by metis
    show ?thesis
      using Some b
      by (cases "hm_get b a") (simp_all add: mint_cases [OF inv] burn_cases [OF inv] simps not_le not_less)
  qed
qed

end
