(* ===== verification/Mempool.thy ===== *)
theory Mempool
  imports Transactions
begin

text \<open>
  The transaction pool, \<open>protocol/src/network/mempool.rs\<close>. The two concurrent maps are instances of
  the \<open>DashMap\<close> parameter, the fee index is the B-tree map of the standard library with the ordering
  of \<open>FeeKey\<close>. Each method is one atomic step; interleavings inside a method are not modelled. The
  lemmas tie the three indices together, bound the pool, and show that selection is by fee.
\<close>

section \<open>Types\<close>

record MempoolConfig =
  mc_max_size :: nat
  mc_max_per_sender :: nat
  mc_expiry_seconds :: u64
  mc_min_fee :: u64

definition MempoolConfig_default :: MempoolConfig where
  "MempoolConfig_default = \<lparr>mc_max_size = 10000, mc_max_per_sender = 100, mc_expiry_seconds = 3600, mc_min_fee = 0\<rparr>"

datatype FeeKey = FeeKey (inverted_fee: u64) (fk_added_at: u64) (fk_tx_id: string)

text \<open>\<open>Ord for FeeKey\<close>: inverted fee, then time, then ID.\<close>

instantiation FeeKey :: linorder
begin

definition less_FeeKey :: "FeeKey \<Rightarrow> FeeKey \<Rightarrow> bool" where
  "less_FeeKey a b \<longleftrightarrow> inverted_fee a < inverted_fee b \<or> inverted_fee a = inverted_fee b \<and>
     (fk_added_at a < fk_added_at b \<or> fk_added_at a = fk_added_at b \<and> fk_tx_id a < fk_tx_id b)"

definition less_eq_FeeKey :: "FeeKey \<Rightarrow> FeeKey \<Rightarrow> bool" where
  "less_eq_FeeKey a b \<longleftrightarrow> a < b \<or> a = b"

instance
  by standard (auto simp: less_FeeKey_def less_eq_FeeKey_def intro: FeeKey.expand)

end

record MempoolEntry =
  me_transaction :: Transaction
  me_added_at :: u64
  me_fee_per_byte :: u64

datatype MempoolError =
    DuplicateTransaction
  | FeeTooLow u64 u64
  | SenderLimitExceeded string nat
  | MempoolFull nat

fun MempoolError_fmt :: "MempoolError \<Rightarrow> string" where
  "MempoolError_fmt DuplicateTransaction = ''transaction already exists in mempool''"
| "MempoolError_fmt (FeeTooLow mn got) =
     ''fee too low: minimum '' @ show_nat (unat mn) @ '', got '' @ show_nat (unat got)"
| "MempoolError_fmt (SenderLimitExceeded sender limit) =
     ''sender '' @ sender @ '' exceeded per-sender limit of '' @ show_nat limit"
| "MempoolError_fmt (MempoolFull n) = ''mempool is full ('' @ show_nat n @ '' transactions)''"

record ('t, 's) pool_env =
  pe_json :: "Transaction \<Rightarrow> (bytes, string) result"
  pe_txs :: "('t, string, MempoolEntry) DashMap"
  pe_counts :: "('s, string, nat) DashMap"

record ('t, 's) Mempool =
  mp_transactions :: 't
  mp_fee_index :: "(FeeKey, string) BTreeMap"
  mp_sender_counts :: 's
  mp_config :: MempoolConfig

section \<open>Operations\<close>

definition Mempool_new :: "('t, 's) pool_env \<Rightarrow> MempoolConfig \<Rightarrow> ('t, 's) Mempool" where
  "Mempool_new E config =
     \<lparr>mp_transactions = dm_new (pe_txs E), mp_fee_index = [], mp_sender_counts = dm_new (pe_counts E),
      mp_config = config\<rparr>"

definition fee_key_of :: "MempoolEntry \<Rightarrow> FeeKey" where
  "fee_key_of entry = FeeKey (- 1 - me_fee_per_byte entry) (me_added_at entry) (tx_id (me_transaction entry))"

definition decrement_sender_count :: "('t, 's) pool_env \<Rightarrow> ('t, 's) Mempool \<Rightarrow> string \<Rightarrow> ('t, 's) Mempool" where
  "decrement_sender_count E P sender =
     (case dm_get (pe_counts E) (mp_sender_counts P) sender of
        None \<Rightarrow> P
      | Some count \<Rightarrow>
          if count \<le> 1 then P\<lparr>mp_sender_counts := dm_remove (pe_counts E) (mp_sender_counts P) sender\<rparr>
          else P\<lparr>mp_sender_counts := dm_insert (pe_counts E) (mp_sender_counts P) sender (count - 1)\<rparr>)"

definition remove_from_indices :: "('t, 's) pool_env \<Rightarrow> ('t, 's) Mempool \<Rightarrow> MempoolEntry \<Rightarrow> ('t, 's) Mempool" where
  "remove_from_indices E P entry =
     (let P = P\<lparr>mp_fee_index := bt_remove (mp_fee_index P) (fee_key_of entry)\<rparr>
      in decrement_sender_count E P (tx_sender (me_transaction entry)))"

definition try_evict_lowest :: "('t, 's) pool_env \<Rightarrow> ('t, 's) Mempool \<Rightarrow> u64 \<Rightarrow> ('t, 's) Mempool \<times> bool" where
  "try_evict_lowest E P incoming_fpb =
     (case bt_last (mp_fee_index P) of
        None \<Rightarrow> (P, False)
      | Some (lowest_key, evicted_id) \<Rightarrow>
          let lowest_fpb = - 1 - inverted_fee lowest_key in
          if incoming_fpb \<le> lowest_fpb then (P, False)
          else
            let P = P\<lparr>mp_fee_index := bt_remove (mp_fee_index P) lowest_key\<rparr>
            in case dm_get (pe_txs E) (mp_transactions P) evicted_id of
                 None \<Rightarrow> (P, True)
               | Some entry \<Rightarrow>
                   let P = P\<lparr>mp_transactions := dm_remove (pe_txs E) (mp_transactions P) evicted_id\<rparr>
                   in (decrement_sender_count E P (tx_sender (me_transaction entry)), True))"

text \<open>The last part of \<open>add\<close>: the three inserts.\<close>

definition insert_entry :: "('t, 's) pool_env \<Rightarrow> u64 \<Rightarrow> ('t, 's) Mempool \<Rightarrow> Transaction \<Rightarrow> ('t, 's) Mempool" where
  "insert_entry E now P tx =
     (let entry = \<lparr>me_transaction = tx, me_added_at = now, me_fee_per_byte = fee_per_byte (pe_json E) tx\<rparr>;
          count = (case dm_get (pe_counts E) (mp_sender_counts P) (tx_sender tx) of Some n \<Rightarrow> n | None \<Rightarrow> 0)
      in P\<lparr>mp_transactions := dm_insert (pe_txs E) (mp_transactions P) (tx_id tx) entry,
           mp_fee_index := bt_insert (mp_fee_index P) (fee_key_of entry) (tx_id tx),
           mp_sender_counts := dm_insert (pe_counts E) (mp_sender_counts P) (tx_sender tx) (count + 1)\<rparr>)"

definition Mempool_add ::
  "('t, 's) pool_env \<Rightarrow> u64 \<Rightarrow> ('t, 's) Mempool \<Rightarrow> Transaction \<Rightarrow> ('t, 's) Mempool \<times> (unit, MempoolError) result" where
  "Mempool_add E now P tx =
     (if dm_get (pe_txs E) (mp_transactions P) (tx_id tx) \<noteq> None then (P, Err DuplicateTransaction)
      else if tx_fee tx < mc_min_fee (mp_config P)
      then (P, Err (FeeTooLow (mc_min_fee (mp_config P)) (tx_fee tx)))
      else
        let sender_count =
          (case dm_get (pe_counts E) (mp_sender_counts P) (tx_sender tx) of Some n \<Rightarrow> n | None \<Rightarrow> 0) in
        if sender_count \<ge> mc_max_per_sender (mp_config P)
        then (P, Err (SenderLimitExceeded (tx_sender tx) (mc_max_per_sender (mp_config P))))
        else if dm_len (pe_txs E) (mp_transactions P) \<ge> mc_max_size (mp_config P)
        then (case try_evict_lowest E P (fee_per_byte (pe_json E) tx) of
                (P', evicted) \<Rightarrow>
                  if \<not> evicted then (P', Err (MempoolFull (mc_max_size (mp_config P))))
                  else (insert_entry E now P' tx, Ok ()))
        else (insert_entry E now P tx, Ok ()))"

definition Mempool_remove :: "('t, 's) pool_env \<Rightarrow> ('t, 's) Mempool \<Rightarrow> string \<Rightarrow> ('t, 's) Mempool \<times> Transaction option" where
  "Mempool_remove E P i =
     (case dm_get (pe_txs E) (mp_transactions P) i of
        None \<Rightarrow> (P, None)
      | Some entry \<Rightarrow>
          let P = P\<lparr>mp_transactions := dm_remove (pe_txs E) (mp_transactions P) i\<rparr>
          in (remove_from_indices E P entry, Some (me_transaction entry)))"

primrec Mempool_remove_batch :: "('t, 's) pool_env \<Rightarrow> ('t, 's) Mempool \<Rightarrow> string list \<Rightarrow> ('t, 's) Mempool" where
  "Mempool_remove_batch E P [] = P"
| "Mempool_remove_batch E P (i # is) = Mempool_remove_batch E (fst (Mempool_remove E P i)) is"

definition Mempool_get :: "('t, 's) pool_env \<Rightarrow> ('t, 's) Mempool \<Rightarrow> string \<Rightarrow> Transaction option" where
  "Mempool_get E P i = map_option me_transaction (dm_get (pe_txs E) (mp_transactions P) i)"

definition Mempool_contains :: "('t, 's) pool_env \<Rightarrow> ('t, 's) Mempool \<Rightarrow> string \<Rightarrow> bool" where
  "Mempool_contains E P i \<longleftrightarrow> dm_get (pe_txs E) (mp_transactions P) i \<noteq> None"

fun select_loop ::
  "('t, 's) pool_env \<Rightarrow> 't \<Rightarrow> nat \<Rightarrow> (FeeKey \<times> string) list \<Rightarrow> Transaction list \<Rightarrow> Transaction list" where
  "select_loop E txs max_count [] res = res"
| "select_loop E txs max_count ((_, i) # index) res =
     (if length res \<ge> max_count then res
      else case dm_get (pe_txs E) txs i of
        Some entry \<Rightarrow> select_loop E txs max_count index (res @ [me_transaction entry])
      | None \<Rightarrow> select_loop E txs max_count index res)"

definition Mempool_select_transactions :: "('t, 's) pool_env \<Rightarrow> ('t, 's) Mempool \<Rightarrow> nat \<Rightarrow> Transaction list" where
  "Mempool_select_transactions E P max_count = select_loop E (mp_transactions P) max_count (mp_fee_index P) []"

definition Mempool_size :: "('t, 's) pool_env \<Rightarrow> ('t, 's) Mempool \<Rightarrow> nat" where
  "Mempool_size E P = dm_len (pe_txs E) (mp_transactions P)"

definition Mempool_is_empty :: "('t, 's) pool_env \<Rightarrow> ('t, 's) Mempool \<Rightarrow> bool" where
  "Mempool_is_empty E P \<longleftrightarrow> dm_len (pe_txs E) (mp_transactions P) = 0"

definition Mempool_clear :: "('t, 's) pool_env \<Rightarrow> ('t, 's) Mempool \<Rightarrow> ('t, 's) Mempool" where
  "Mempool_clear E P = P\<lparr>mp_transactions := dm_new (pe_txs E), mp_fee_index := [],
     mp_sender_counts := dm_new (pe_counts E)\<rparr>"

definition Mempool_expire_old :: "('t, 's) pool_env \<Rightarrow> u64 \<Rightarrow> ('t, 's) Mempool \<Rightarrow> ('t, 's) Mempool \<times> nat" where
  "Mempool_expire_old E now P =
     (let cutoff = saturating_sub now (mc_expiry_seconds (mp_config P));
          expired_ids = map fst (filter (\<lambda>p. me_added_at (snd p) < cutoff) (dm_iter (pe_txs E) (mp_transactions P)))
      in (Mempool_remove_batch E P expired_ids, length expired_ids))"

definition Mempool_pending_for_sender :: "('t, 's) pool_env \<Rightarrow> ('t, 's) Mempool \<Rightarrow> string \<Rightarrow> Transaction list" where
  "Mempool_pending_for_sender E P sender =
     map (me_transaction \<circ> snd)
       (filter (\<lambda>p. tx_sender (me_transaction (snd p)) = sender) (dm_iter (pe_txs E) (mp_transactions P)))"

section \<open>The invariant\<close>

definition env_ok :: "('t, 's) pool_env \<Rightarrow> bool" where
  "env_ok E \<longleftrightarrow> dashmap_ok (pe_txs E) \<and> dashmap_ok (pe_counts E)"

abbreviation entry_at :: "('t, 's) pool_env \<Rightarrow> ('t, 's) Mempool \<Rightarrow> string \<Rightarrow> MempoolEntry option" where
  "entry_at E P \<equiv> dm_get (pe_txs E) (mp_transactions P)"

definition entries_ok :: "('t, 's) pool_env \<Rightarrow> ('t, 's) Mempool \<Rightarrow> bool" where
  "entries_ok E P \<longleftrightarrow> (\<forall>i e. entry_at E P i = Some e \<longrightarrow>
     tx_id (me_transaction e) = i \<and> me_fee_per_byte e = fee_per_byte (pe_json E) (me_transaction e))"

definition index_ok :: "('t, 's) pool_env \<Rightarrow> ('t, 's) Mempool \<Rightarrow> bool" where
  "index_ok E P \<longleftrightarrow> bt_invar (mp_fee_index P) \<and>
     set (mp_fee_index P) = {(fee_key_of e, i) | i e. entry_at E P i = Some e}"

text \<open>How many pending transactions a sender has.\<close>

definition sender_total :: "('t, 's) pool_env \<Rightarrow> 't \<Rightarrow> string \<Rightarrow> nat" where
  "sender_total E t s =
     sum_list (map (\<lambda>p. if tx_sender (me_transaction (snd p)) = s then 1 else 0) (dm_iter (pe_txs E) t))"

definition counts_ok :: "('t, 's) pool_env \<Rightarrow> ('t, 's) Mempool \<Rightarrow> bool" where
  "counts_ok E P \<longleftrightarrow> (\<forall>s. dm_get (pe_counts E) (mp_sender_counts P) s =
     (let n = sender_total E (mp_transactions P) s in if n = 0 then None else Some n))"

definition pool_inv :: "('t, 's) pool_env \<Rightarrow> ('t, 's) Mempool \<Rightarrow> bool" where
  "pool_inv E P \<longleftrightarrow> entries_ok E P \<and> index_ok E P \<and> counts_ok E P"

definition pool_bounded :: "('t, 's) pool_env \<Rightarrow> ('t, 's) Mempool \<Rightarrow> bool" where
  "pool_bounded E P \<longleftrightarrow> dm_len (pe_txs E) (mp_transactions P) \<le> mc_max_size (mp_config P) \<and>
     (\<forall>s. sender_total E (mp_transactions P) s \<le> mc_max_per_sender (mp_config P))"

lemma sender_total_pending: "sender_total E (mp_transactions P) s = length (Mempool_pending_for_sender E P s)"
proof -
  have "sum_list (map (\<lambda>p. if Q p then 1 else 0) xs) = length (filter Q xs)" for Q :: "'c \<Rightarrow> bool" and xs
    by (induction xs) auto
  then show ?thesis by (simp add: sender_total_def Mempool_pending_for_sender_def)
qed

lemma sender_total_new: "env_ok E \<Longrightarrow> sender_total E (dm_new (pe_txs E)) s = 0"
  by (simp add: sender_total_def env_ok_def dm_iter_new)

lemma sender_total_insert:
  "env_ok E \<Longrightarrow> dm_get (pe_txs E) t i = None \<Longrightarrow>
   sender_total E (dm_insert (pe_txs E) t i e) s =
     (if tx_sender (me_transaction e) = s then 1 else 0) + sender_total E t s"
  by (simp add: sender_total_def env_ok_def dm_sum_insert_new)

lemma sender_total_remove:
  "env_ok E \<Longrightarrow> dm_get (pe_txs E) t i = Some e \<Longrightarrow>
   sender_total E t s =
     (if tx_sender (me_transaction e) = s then 1 else 0) + sender_total E (dm_remove (pe_txs E) t i) s"
  by (simp add: sender_total_def env_ok_def dm_sum_remove)

text \<open>Taking one entry out of all three indices: what removal and eviction have in common.\<close>

definition take_out :: "('t, 's) pool_env \<Rightarrow> ('t, 's) Mempool \<Rightarrow> string \<Rightarrow> MempoolEntry \<Rightarrow> ('t, 's) Mempool" where
  "take_out E P i e = decrement_sender_count E
     (P\<lparr>mp_transactions := dm_remove (pe_txs E) (mp_transactions P) i,
        mp_fee_index := bt_remove (mp_fee_index P) (fee_key_of e)\<rparr>) (tx_sender (me_transaction e))"

lemma decrement_frame [simp]:
  "mp_transactions (decrement_sender_count E P s) = mp_transactions P"
  "mp_fee_index (decrement_sender_count E P s) = mp_fee_index P"
  "mp_config (decrement_sender_count E P s) = mp_config P"
  by (simp_all add: decrement_sender_count_def split: option.split)

lemma decrement_counts:
  assumes "env_ok E" and "dm_get (pe_counts E) (mp_sender_counts P) s = (if n = 0 then None else Some n)"
  shows "dm_get (pe_counts E) (mp_sender_counts (decrement_sender_count E P s)) s' =
     (if s' = s then (if n - 1 = 0 then None else Some (n - 1)) else dm_get (pe_counts E) (mp_sender_counts P) s')"
  using assms by (auto simp: decrement_sender_count_def env_ok_def dm_get_simps)

lemma fee_key_inj:
  "entries_ok E P \<Longrightarrow> entry_at E P i = Some e \<Longrightarrow> entry_at E P j = Some f \<Longrightarrow>
   fee_key_of e = fee_key_of f \<Longrightarrow> i = j"
  by (auto simp: entries_ok_def fee_key_of_def)

lemma take_out_inv:
  assumes E: "env_ok E" and inv: "pool_inv E P" and e: "entry_at E P i = Some e"
  shows "pool_inv E (take_out E P i e)"
proof -
  let ?s = "tx_sender (me_transaction e)"
  let ?P = "take_out E P i e"
  have ent: "entry_at E ?P j = (if j = i then None else entry_at E P j)" for j
    using E by (simp add: take_out_def env_ok_def dm_get_simps)
  have ent': "entry_at E P j = Some f \<and> j \<noteq> i \<longleftrightarrow> entry_at E ?P j = Some f" for j f
    by (simp add: ent)
  have "entries_ok E ?P" using inv by (simp add: pool_inv_def entries_ok_def ent)
  moreover have "index_ok E ?P"
  proof -
    have ix: "bt_invar (mp_fee_index P)" "set (mp_fee_index P) = {(fee_key_of e, i) | i e. entry_at E P i = Some e}"
      and en: "entries_ok E P" using inv by (simp_all add: pool_inv_def index_ok_def)
    have idx: "mp_fee_index ?P = bt_remove (mp_fee_index P) (fee_key_of e)" by (simp add: take_out_def)
    have key: "fee_key_of f \<noteq> fee_key_of e \<longleftrightarrow> j \<noteq> i" if "entry_at E P j = Some f" for j f
      using fee_key_inj [OF en that e] that e by auto
    have "{p \<in> {(fee_key_of e, i) | i e. entry_at E P i = Some e}. fst p \<noteq> fee_key_of e}
        = {(fee_key_of f, j) | j f. entry_at E P j = Some f \<and> fee_key_of f \<noteq> fee_key_of e}" by force
    also have "\<dots> = {(fee_key_of f, j) | j f. entry_at E P j = Some f \<and> j \<noteq> i}" using key by blast
    also have "\<dots> = {(fee_key_of e, i) | i e. entry_at E ?P i = Some e}" by (simp only: ent')
    finally have "{p \<in> {(fee_key_of e, i) | i e. entry_at E P i = Some e}. fst p \<noteq> fee_key_of e}
        = {(fee_key_of e, i) | i e. entry_at E ?P i = Some e}" .
    then show ?thesis
      unfolding index_ok_def idx set_bt_remove ix(2) using bt_remove_invar [OF ix(1)] by simp
  qed
  moreover have "counts_ok E ?P"
  proof -
    have c: "dm_get (pe_counts E) (mp_sender_counts P) s =
        (if sender_total E (mp_transactions P) s = 0 then None else Some (sender_total E (mp_transactions P) s))" for s
      using inv by (simp add: pool_inv_def counts_ok_def Let_def)
    let ?P' = "P\<lparr>mp_transactions := dm_remove (pe_txs E) (mp_transactions P) i,
        mp_fee_index := bt_remove (mp_fee_index P) (fee_key_of e)\<rparr>"
    have c': "dm_get (pe_counts E) (mp_sender_counts ?P') ?s =
        (if sender_total E (mp_transactions P) ?s = 0 then None else Some (sender_total E (mp_transactions P) ?s))"
      using c [of ?s] by simp
    have tot: "sender_total E (mp_transactions ?P) s =
        (if s = ?s then sender_total E (mp_transactions P) s - 1 else sender_total E (mp_transactions P) s)" for s
      using sender_total_remove [OF E e, of s] by (auto simp: take_out_def)
    show ?thesis
      unfolding counts_ok_def Let_def tot
      using decrement_counts [OF E c'] c by (simp add: take_out_def)
  qed
  ultimately show ?thesis by (simp add: pool_inv_def)
qed

lemma take_out_bounded:
  assumes E: "env_ok E" and e: "entry_at E P i = Some e" and b: "pool_bounded E P"
  shows "pool_bounded E (take_out E P i e)" and "Suc (dm_len (pe_txs E) (mp_transactions (take_out E P i e)))
    = dm_len (pe_txs E) (mp_transactions P)"
proof -
  show len: "Suc (dm_len (pe_txs E) (mp_transactions (take_out E P i e))) = dm_len (pe_txs E) (mp_transactions P)"
    using E e dm_len_remove [of "pe_txs E" "mp_transactions P" i e] by (simp add: take_out_def env_ok_def)
  have "sender_total E (dm_remove (pe_txs E) (mp_transactions P) i) s \<le> mc_max_per_sender (mp_config P)" for s
    using b sender_total_remove [OF E e, of s] unfolding pool_bounded_def by (metis add_leD2)
  then show "pool_bounded E (take_out E P i e)"
    using b len by (simp add: pool_bounded_def take_out_def)
qed

lemma Mempool_remove_eq:
  "Mempool_remove E P i = (case entry_at E P i of None \<Rightarrow> (P, None) | Some e \<Rightarrow> (take_out E P i e, Some (me_transaction e)))"
  by (simp add: Mempool_remove_def remove_from_indices_def take_out_def Let_def split: option.split)

text \<open>Eviction takes out the entry with the lowest fee density, if it is outbid.\<close>

lemma inverted_twice: "- 1 - inverted_fee (fee_key_of e) = me_fee_per_byte e"
  by (simp add: fee_key_of_def)

lemma pool_update_comm:
  "P\<lparr>mp_fee_index := x, mp_transactions := y\<rparr> = P\<lparr>mp_transactions := y, mp_fee_index := x\<rparr>"
  by simp

lemma fee_key_le: "fee_key_of f \<le> fee_key_of e \<Longrightarrow> me_fee_per_byte e \<le> me_fee_per_byte f"
proof -
  assume "fee_key_of f \<le> fee_key_of e"
  then have "inverted_fee (fee_key_of f) \<le> inverted_fee (fee_key_of e)"
    by (auto simp: less_eq_FeeKey_def less_FeeKey_def)
  then have "unat (- 1 - me_fee_per_byte f) \<le> unat (- 1 - me_fee_per_byte e)"
    by (simp add: fee_key_of_def word_le_nat_alt)
  moreover have "unat (- 1 - a) = 2 ^ 64 - 1 - unat a" for a :: u64
    by (subst unat_sub) (simp_all add: unsigned_minus_1_eq_mask mask_eq_exp_minus_1)
  ultimately show ?thesis
    using unat_less_64 [of "me_fee_per_byte e"] by (simp add: word_le_nat_alt)
qed

lemma index_mem:
  "pool_inv E P \<Longrightarrow> (k, i) \<in> set (mp_fee_index P) \<longleftrightarrow> (\<exists>e. entry_at E P i = Some e \<and> k = fee_key_of e)"
  by (auto simp: pool_inv_def index_ok_def)

lemma try_evict_cases:
  assumes inv: "pool_inv E P" and ev: "try_evict_lowest E P fpb = (P', evicted)"
  shows "\<not> evicted \<and> P' = P \<and> (\<forall>j f. entry_at E P j = Some f \<longrightarrow> fpb \<le> me_fee_per_byte f) \<or>
    evicted \<and> (\<exists>i e. entry_at E P i = Some e \<and> P' = take_out E P i e \<and> me_fee_per_byte e < fpb \<and>
       (\<forall>j f. entry_at E P j = Some f \<longrightarrow> me_fee_per_byte e \<le> me_fee_per_byte f))"
proof (cases "bt_last (mp_fee_index P)")
  case None
  then have "mp_fee_index P = []" by (simp add: bt_last_def split: if_splits)
  then have "entry_at E P i \<noteq> Some e" for i e
    using index_mem [OF inv, of "fee_key_of e" i] by auto
  then show ?thesis using None ev by (simp add: try_evict_lowest_def)
next
  case (Some p)
  obtain k i where p: "p = (k, i)" by (cases p)
  have ix: "bt_invar (mp_fee_index P)" "set (mp_fee_index P) = {(fee_key_of e, i) | i e. entry_at E P i = Some e}"
    using inv by (simp_all add: pool_inv_def index_ok_def)
  note last = bt_last_max [OF ix(1) Some [unfolded p]]
  from last obtain e where e: "entry_at E P i = Some e" "k = fee_key_of e" unfolding ix(2) by blast
  have min: "me_fee_per_byte e \<le> me_fee_per_byte f" if "entry_at E P j = Some f" for j f
  proof -
    have "(fee_key_of f, j) \<in> set (mp_fee_index P)" using that unfolding ix(2) by blast
    then have "fee_key_of f \<le> fee_key_of e" using last e(2) by fastforce
    then show ?thesis by (rule fee_key_le)
  qed
  show ?thesis
  proof (cases "fpb \<le> me_fee_per_byte e")
    case True
    then have "(P', evicted) = (P, False)"
      using ev Some e by (simp add: p try_evict_lowest_def Let_def inverted_twice)
    then show ?thesis using True min order_trans by blast
  next
    case False
    then have "(P', evicted) = (take_out E P i e, True)"
      using ev Some e
      by (simp add: p try_evict_lowest_def Let_def inverted_twice take_out_def) (simp add: pool_update_comm)
    then show ?thesis using False e min by (auto simp: not_le)
  qed
qed

lemma entry_take_out:
  "env_ok E \<Longrightarrow> entry_at E (take_out E P i e) j = (if j = i then None else entry_at E P j)"
  by (simp add: take_out_def env_ok_def dm_get_simps)

lemma take_out_config [simp]: "mp_config (take_out E P i e) = mp_config P"
  by (simp add: take_out_def)

lemma entry_insert:
  "env_ok E \<Longrightarrow> entry_at E (insert_entry E now P tx) j =
     (if j = tx_id tx then Some \<lparr>me_transaction = tx, me_added_at = now, me_fee_per_byte = fee_per_byte (pe_json E) tx\<rparr>
      else entry_at E P j)"
  by (simp add: insert_entry_def env_ok_def dm_get_simps Let_def)

text \<open>The three inserts keep the indices in step.\<close>

lemma insert_entry_inv:
  assumes E: "env_ok E" and inv: "pool_inv E P" and new: "entry_at E P (tx_id tx) = None"
  shows "pool_inv E (insert_entry E now P tx)"
proof -
  let ?e = "\<lparr>me_transaction = tx, me_added_at = now, me_fee_per_byte = fee_per_byte (pe_json E) tx\<rparr>"
  let ?P = "insert_entry E now P tx"
  have "entries_ok E ?P" using inv by (simp add: pool_inv_def entries_ok_def entry_insert [OF E])
  moreover have "index_ok E ?P"
  proof -
    have ix: "bt_invar (mp_fee_index P)" using inv by (simp add: pool_inv_def index_ok_def)
    have idx: "mp_fee_index ?P = bt_insert (mp_fee_index P) (fee_key_of ?e) (tx_id tx)"
      by (simp add: insert_entry_def Let_def)
    have fresh: "fee_key_of f \<noteq> fee_key_of ?e" if "entry_at E P j = Some f" for j f
      using inv that new by (auto simp: pool_inv_def entries_ok_def fee_key_of_def)
    have "(k, j) \<in> set (mp_fee_index ?P) \<longleftrightarrow> (\<exists>f. entry_at E ?P j = Some f \<and> k = fee_key_of f)" for k j
      unfolding idx set_bt_insert [OF ix] entry_insert [OF E]
      using fresh new by (auto simp: index_mem [OF inv])
    then show ?thesis
      using bt_insert_invar [OF ix] by (auto simp: index_ok_def idx)
  qed
  moreover have "counts_ok E ?P"
    unfolding counts_ok_def Let_def
  proof
    fix s
    have "mp_transactions ?P = dm_insert (pe_txs E) (mp_transactions P) (tx_id tx) ?e"
      by (simp add: insert_entry_def Let_def)
    then have tot: "sender_total E (mp_transactions ?P) s =
        (if tx_sender tx = s then 1 else 0) + sender_total E (mp_transactions P) s"
      using sender_total_insert [OF E new, of ?e] by simp
    have c: "dm_get (pe_counts E) (mp_sender_counts P) s =
        (if sender_total E (mp_transactions P) s = 0 then None else Some (sender_total E (mp_transactions P) s))" for s
      using inv by (simp add: pool_inv_def counts_ok_def Let_def)
    show "dm_get (pe_counts E) (mp_sender_counts ?P) s =
        (if sender_total E (mp_transactions ?P) s = 0 then None else Some (sender_total E (mp_transactions ?P) s))"
      unfolding tot using E c [of s] by (auto simp: insert_entry_def env_ok_def dm_get_simps Let_def)
  qed
  ultimately show ?thesis by (simp add: pool_inv_def)
qed

lemma insert_entry_bounded:
  assumes E: "env_ok E" and new: "entry_at E P (tx_id tx) = None" and b: "pool_bounded E P"
    and room: "dm_len (pe_txs E) (mp_transactions P) < mc_max_size (mp_config P)"
    and limit: "sender_total E (mp_transactions P) (tx_sender tx) < mc_max_per_sender (mp_config P)"
  shows "pool_bounded E (insert_entry E now P tx)"
proof -
  let ?e = "\<lparr>me_transaction = tx, me_added_at = now, me_fee_per_byte = fee_per_byte (pe_json E) tx\<rparr>"
  have txs: "mp_transactions (insert_entry E now P tx) = dm_insert (pe_txs E) (mp_transactions P) (tx_id tx) ?e"
    and cfg: "mp_config (insert_entry E now P tx) = mp_config P"
    by (simp_all add: insert_entry_def Let_def)
  have "dm_len (pe_txs E) (dm_insert (pe_txs E) (mp_transactions P) (tx_id tx) ?e)
      = Suc (dm_len (pe_txs E) (mp_transactions P))"
    using E new by (simp add: env_ok_def dm_len_insert_new)
  then show ?thesis
    unfolding pool_bounded_def txs cfg sender_total_insert [OF E new]
    using b room limit by (auto simp: pool_bounded_def)
qed

section \<open>Adding\<close>

lemma sender_count_eq:
  "counts_ok E P \<Longrightarrow> (case dm_get (pe_counts E) (mp_sender_counts P) s of Some n \<Rightarrow> n | None \<Rightarrow> 0)
     = sender_total E (mp_transactions P) s"
  by (simp add: counts_ok_def Let_def)

text \<open>What \<open>add\<close> does, by outcome: a victim only if the pool is full, and then the cheapest entry.\<close>

lemma add_cases:
  assumes inv: "pool_inv E P"
  obtains (dup) "entry_at E P (tx_id tx) \<noteq> None" "Mempool_add E now P tx = (P, Err DuplicateTransaction)"
  | (low) "entry_at E P (tx_id tx) = None" "tx_fee tx < mc_min_fee (mp_config P)"
      "Mempool_add E now P tx = (P, Err (FeeTooLow (mc_min_fee (mp_config P)) (tx_fee tx)))"
  | (sender) "entry_at E P (tx_id tx) = None" "\<not> tx_fee tx < mc_min_fee (mp_config P)"
      "mc_max_per_sender (mp_config P) \<le> sender_total E (mp_transactions P) (tx_sender tx)"
      "Mempool_add E now P tx = (P, Err (SenderLimitExceeded (tx_sender tx) (mc_max_per_sender (mp_config P))))"
  | (full) "entry_at E P (tx_id tx) = None" "\<not> tx_fee tx < mc_min_fee (mp_config P)"
      "sender_total E (mp_transactions P) (tx_sender tx) < mc_max_per_sender (mp_config P)"
      "mc_max_size (mp_config P) \<le> Mempool_size E P"
      "\<forall>j f. entry_at E P j = Some f \<longrightarrow> fee_per_byte (pe_json E) tx \<le> me_fee_per_byte f"
      "Mempool_add E now P tx = (P, Err (MempoolFull (mc_max_size (mp_config P))))"
  | (evict) i e where "entry_at E P (tx_id tx) = None" "\<not> tx_fee tx < mc_min_fee (mp_config P)"
      "sender_total E (mp_transactions P) (tx_sender tx) < mc_max_per_sender (mp_config P)"
      "mc_max_size (mp_config P) \<le> Mempool_size E P"
      "entry_at E P i = Some e" "me_fee_per_byte e < fee_per_byte (pe_json E) tx"
      "\<forall>j f. entry_at E P j = Some f \<longrightarrow> me_fee_per_byte e \<le> me_fee_per_byte f"
      "Mempool_add E now P tx = (insert_entry E now (take_out E P i e) tx, Ok ())"
  | (room) "entry_at E P (tx_id tx) = None" "\<not> tx_fee tx < mc_min_fee (mp_config P)"
      "sender_total E (mp_transactions P) (tx_sender tx) < mc_max_per_sender (mp_config P)"
      "Mempool_size E P < mc_max_size (mp_config P)"
      "Mempool_add E now P tx = (insert_entry E now P tx, Ok ())"
proof -
  have cnt: "(case dm_get (pe_counts E) (mp_sender_counts P) (tx_sender tx) of Some n \<Rightarrow> n | None \<Rightarrow> 0)
      = sender_total E (mp_transactions P) (tx_sender tx)"
    using inv by (simp add: pool_inv_def sender_count_eq)
  note add = Mempool_add_def [of E now P tx, unfolded Let_def cnt]
  consider "entry_at E P (tx_id tx) \<noteq> None" | "entry_at E P (tx_id tx) = None" "tx_fee tx < mc_min_fee (mp_config P)"
    | "entry_at E P (tx_id tx) = None" "\<not> tx_fee tx < mc_min_fee (mp_config P)"
      "mc_max_per_sender (mp_config P) \<le> sender_total E (mp_transactions P) (tx_sender tx)"
    | (fits) "entry_at E P (tx_id tx) = None" "\<not> tx_fee tx < mc_min_fee (mp_config P)"
      "sender_total E (mp_transactions P) (tx_sender tx) < mc_max_per_sender (mp_config P)"
    by linarith
  then show ?thesis
  proof cases
    case fits
    show ?thesis
    proof (cases "Mempool_size E P < mc_max_size (mp_config P)")
      case True
      then show ?thesis using fits room by (simp add: add Mempool_size_def)
    next
      case False
      obtain P' ev where pe: "try_evict_lowest E P (fee_per_byte (pe_json E) tx) = (P', ev)" by fastforce
      have eq: "Mempool_add E now P tx = (if \<not> ev then (P', Err (MempoolFull (mc_max_size (mp_config P))))
          else (insert_entry E now P' tx, Ok ()))"
        using fits False pe by (simp add: add Mempool_size_def)
      show ?thesis
        using try_evict_cases [OF inv pe] eq fits False full evict by (metis (no_types, lifting) not_le)
    qed
  qed (use dup low sender in \<open>simp_all add: add\<close>)
qed

lemma add_inv:
  assumes E: "env_ok E" and inv: "pool_inv E P" and b: "pool_bounded E P"
  shows "pool_inv E (fst (Mempool_add E now P tx)) \<and> pool_bounded E (fst (Mempool_add E now P tx))"
  using inv
proof (cases rule: add_cases [where tx = tx and now = now])
  case (evict i e)
  note inv' = take_out_inv [OF E inv evict(5)] and b' = take_out_bounded [OF E evict(5) b]
  have new: "entry_at E (take_out E P i e) (tx_id tx) = None" using evict(1) by (simp add: entry_take_out [OF E])
  have "dm_len (pe_txs E) (mp_transactions (take_out E P i e)) < mc_max_size (mp_config P)"
    using b b'(2) by (simp add: pool_bounded_def)
  moreover have "sender_total E (mp_transactions (take_out E P i e)) (tx_sender tx) < mc_max_per_sender (mp_config P)"
    using evict(3) sender_total_remove [OF E evict(5), of "tx_sender tx"] by (simp add: take_out_def)
  ultimately show ?thesis
    using insert_entry_inv [OF E inv' new] insert_entry_bounded [OF E new b'(1)] evict(8) by simp
next
  case room
  then show ?thesis
    using insert_entry_inv [OF E inv room(1)] insert_entry_bounded [OF E room(1) b]
    by (simp add: Mempool_size_def)
qed (use inv b in simp_all)

section \<open>Removing\<close>

lemma remove_inv:
  assumes "env_ok E" "pool_inv E P" "pool_bounded E P"
  shows "pool_inv E (fst (Mempool_remove E P i)) \<and> pool_bounded E (fst (Mempool_remove E P i))"
  using assms take_out_inv take_out_bounded(1)
  by (cases "entry_at E P i") (auto simp: Mempool_remove_eq)

lemma entry_remove:
  "env_ok E \<Longrightarrow> entry_at E (fst (Mempool_remove E P i)) j = (if j = i then None else entry_at E P j)"
  by (simp add: Mempool_remove_eq entry_take_out split: option.split)

lemma remove_batch_inv:
  "env_ok E \<Longrightarrow> pool_inv E P \<Longrightarrow> pool_bounded E P \<Longrightarrow>
   pool_inv E (Mempool_remove_batch E P is) \<and> pool_bounded E (Mempool_remove_batch E P is)"
  by (induction "is" arbitrary: P) (simp_all add: remove_inv)

lemma entry_remove_batch:
  "env_ok E \<Longrightarrow> entry_at E (Mempool_remove_batch E P is) j = (if j \<in> set is then None else entry_at E P j)"
  by (induction "is" arbitrary: P) (simp_all add: entry_remove)

lemma new_pool_inv: "env_ok E \<Longrightarrow> pool_inv E (Mempool_new E cfg) \<and> pool_bounded E (Mempool_new E cfg)"
  by (auto simp: pool_inv_def pool_bounded_def entries_ok_def index_ok_def counts_ok_def Mempool_new_def
      env_ok_def dm_get_simps bt_invar_def dm_len_def dm_iter_new sender_total_def)

lemma clear_eq: "Mempool_clear E P = Mempool_new E (mp_config P)"
  by (simp add: Mempool_clear_def Mempool_new_def)

section \<open>Reachable pools\<close>

inductive pool_step :: "('t, 's) pool_env \<Rightarrow> ('t, 's) Mempool \<Rightarrow> ('t, 's) Mempool \<Rightarrow> bool" for E where
  add: "pool_step E P (fst (Mempool_add E now P tx))"
| remove: "pool_step E P (fst (Mempool_remove E P i))"
| remove_batch: "pool_step E P (Mempool_remove_batch E P is)"
| expire: "pool_step E P (fst (Mempool_expire_old E now P))"
| clear: "pool_step E P (Mempool_clear E P)"

lemma pool_step_inv:
  "pool_step E P P' \<Longrightarrow> env_ok E \<Longrightarrow> pool_inv E P \<and> pool_bounded E P \<Longrightarrow> pool_inv E P' \<and> pool_bounded E P'"
  by (induction rule: pool_step.induct)
    (simp_all add: add_inv remove_inv remove_batch_inv Mempool_expire_old_def Let_def clear_eq new_pool_inv)

lemma pool_reachable_inv:
  "(pool_step E)\<^sup>*\<^sup>* (Mempool_new E cfg) P \<Longrightarrow> env_ok E \<Longrightarrow> pool_inv E P \<and> pool_bounded E P"
proof (induction rule: rtranclp_induct)
  case base
  then show ?case by (rule new_pool_inv)
next
  case (step y z)
  from step(2,4) step(3) [OF step(4)] show ?case by (rule pool_step_inv)
qed

lemma pool_step_config: "pool_step E P P' \<Longrightarrow> mp_config P' = mp_config P"
proof -
  have evict: "mp_config (fst (try_evict_lowest E P fpb)) = mp_config P" for P fpb
    by (simp add: try_evict_lowest_def Let_def split: option.split prod.split)
  have add: "mp_config (fst (Mempool_add E now P tx)) = mp_config P" for P tx now
    using evict [of P "fee_per_byte (pe_json E) tx"]
    by (cases "try_evict_lowest E P (fee_per_byte (pe_json E) tx)")
      (simp add: Mempool_add_def Let_def insert_entry_def)
  have rem: "mp_config (fst (Mempool_remove E P i)) = mp_config P" for P i
    by (simp add: Mempool_remove_eq split: option.split)
  have batch: "mp_config (Mempool_remove_batch E P is) = mp_config P" for P "is"
    by (induction "is" arbitrary: P) (simp_all add: rem)
  show "pool_step E P P' \<Longrightarrow> mp_config P' = mp_config P"
    by (induction rule: pool_step.induct)
      (simp_all add: add rem batch Mempool_expire_old_def Let_def Mempool_clear_def)
qed

lemma pool_reachable_config: "(pool_step E)\<^sup>*\<^sup>* (Mempool_new E cfg) P \<Longrightarrow> mp_config P = cfg"
  by (induction rule: rtranclp_induct) (simp_all add: Mempool_new_def pool_step_config)

section \<open>Selection\<close>

lemma select_loop_eq:
  "\<forall>p\<in>set index. dm_get (pe_txs E) txs (snd p) \<noteq> None \<Longrightarrow>
   select_loop E txs k index res =
     res @ take (k - length res) (map (\<lambda>p. me_transaction (the (dm_get (pe_txs E) txs (snd p)))) index)"
proof (induction E txs k index res rule: select_loop.induct)
  case (2 E txs k key i index res)
  show ?case
  proof (cases "k \<le> length res")
    case False
    obtain e where e: "dm_get (pe_txs E) txs i = Some e" using 2(3) by auto
    have "k - length res = Suc (k - length (res @ [me_transaction e]))" using False by simp
    then show ?thesis using 2(2) [OF False e] 2(3) False e by simp
  qed simp
qed simp

definition before :: "MempoolEntry \<Rightarrow> MempoolEntry \<Rightarrow> bool" where
  "before a b \<longleftrightarrow> me_fee_per_byte b < me_fee_per_byte a \<or> me_fee_per_byte a = me_fee_per_byte b \<and>
     (me_added_at a < me_added_at b \<or> me_added_at a = me_added_at b \<and>
      tx_id (me_transaction a) < tx_id (me_transaction b))"

lemma inverted_less: "- 1 - a < - 1 - b \<longleftrightarrow> b < (a :: u64)"
proof -
  have "unat (- 1 - x) = 2 ^ 64 - 1 - unat x" for x :: u64
    by (subst unat_sub) (simp_all add: unsigned_minus_1_eq_mask mask_eq_exp_minus_1)
  then show ?thesis using unat_less_64 [of a] unat_less_64 [of b] by (auto simp: word_less_nat_alt)
qed

lemma fee_key_less: "fee_key_of a < fee_key_of b \<longleftrightarrow> before a b"
  by (auto simp: less_FeeKey_def fee_key_of_def before_def inverted_less)

lemma select_sorted:
  assumes inv: "pool_inv E P"
  shows "\<exists>L. sorted_wrt before L \<and> set L = {e. \<exists>i. entry_at E P i = Some e} \<and>
    Mempool_select_transactions E P k = map me_transaction (take k L)"
proof -
  let ?ent = "\<lambda>p. the (entry_at E P (snd p))"
  let ?L = "map ?ent (mp_fee_index P)"
  have mem: "\<exists>e. entry_at E P (snd p) = Some e \<and> fst p = fee_key_of e" if "p \<in> set (mp_fee_index P)" for p
    using index_mem [OF inv, of "fst p" "snd p"] that by simp
  have keys: "map fst (mp_fee_index P) = map fee_key_of ?L"
    unfolding map_map by (rule map_cong [OF refl]) (use mem in fastforce)
  have "sorted_wrt (<) (map fst (mp_fee_index P))" using inv by (simp add: pool_inv_def index_ok_def bt_invar_def)
  then have "sorted_wrt (\<lambda>a b. fee_key_of a < fee_key_of b) ?L" unfolding keys sorted_wrt_map .
  then have "sorted_wrt before ?L" by (simp only: fee_key_less)
  moreover have "set ?L = {e. \<exists>i. entry_at E P i = Some e}"
  proof (intro equalityI subsetI)
    fix e assume "e \<in> set ?L"
    then obtain p where "p \<in> set (mp_fee_index P)" "e = ?ent p" by auto
    then show "e \<in> {e. \<exists>i. entry_at E P i = Some e}" using mem [of p] by auto
  next
    fix e assume "e \<in> {e. \<exists>i. entry_at E P i = Some e}"
    then obtain i where i: "entry_at E P i = Some e" by blast
    then have "(fee_key_of e, i) \<in> set (mp_fee_index P)" using index_mem [OF inv] by blast
    then show "e \<in> set ?L" using i by force
  qed
  moreover have "Mempool_select_transactions E P k = map me_transaction (take k ?L)"
    unfolding Mempool_select_transactions_def
    using select_loop_eq [of "mp_fee_index P" E "mp_transactions P" k "[]"] mem
    by (fastforce simp: take_map comp_def)
  ultimately show ?thesis by blast
qed

section \<open>Properties\<close>

text \<open>
  C18. The indices of the pool agree: after any sequence of calls on a new pool, every entry is stored
  under its own transaction ID with its own fee density, the fee index lists exactly the pending
  entries, and the count kept for a sender is the number of its pending transactions.
\<close>
theorem mempool_indices_agree:
  assumes "env_ok E" and "(pool_step E)\<^sup>*\<^sup>* (Mempool_new E cfg) P"
  shows "(\<forall>i e. entry_at E P i = Some e \<longrightarrow>
      tx_id (me_transaction e) = i \<and> me_fee_per_byte e = fee_per_byte (pe_json E) (me_transaction e)) \<and>
    set (mp_fee_index P) = {(fee_key_of e, i) | i e. entry_at E P i = Some e} \<and>
    sorted_wrt (<) (map fst (mp_fee_index P)) \<and>
    (\<forall>s. (case dm_get (pe_counts E) (mp_sender_counts P) s of Some n \<Rightarrow> n | None \<Rightarrow> 0)
         = length (Mempool_pending_for_sender E P s))"
  using pool_reachable_inv [OF assms(2,1)]
  by (simp add: pool_inv_def entries_ok_def index_ok_def bt_invar_def sender_count_eq sender_total_pending)

text \<open>
  C19. The pool is bounded: a reachable pool never holds more than \<open>max_size\<close> transactions, nor more than
  \<open>max_per_sender\<close> of one sender.
\<close>
theorem mempool_bounds:
  assumes "env_ok E" and "(pool_step E)\<^sup>*\<^sup>* (Mempool_new E cfg) P"
  shows "Mempool_size E P \<le> mc_max_size cfg \<and>
    length (Mempool_pending_for_sender E P s) \<le> mc_max_per_sender cfg"
  using pool_reachable_inv [OF assms(2,1)] pool_reachable_config [OF assms(2)]
  by (simp add: pool_bounded_def Mempool_size_def sender_total_pending)

text \<open>
  C20. The outcomes of \<open>add\<close> on a reachable pool. An error leaves the pool as it was and has the cause it
  names. On success the transaction is pending; if there was room nothing else changes, and if the
  pool was full exactly one entry is gone, one of least fee density and strictly below the new one.
\<close>
theorem mempool_add_outcomes:
  assumes E: "env_ok E" and reach: "(pool_step E)\<^sup>*\<^sup>* (Mempool_new E cfg) P" and add: "Mempool_add E now P tx = (P', r)"
  shows "(case r of
      Err DuplicateTransaction \<Rightarrow> P' = P \<and> Mempool_contains E P (tx_id tx)
    | Err (FeeTooLow mn got) \<Rightarrow> P' = P \<and> mn = mc_min_fee cfg \<and> got = tx_fee tx \<and> got < mn
    | Err (SenderLimitExceeded s n) \<Rightarrow> P' = P \<and> s = tx_sender tx \<and> n = mc_max_per_sender cfg \<and>
        length (Mempool_pending_for_sender E P s) = n
    | Err (MempoolFull n) \<Rightarrow> P' = P \<and> n = mc_max_size cfg \<and> Mempool_size E P = n \<and>
        (\<forall>j f. entry_at E P j = Some f \<longrightarrow> fee_per_byte (pe_json E) tx \<le> me_fee_per_byte f)
    | Ok _ \<Rightarrow> \<not> Mempool_contains E P (tx_id tx) \<and> Mempool_get E P' (tx_id tx) = Some tx \<and>
        (\<exists>victim. (\<forall>j. j \<noteq> tx_id tx \<longrightarrow> entry_at E P' j = (if victim = Some j then None else entry_at E P j)) \<and>
          (case victim of
             None \<Rightarrow> Mempool_size E P < mc_max_size cfg
           | Some i \<Rightarrow> Mempool_size E P = mc_max_size cfg \<and>
               (\<exists>e. entry_at E P i = Some e \<and> me_fee_per_byte e < fee_per_byte (pe_json E) tx \<and>
                  (\<forall>j f. entry_at E P j = Some f \<longrightarrow> me_fee_per_byte e \<le> me_fee_per_byte f)))))"
proof -
  have inv: "pool_inv E P" and size: "Mempool_size E P \<le> mc_max_size cfg"
    and snd: "length (Mempool_pending_for_sender E P s) \<le> mc_max_per_sender cfg" for s
    using pool_reachable_inv [OF reach E] pool_reachable_config [OF reach]
    by (simp_all add: pool_bounded_def Mempool_size_def sender_total_pending)
  note cfg = pool_reachable_config [OF reach]
  from inv show ?thesis
  proof (cases rule: add_cases [where tx = tx and now = now])
    case (evict i e)
    then have "i \<noteq> tx_id tx" by auto
    then show ?thesis
      using evict add size
      by (auto simp: cfg Mempool_contains_def Mempool_get_def entry_insert [OF E] entry_take_out [OF E]
          intro!: exI [of _ "Some i"])
  next
    case room
    then show ?thesis
      using add by (auto simp: cfg Mempool_contains_def Mempool_get_def entry_insert [OF E] intro!: exI [of _ None])
  next
    case sender
    then show ?thesis using add snd [of "tx_sender tx"] by (auto simp: cfg sender_total_pending)
  next
    case full
    then show ?thesis using add size by (auto simp: cfg)
  qed (use add in \<open>auto simp: cfg Mempool_contains_def\<close>)
qed

text \<open>
  C21. Block proposals take the best-paying transactions: \<open>select_transactions(k)\<close> is the first \<open>k\<close> of all
  pending entries in the order of higher fee density, then earlier arrival, then smaller ID.
\<close>
theorem select_by_fee:
  assumes "env_ok E" and "(pool_step E)\<^sup>*\<^sup>* (Mempool_new E cfg) P"
  shows "\<exists>L. sorted_wrt before L \<and> set L = {e. \<exists>i. entry_at E P i = Some e} \<and>
    Mempool_select_transactions E P k = map me_transaction (take k L)"
  using pool_reachable_inv [OF assms(2,1)] select_sorted by blast

text \<open>
  Expiry is exact: \<open>expire_old\<close> removes the entries added before the cutoff and no others, and
  returns how many there were; the cutoff saturates at zero.
\<close>
lemma expire_exact:
  assumes "env_ok E"
  shows "(\<forall>i. entry_at E (fst (Mempool_expire_old E now P)) i =
      (case entry_at E P i of
         None \<Rightarrow> None
       | Some e \<Rightarrow> if unat (me_added_at e) < unat now - unat (mc_expiry_seconds (mp_config P)) then None else Some e)) \<and>
    snd (Mempool_expire_old E now P) = card {i. \<exists>e. entry_at E P i = Some e \<and>
      unat (me_added_at e) < unat now - unat (mc_expiry_seconds (mp_config P))}"
proof -
  let ?old = "\<lambda>e. unat (me_added_at e) < unat now - unat (mc_expiry_seconds (mp_config P))"
  let ?ids = "map fst (filter (\<lambda>p. ?old (snd p)) (dm_iter (pe_txs E) (mp_transactions P)))"
  have D: "dashmap_ok (pe_txs E)" using assms by (simp add: env_ok_def)
  have set: "set ?ids = {i. \<exists>e. entry_at E P i = Some e \<and> ?old e}"
    by (force simp flip: dm_mem_iter [OF D])
  have eq: "Mempool_expire_old E now P = (Mempool_remove_batch E P ?ids, length ?ids)"
    by (simp add: Mempool_expire_old_def Let_def word_less_nat_alt unat_saturating_sub)
  have "distinct ?ids" using dm_distinct_iter [OF D] by (rule distinct_map_filter)
  then have "length ?ids = card {i. \<exists>e. entry_at E P i = Some e \<and> ?old e}"
    unfolding set [symmetric] by (rule distinct_card [symmetric])
  then show ?thesis
    unfolding eq fst_conv snd_conv entry_remove_batch [OF assms] set by (auto split: option.split)
qed

section \<open>Witnesses\<close>

definition demo_pool_env :: "((string \<times> MempoolEntry) list, (string \<times> nat) list) pool_env" where
  "demo_pool_env = \<lparr>pe_json = (\<lambda>tx. Ok (as_bytes (tx_id tx))), pe_txs = demo_dashmap, pe_counts = demo_dashmap\<rparr>"

definition small_config :: MempoolConfig where
  "small_config = \<lparr>mc_max_size = 1, mc_max_per_sender = 1, mc_expiry_seconds = 10, mc_min_fee = 0\<rparr>"

definition demo_pool :: "((string \<times> MempoolEntry) list, (string \<times> nat) list) Mempool" where
  "demo_pool = fst (Mempool_add demo_pool_env 5 (Mempool_new demo_pool_env small_config) demo_tx)"

lemma demo_pool_env_ok: "env_ok demo_pool_env"
  by (simp add: env_ok_def demo_pool_env_def demo_dashmap_ok)

lemma demo_pool_reachable: "(pool_step demo_pool_env)\<^sup>*\<^sup>* (Mempool_new demo_pool_env small_config) demo_pool"
  unfolding demo_pool_def by (blast intro: pool_step.add)

lemma demo_pool_entry:
  "entry_at demo_pool_env demo_pool (tx_id demo_tx) =
     Some \<lparr>me_transaction = demo_tx, me_added_at = 5, me_fee_per_byte = fee_per_byte (pe_json demo_pool_env) demo_tx\<rparr>"
  by (simp add: demo_pool_def Mempool_add_def Mempool_new_def insert_entry_def demo_pool_env_def demo_dashmap_def
      small_config_def dm_len_def Let_def)

theorem mempool_indices_agree_witness:
  "(\<exists>e. (fee_key_of e, tx_id demo_tx) \<in> set (mp_fee_index demo_pool))"
  using mempool_indices_agree [OF demo_pool_env_ok demo_pool_reachable] demo_pool_entry by blast

theorem mempool_bounds_witness:
  "Mempool_size demo_pool_env demo_pool \<le> 1 \<and> length (Mempool_pending_for_sender demo_pool_env demo_pool (tx_sender demo_tx)) \<le> 1"
  using mempool_bounds [OF demo_pool_env_ok demo_pool_reachable, of "tx_sender demo_tx"] by (simp add: small_config_def)

theorem mempool_add_outcomes_witness:
  "Mempool_contains demo_pool_env demo_pool (tx_id demo_tx) \<and>
   Mempool_add demo_pool_env 6 demo_pool demo_tx = (demo_pool, Err DuplicateTransaction)"
proof -
  have "Mempool_add demo_pool_env 6 demo_pool demo_tx = (demo_pool, Err DuplicateTransaction)"
    by (simp add: Mempool_add_def demo_pool_entry)
  from mempool_add_outcomes [OF demo_pool_env_ok demo_pool_reachable this] this show ?thesis by simp
qed

theorem select_by_fee_witness:
  "\<exists>L. set L = {e. \<exists>i. entry_at demo_pool_env demo_pool i = Some e} \<and>
     Mempool_select_transactions demo_pool_env demo_pool 1 = map me_transaction (take 1 L)"
  using select_by_fee [OF demo_pool_env_ok demo_pool_reachable, of 1] by blast

end
