(* ===== verification/Consensus.thy ===== *)
theory Consensus
  imports Blocks
begin

text \<open>
  The consensus engine, \<open>protocol/src/network/consensus.rs\<close>: the validator set with its rotation and
  quorum, votes, and the engine that proposes, validates and finalises blocks. Tracing output has no
  counterpart. \<open>json_header\<close> is the serialiser of block headers of \<open>serde_json\<close>, \<open>now\<close> the clock in
  milliseconds. The lemmas give quorum intersection, exactness of finality, the rotation of
  proposers, and that a proposed block is valid for an engine in the same state.
\<close>

section \<open>Configuration and validators\<close>

record ConsensusConfig =
  cc_block_time_ms :: u64
  cc_min_validators :: nat
  cc_max_validators :: nat
  cc_stake_requirement :: u64
  cc_epoch_length :: u64
  cc_max_block_transactions :: nat
  cc_round_timeout_ms :: u64

definition ConsensusConfig_default :: ConsensusConfig where
  "ConsensusConfig_default = \<lparr>cc_block_time_ms = 2000, cc_min_validators = 4, cc_max_validators = 100,
     cc_stake_requirement = 1000000000, cc_epoch_length = 100, cc_max_block_transactions = 1000,
     cc_round_timeout_ms = 5000\<rparr>"

record ValidatorInfo =
  vi_address :: string
  vi_stake :: u64
  vi_active :: bool
  vi_blocks_proposed :: u64
  vi_blocks_voted :: u64

record ValidatorSet =
  vs_validators :: "ValidatorInfo list"

definition ValidatorSet_new :: ValidatorSet where
  "ValidatorSet_new = \<lparr>vs_validators = []\<rparr>"

text \<open>\<open>sort_by\<close> is a stable sort; the comparison puts the larger stake first.\<close>

definition ValidatorSet_add_validator :: "ValidatorSet \<Rightarrow> string \<Rightarrow> u64 \<Rightarrow> ValidatorSet" where
  "ValidatorSet_add_validator vs address stake =
     \<lparr>vs_validators = sort_key (\<lambda>v. - int (unat (vi_stake v)))
        (vs_validators vs @ [\<lparr>vi_address = address, vi_stake = stake, vi_active = True,
                               vi_blocks_proposed = 0, vi_blocks_voted = 0\<rparr>])\<rparr>"

definition ValidatorSet_remove_validator :: "ValidatorSet \<Rightarrow> string \<Rightarrow> ValidatorSet" where
  "ValidatorSet_remove_validator vs address =
     \<lparr>vs_validators = filter (\<lambda>v. vi_address v \<noteq> address) (vs_validators vs)\<rparr>"

definition ValidatorSet_len :: "ValidatorSet \<Rightarrow> nat" where
  "ValidatorSet_len vs = length (vs_validators vs)"

definition ValidatorSet_is_empty :: "ValidatorSet \<Rightarrow> bool" where
  "ValidatorSet_is_empty vs \<longleftrightarrow> vs_validators vs = []"

definition ValidatorSet_get :: "ValidatorSet \<Rightarrow> nat \<Rightarrow> ValidatorInfo option" where
  "ValidatorSet_get vs index =
     (if index < length (vs_validators vs) then Some (vs_validators vs ! index) else None)"

definition ValidatorSet_proposer_for_round :: "ValidatorSet \<Rightarrow> u64 \<Rightarrow> ValidatorInfo option" where
  "ValidatorSet_proposer_for_round vs round =
     (let active = filter vi_active (vs_validators vs) in
      if active = [] then None
      else let index = unat round mod length active in Some (active ! index))"

definition ValidatorSet_quorum_threshold :: "ValidatorSet \<Rightarrow> nat" where
  "ValidatorSet_quorum_threshold vs =
     (let active_count = length (filter vi_active (vs_validators vs)) in
      if active_count = 0 then 0 else 2 * active_count div 3 + 1)"

definition ValidatorSet_total_stake :: "ValidatorSet \<Rightarrow> u64" where
  "ValidatorSet_total_stake vs = sum_list (map vi_stake (filter vi_active (vs_validators vs)))"

definition ValidatorSet_contains :: "ValidatorSet \<Rightarrow> string \<Rightarrow> bool" where
  "ValidatorSet_contains vs address \<longleftrightarrow>
     list_ex (\<lambda>v. vi_address v = address \<and> vi_active v) (vs_validators vs)"

section \<open>Rounds and votes\<close>

datatype ConsensusRound = Propose | Prevote | Precommit | Commit

fun ConsensusRound_next :: "ConsensusRound \<Rightarrow> ConsensusRound option" where
  "ConsensusRound_next Propose = Some Prevote"
| "ConsensusRound_next Prevote = Some Precommit"
| "ConsensusRound_next Precommit = Some Commit"
| "ConsensusRound_next Commit = None"

record Vote =
  vt_validator :: string
  vt_block_hash :: bytes
  vt_signature :: NovaSignature
  vt_round :: u64

definition Vote_new :: "crypto \<Rightarrow> NovaKeypair \<Rightarrow> bytes \<Rightarrow> u64 \<Rightarrow> Vote" where
  "Vote_new C keypair block_hash round =
     (let message = block_hash @ u64_to_le_bytes round
      in \<lparr>vt_validator = NovaPublicKey_to_hex C (NovaKeypair_public_key C keypair),
          vt_block_hash = block_hash, vt_signature = NovaKeypair_sign C keypair message, vt_round = round\<rparr>)"

definition Vote_verify :: "crypto \<Rightarrow> Vote \<Rightarrow> bool" where
  "Vote_verify C vote =
     (case NovaPublicKey_from_hex C (vt_validator vote) of
        Err _ \<Rightarrow> False
      | Ok pk \<Rightarrow> NovaPublicKey_verify C pk (vt_block_hash vote @ u64_to_le_bytes (vt_round vote)) (vt_signature vote))"

record FinalizedBlock =
  fb_block :: Block
  fb_votes :: "Vote list"
  fb_round :: u64

datatype ConsensusError =
    InsufficientValidators nat nat
  | UnauthorizedProposer string
  | UnexpectedHeight u64 u64
  | InvalidParentHash
  | TooManyTransactions nat
  | InvalidTimestamp u64
  | InsufficientVotes nat nat
  | InvalidVote string
  | VoteFromNonValidator string
  | DuplicateVote string

section \<open>The engine\<close>

record ConsensusEngine =
  ce_config :: ConsensusConfig
  ce_validator_set :: ValidatorSet
  ce_current_round :: u64
  ce_current_phase :: ConsensusRound
  ce_next_height :: u64
  ce_last_block_hash :: bytes

definition ConsensusEngine_new :: "ConsensusConfig \<Rightarrow> ValidatorSet \<Rightarrow> ConsensusEngine" where
  "ConsensusEngine_new config validator_set =
     \<lparr>ce_config = config, ce_validator_set = validator_set, ce_current_round = 0,
      ce_current_phase = Propose, ce_next_height = 0, ce_last_block_hash = replicate 32 0\<rparr>"

definition compute_transactions_root :: "crypto \<Rightarrow> Transaction list \<Rightarrow> bytes" where
  "compute_transactions_root C transactions = c_blake3 C (concat (map (as_bytes \<circ> tx_id) transactions))"

type_synonym header_json = "BlockHeader \<Rightarrow> (bytes, string) result"

definition json_or_empty :: "('a \<Rightarrow> (bytes, string) result) \<Rightarrow> 'a \<Rightarrow> bytes" where
  "json_or_empty json x = (case json x of Ok b \<Rightarrow> b | Err _ \<Rightarrow> [])"

definition ConsensusEngine_propose_block ::
  "crypto \<Rightarrow> header_json \<Rightarrow> u64 \<Rightarrow> ConsensusEngine \<Rightarrow> Transaction list \<Rightarrow> NovaKeypair \<Rightarrow>
     (Block, ConsensusError) result" where
  "ConsensusEngine_propose_block C json_header now eng transactions proposer_keypair =
     (let proposer_address = NovaPublicKey_to_hex C (NovaKeypair_public_key C proposer_keypair) in
      case ValidatorSet_proposer_for_round (ce_validator_set eng) (ce_current_round eng) of
        None \<Rightarrow> Err (InsufficientValidators (ValidatorSet_len (ce_validator_set eng)) (cc_min_validators (ce_config eng)))
      | Some expected_proposer \<Rightarrow>
          if vi_address expected_proposer \<noteq> proposer_address then Err (UnauthorizedProposer proposer_address)
          else if length transactions > cc_max_block_transactions (ce_config eng)
          then Err (TooManyTransactions (length transactions))
          else
            let header = \<lparr>bh_height = ce_next_height eng, bh_hash = replicate 32 0,
                  bh_parent_hash = ce_last_block_hash eng, bh_timestamp = now,
                  bh_validator = proposer_address, bh_state_root = replicate 32 0,
                  bh_tx_root = compute_transactions_root C transactions, bh_signature = []\<rparr>;
                header = header\<lparr>bh_hash :=
                  Block_compute_hash C \<lparr>blk_header = header, blk_transactions = transactions\<rparr>\<rparr>;
                sig = NovaKeypair_sign C proposer_keypair (json_or_empty json_header header);
                header = header\<lparr>bh_signature := sig_bytes sig\<rparr>
            in Ok \<lparr>blk_header = header, blk_transactions = transactions\<rparr>)"

text \<open>A wrong transaction root is only logged.\<close>

definition ConsensusEngine_validate_block ::
  "crypto \<Rightarrow> header_json \<Rightarrow> ConsensusEngine \<Rightarrow> Block \<Rightarrow> (bool, ConsensusError) result" where
  "ConsensusEngine_validate_block C json_header eng block =
     (let h = blk_header block in
      if bh_height h \<noteq> ce_next_height eng then Err (UnexpectedHeight (ce_next_height eng) (bh_height h))
      else if bh_parent_hash h \<noteq> ce_last_block_hash eng then Err InvalidParentHash
      else if \<not> ValidatorSet_contains (ce_validator_set eng) (bh_validator h)
      then Err (UnauthorizedProposer (bh_validator h))
      else if length (blk_transactions block) > cc_max_block_transactions (ce_config eng)
      then Err (TooManyTransactions (length (blk_transactions block)))
      else case NovaPublicKey_from_hex C (bh_validator h) of
        Err _ \<Rightarrow> Err (UnauthorizedProposer (bh_validator h))
      | Ok proposer_pk \<Rightarrow>
          let header_bytes = json_or_empty json_header (h\<lparr>bh_signature := []\<rparr>) in
          if length (bh_signature h) \<noteq> 64 then Err (UnauthorizedProposer (bh_validator h))
          else if \<not> NovaPublicKey_verify C proposer_pk header_bytes (NovaSignature_from_bytes (bh_signature h))
          then Err (UnauthorizedProposer (bh_validator h))
          else Ok True)"

fun collect_votes ::
  "crypto \<Rightarrow> ValidatorSet \<Rightarrow> bytes \<Rightarrow> Vote list \<Rightarrow> (string, bool) HashMap \<Rightarrow> Vote list \<Rightarrow>
     (Vote list, ConsensusError) result" where
  "collect_votes C vs block_hash [] seen valid_votes = Ok valid_votes"
| "collect_votes C vs block_hash (vote # votes) seen valid_votes =
     (if vt_block_hash vote \<noteq> block_hash then collect_votes C vs block_hash votes seen valid_votes
      else if hm_get seen (vt_validator vote) \<noteq> None then Err (DuplicateVote (vt_validator vote))
      else if \<not> ValidatorSet_contains vs (vt_validator vote) then Err (VoteFromNonValidator (vt_validator vote))
      else if \<not> Vote_verify C vote then Err (InvalidVote (vt_validator vote))
      else collect_votes C vs block_hash votes (hm_insert seen (vt_validator vote) True) (valid_votes @ [vote]))"

definition ConsensusEngine_finalize_block ::
  "crypto \<Rightarrow> ConsensusEngine \<Rightarrow> Block \<Rightarrow> Vote list \<Rightarrow> ConsensusEngine \<times> (FinalizedBlock, ConsensusError) result" where
  "ConsensusEngine_finalize_block C eng block votes =
     (let block_hash = bh_hash (blk_header block);
          quorum = ValidatorSet_quorum_threshold (ce_validator_set eng)
      in case collect_votes C (ce_validator_set eng) block_hash votes hm_new [] of
           Err e \<Rightarrow> (eng, Err e)
         | Ok valid_votes \<Rightarrow>
             if length valid_votes < quorum then (eng, Err (InsufficientVotes (length valid_votes) quorum))
             else (eng\<lparr>ce_last_block_hash := block_hash, ce_next_height := ce_next_height eng + 1,
                       ce_current_round := ce_current_round eng + 1, ce_current_phase := Propose\<rparr>,
                   Ok \<lparr>fb_block = block, fb_votes = valid_votes, fb_round = ce_current_round eng\<rparr>))"

definition ConsensusEngine_advance_round :: "ConsensusEngine \<Rightarrow> ConsensusEngine" where
  "ConsensusEngine_advance_round eng =
     eng\<lparr>ce_current_round := ce_current_round eng + 1, ce_current_phase := Propose\<rparr>"

definition ConsensusEngine_advance_phase :: "ConsensusEngine \<Rightarrow> ConsensusEngine \<times> ConsensusRound option" where
  "ConsensusEngine_advance_phase eng =
     (case ConsensusRound_next (ce_current_phase eng) of
        Some nxt \<Rightarrow> (eng\<lparr>ce_current_phase := nxt\<rparr>, Some nxt)
      | None \<Rightarrow> (eng, None))"

definition ConsensusEngine_update_validator_set :: "ConsensusEngine \<Rightarrow> ValidatorSet \<Rightarrow> ConsensusEngine" where
  "ConsensusEngine_update_validator_set eng new_set = eng\<lparr>ce_validator_set := new_set\<rparr>"

definition ConsensusEngine_set_chain_state :: "ConsensusEngine \<Rightarrow> u64 \<Rightarrow> bytes \<Rightarrow> ConsensusEngine" where
  "ConsensusEngine_set_chain_state eng height last_hash =
     eng\<lparr>ce_next_height := height, ce_last_block_hash := last_hash\<rparr>"

section \<open>Quorums\<close>

text \<open>A threshold above two thirds: any two quorums share more than a third of the members.\<close>

locale quorum_system =
  fixes members :: "'v \<Rightarrow> 'a set" and population :: "'v \<Rightarrow> nat" and threshold :: "'v \<Rightarrow> nat"
  assumes finite_members: "finite (members v)"
    and card_members: "card (members v) \<le> population v"
    and two_thirds: "0 < population v \<Longrightarrow> 2 * population v < 3 * threshold v"
begin

lemma quorum_overlap:
  assumes "A \<subseteq> members v" "B \<subseteq> members v" "threshold v \<le> card A" "threshold v \<le> card B" "0 < population v"
  shows "population v < 3 * card (A \<inter> B)"
proof -
  have fin: "finite A" "finite B" using assms(1,2) finite_members finite_subset by blast+
  have "card (A \<union> B) \<le> population v"
    using assms(1,2) card_mono [OF finite_members] card_members by (metis Un_least order_trans)
  moreover have "card A + card B = card (A \<union> B) + card (A \<inter> B)" using fin by (rule card_Un_Int)
  ultimately show ?thesis using assms(3,4) two_thirds [OF assms(5)] by linarith
qed

lemma common_member:
  assumes "A \<subseteq> members v" "B \<subseteq> members v" "threshold v \<le> card A" "threshold v \<le> card B" "0 < population v"
    and "3 * card F \<le> population v" "finite F"
  obtains x where "x \<in> A" "x \<in> B" "x \<notin> F"
proof -
  have "card F < card (A \<inter> B)" using quorum_overlap [OF assms(1-5)] assms(6) by linarith
  then have "\<not> A \<inter> B \<subseteq> F" using card_mono [OF assms(7)] by (meson not_le)
  then show ?thesis using that by blast
qed

end

definition actives :: "ValidatorSet \<Rightarrow> ValidatorInfo list" where
  "actives vs = filter vi_active (vs_validators vs)"

definition active_addresses :: "ValidatorSet \<Rightarrow> string set" where
  "active_addresses vs = vi_address ` set (actives vs)"

interpretation vset: quorum_system active_addresses "\<lambda>vs. length (actives vs)" ValidatorSet_quorum_threshold
proof
  fix vs
  show "finite (active_addresses vs)" by (simp add: active_addresses_def)
  show "card (active_addresses vs) \<le> length (actives vs)"
    unfolding active_addresses_def by (metis card_image_le card_length finite_set order_trans)
  show "0 < length (actives vs) \<Longrightarrow> 2 * length (actives vs) < 3 * ValidatorSet_quorum_threshold vs"
    by (simp add: ValidatorSet_quorum_threshold_def actives_def Let_def)
qed

lemma contains_iff: "ValidatorSet_contains vs a \<longleftrightarrow> a \<in> active_addresses vs"
  by (auto simp: ValidatorSet_contains_def active_addresses_def actives_def list_ex_iff)

section \<open>Finality\<close>

text \<open>What \<open>finalize_block\<close> accepts: the votes for the block are by distinct active validators and verify.\<close>

definition votes_for :: "bytes \<Rightarrow> Vote list \<Rightarrow> Vote list" where
  "votes_for h votes = filter (\<lambda>v. vt_block_hash v = h) votes"

definition votes_ok :: "crypto \<Rightarrow> ValidatorSet \<Rightarrow> Vote list \<Rightarrow> bool" where
  "votes_ok C vs votes \<longleftrightarrow> distinct (map vt_validator votes) \<and>
     (\<forall>v\<in>set votes. vt_validator v \<in> active_addresses vs \<and> Vote_verify C v)"

lemma collect_votes_Ok_iff:
  "collect_votes C vs h votes seen acc = Ok res \<longleftrightarrow>
     res = acc @ votes_for h votes \<and> votes_ok C vs (votes_for h votes) \<and>
     (\<forall>v\<in>set (votes_for h votes). hm_get seen (vt_validator v) = None)"
proof (induction C vs h votes seen acc rule: collect_votes.induct)
  case (1 C vs h seen acc)
  then show ?case by (auto simp: votes_for_def votes_ok_def)
next
  case (2 C vs h vote votes seen acc)
  show ?case
  proof (cases "vt_block_hash vote = h")
    case False
    then show ?thesis using 2(1) by (simp add: votes_for_def)
  next
    case True
    let ?step = "hm_get seen (vt_validator vote) = None \<and> vt_validator vote \<in> active_addresses vs \<and> Vote_verify C vote"
    have "collect_votes C vs h (vote # votes) seen acc = Ok res \<longleftrightarrow> ?step \<and>
        collect_votes C vs h votes (hm_insert seen (vt_validator vote) True) (acc @ [vote]) = Ok res"
      using True by (simp add: contains_iff)
    also have "\<dots> \<longleftrightarrow> ?step \<and> res = acc @ vote # votes_for h votes \<and> votes_ok C vs (votes_for h votes) \<and>
        (\<forall>v\<in>set (votes_for h votes). hm_get (hm_insert seen (vt_validator vote) True) (vt_validator v) = None)"
    proof (cases ?step)
      case step: True
      then show ?thesis using 2(2) True by (simp only: contains_iff not_not append_assoc append.simps simp_thms)
    qed blast
    also have "\<dots> \<longleftrightarrow> res = acc @ votes_for h (vote # votes) \<and> votes_ok C vs (votes_for h (vote # votes)) \<and>
        (\<forall>v\<in>set (votes_for h (vote # votes)). hm_get seen (vt_validator v) = None)"
      using True by (auto simp: votes_for_def votes_ok_def image_iff split: if_splits)
    finally show ?thesis .
  qed
qed

lemma finalize_Ok_iff:
  "ConsensusEngine_finalize_block C eng block votes = (eng', Ok f) \<longleftrightarrow>
     votes_ok C (ce_validator_set eng) (votes_for (bh_hash (blk_header block)) votes) \<and>
     ValidatorSet_quorum_threshold (ce_validator_set eng) \<le> length (votes_for (bh_hash (blk_header block)) votes) \<and>
     f = \<lparr>fb_block = block, fb_votes = votes_for (bh_hash (blk_header block)) votes, fb_round = ce_current_round eng\<rparr> \<and>
     eng' = eng\<lparr>ce_last_block_hash := bh_hash (blk_header block), ce_next_height := ce_next_height eng + 1,
                ce_current_round := ce_current_round eng + 1, ce_current_phase := Propose\<rparr>"
proof (cases "collect_votes C (ce_validator_set eng) (bh_hash (blk_header block)) votes hm_new []")
  case (Ok res)
  from this [unfolded collect_votes_Ok_iff]
  have res: "res = votes_for (bh_hash (blk_header block)) votes"
    "votes_ok C (ce_validator_set eng) (votes_for (bh_hash (blk_header block)) votes)" by simp_all
  then show ?thesis using Ok by (auto simp: ConsensusEngine_finalize_block_def Let_def not_less)
next
  case (Err e)
  then have "\<not> votes_ok C (ce_validator_set eng) (votes_for (bh_hash (blk_header block)) votes)"
    using collect_votes_Ok_iff [of C "ce_validator_set eng" "bh_hash (blk_header block)" votes hm_new "[]"] by auto
  then show ?thesis using Err by (simp add: ConsensusEngine_finalize_block_def Let_def)
qed

lemma finalize_Err: "ConsensusEngine_finalize_block C eng block votes = (eng', Err e) \<Longrightarrow> eng' = eng"
  by (auto simp: ConsensusEngine_finalize_block_def Let_def split: result.splits if_splits)

lemma finalized_quorum:
  assumes "ConsensusEngine_finalize_block C eng block votes = (eng', Ok f)"
  shows "vt_validator ` set (fb_votes f) \<subseteq> active_addresses (ce_validator_set eng)"
    and "ValidatorSet_quorum_threshold (ce_validator_set eng) \<le> card (vt_validator ` set (fb_votes f))"
    and "v \<in> set (fb_votes f) \<Longrightarrow> vt_block_hash v = bh_hash (blk_header block) \<and> Vote_verify C v"
proof -
  note f = assms [unfolded finalize_Ok_iff]
  show "vt_validator ` set (fb_votes f) \<subseteq> active_addresses (ce_validator_set eng)"
    using f by (auto simp: votes_ok_def)
  have "card (vt_validator ` set (fb_votes f)) = length (fb_votes f)"
    using f distinct_card [of "map vt_validator (fb_votes f)"] by (simp add: votes_ok_def)
  then show "ValidatorSet_quorum_threshold (ce_validator_set eng) \<le> card (vt_validator ` set (fb_votes f))"
    using f by simp
  show "v \<in> set (fb_votes f) \<Longrightarrow> vt_block_hash v = bh_hash (blk_header block) \<and> Vote_verify C v"
    using f by (simp add: votes_ok_def) (simp add: votes_for_def)
qed

text \<open>Two boundary cases: no active validator, and votes of other rounds.\<close>

lemma empty_set_finalizes:
  "actives (ce_validator_set eng) = [] \<Longrightarrow>
   \<exists>eng' f. ConsensusEngine_finalize_block C eng block [] = (eng', Ok f) \<and> fb_votes f = []"
  by (simp add: finalize_Ok_iff votes_for_def votes_ok_def ValidatorSet_quorum_threshold_def actives_def)

lemma finalize_ignores_round:
  "(\<exists>eng' f. ConsensusEngine_finalize_block C eng block votes = (eng', Ok f)) \<longleftrightarrow>
   (\<exists>eng' f. ConsensusEngine_finalize_block C (eng\<lparr>ce_current_round := r\<rparr>) block votes = (eng', Ok f))"
  by (simp add: finalize_Ok_iff)

section \<open>Rotation\<close>

inductive vset_reachable :: "ValidatorSet \<Rightarrow> bool" where
  new: "vset_reachable ValidatorSet_new"
| add: "vset_reachable vs \<Longrightarrow> vset_reachable (ValidatorSet_add_validator vs a stake)"
| remove: "vset_reachable vs \<Longrightarrow> vset_reachable (ValidatorSet_remove_validator vs a)"

lemma vset_sorted: "vset_reachable vs \<Longrightarrow> sorted_wrt (\<lambda>a b. vi_stake b \<le> vi_stake a) (vs_validators vs)"
proof (induction rule: vset_reachable.induct)
  case new
  then show ?case by (simp add: ValidatorSet_new_def)
next
  case (add vs a stake)
  have "sorted (map (\<lambda>v. - int (unat (vi_stake v))) (vs_validators (ValidatorSet_add_validator vs a stake)))"
    by (simp add: ValidatorSet_add_validator_def)
  then show ?case by (simp add: sorted_map word_le_def)
next
  case (remove vs a)
  then show ?case by (simp add: ValidatorSet_remove_validator_def sorted_wrt_filter)
qed

lemma proposer_eq:
  "actives vs \<noteq> [] \<Longrightarrow>
   ValidatorSet_proposer_for_round vs r = Some (actives vs ! (unat r mod length (actives vs)))"
  by (simp add: ValidatorSet_proposer_for_round_def actives_def Let_def)

lemma hits_residue:
  fixes r n i :: nat
  assumes "i < n"
  shows "\<exists>k<n. (r + k) mod n = i"
proof -
  let ?k = "(i + (n - r mod n)) mod n"
  have "(r + ?k) mod n = (r mod n + (i + (n - r mod n))) mod n" by (metis mod_add_left_eq mod_add_right_eq)
  also have "r mod n + (i + (n - r mod n)) = i + n" using mod_less_divisor [of n r] assms by linarith
  finally show ?thesis using assms by (intro exI [of _ ?k]) simp
qed

section \<open>Proposals\<close>

text \<open>A proposed block carries a root that \<open>Block::verify\<close> does not recompute.\<close>

lemma proposed_tx_root:
  "ConsensusEngine_propose_block C J now eng txs kp = Ok b \<Longrightarrow>
   bh_tx_root (blk_header b) = compute_transactions_root C txs \<and> blk_transactions b = txs"
  by (auto simp: ConsensusEngine_propose_block_def Let_def split: option.splits if_splits)

lemma proposed_block_fails_verify:
  "ConsensusEngine_propose_block C J now eng txs kp = Ok b \<Longrightarrow>
   compute_transactions_root C txs \<noteq> compute_merkle_root C json txs \<Longrightarrow> Block_verify C json b \<noteq> Ok ()"
  using proposed_tx_root by (fastforce simp: Block_verify_iff)

lemma proposed_fields:
  assumes C: "crypto_ok C" and kp: "length (signing_key kp) = 32"
    and b: "ConsensusEngine_propose_block C J now eng txs kp = Ok b"
  shows "bh_height (blk_header b) = ce_next_height eng \<and> bh_parent_hash (blk_header b) = ce_last_block_hash eng \<and>
    bh_validator (blk_header b) = NovaPublicKey_to_hex C (NovaKeypair_public_key C kp) \<and>
    NovaPublicKey_to_hex C (NovaKeypair_public_key C kp) \<in> active_addresses (ce_validator_set eng) \<and>
    length (blk_transactions b) \<le> cc_max_block_transactions (ce_config eng) \<and>
    bh_signature (blk_header b) =
      sig_bytes (NovaKeypair_sign C kp (json_or_empty J ((blk_header b)\<lparr>bh_signature := []\<rparr>)))"
proof -
  obtain v where v: "ValidatorSet_proposer_for_round (ce_validator_set eng) (ce_current_round eng) = Some v"
    and addr: "vi_address v = NovaPublicKey_to_hex C (NovaKeypair_public_key C kp)"
    using b by (auto simp: ConsensusEngine_propose_block_def Let_def split: option.splits if_splits)
  have "v \<in> set (actives (ce_validator_set eng))"
    using v by (auto simp: ValidatorSet_proposer_for_round_def actives_def [symmetric] Let_def split: if_splits)
  then have "vi_address v \<in> active_addresses (ce_validator_set eng)" by (simp add: active_addresses_def)
  then show ?thesis
    using b v addr by (auto simp: ConsensusEngine_propose_block_def Let_def split: if_splits)
qed

section \<open>Properties\<close>


text \<open>
  \<open>finalize_block\<close> is exact: it succeeds if and only if the votes for the block's hash are by distinct
  active validators, all verify, and reach the quorum; then the engine moves to the next height and
  round with this block as its tip. Otherwise the engine is unchanged.
\<close>
lemma finalize_exact:
  "(case ConsensusEngine_finalize_block C eng b votes of
      (eng', Ok f) \<Rightarrow> votes_ok C (ce_validator_set eng) (fb_votes f) \<and>
        ValidatorSet_quorum_threshold (ce_validator_set eng) \<le> length (fb_votes f) \<and>
        fb_votes f = votes_for (bh_hash (blk_header b)) votes \<and> fb_block f = b \<and> fb_round f = ce_current_round eng \<and>
        eng' = eng\<lparr>ce_last_block_hash := bh_hash (blk_header b), ce_next_height := ce_next_height eng + 1,
                   ce_current_round := ce_current_round eng + 1, ce_current_phase := Propose\<rparr>
    | (eng', Err e) \<Rightarrow> eng' = eng \<and>
        \<not> (votes_ok C (ce_validator_set eng) (votes_for (bh_hash (blk_header b)) votes) \<and>
           ValidatorSet_quorum_threshold (ce_validator_set eng) \<le> length (votes_for (bh_hash (blk_header b)) votes)))"
proof -
  obtain eng' r where fin: "ConsensusEngine_finalize_block C eng b votes = (eng', r)" by fastforce
  show ?thesis
  proof (cases r)
    case (Ok f)
    then show ?thesis using fin finalize_Ok_iff [of C eng b votes eng' f] by simp
  next
    case (Err e)
    then show ?thesis
      using fin finalize_Err [of C eng b votes eng' e] finalize_Ok_iff [of C eng b votes] by fastforce
  qed
qed

text \<open>
  C23. Every active validator gets its turn: in any stretch of as many rounds as there are active
  validators each of them is the proposer of one (while the round number does not wrap), and round 0
  belongs to one of highest stake.
\<close>
theorem proposer_rotation:
  assumes "vset_reachable vs" and "v \<in> set (actives vs)" and "unat r + length (actives vs) \<le> 2 ^ 64"
  shows "(\<exists>k < length (actives vs). ValidatorSet_proposer_for_round vs (r + of_nat k) = Some v) \<and>
    (\<exists>v0. ValidatorSet_proposer_for_round vs 0 = Some v0 \<and> vi_stake v \<le> vi_stake v0)"
proof
  have ne: "actives vs \<noteq> []" using assms(2) by auto
  obtain i where i: "i < length (actives vs)" "actives vs ! i = v" using assms(2) by (auto simp: in_set_conv_nth)
  obtain k where k: "k < length (actives vs)" "(unat r + k) mod length (actives vs) = i"
    using hits_residue [OF i(1)] by blast
  have "unat (r + of_nat k) = unat r + k"
    using k(1) assms(3) by (subst unat_plus_no_overflow) (simp_all add: unat_of_nat)
  then show "\<exists>k < length (actives vs). ValidatorSet_proposer_for_round vs (r + of_nat k) = Some v"
    using k i by (intro exI [of _ k]) (simp add: proposer_eq [OF ne])
  have "sorted_wrt (\<lambda>a b. vi_stake b \<le> vi_stake a) (actives vs)"
    unfolding actives_def using vset_sorted [OF assms(1)] by (rule sorted_wrt_filter)
  then have "vi_stake v \<le> vi_stake (actives vs ! 0)"
    using assms(2) by (cases "actives vs") auto
  then show "\<exists>v0. ValidatorSet_proposer_for_round vs 0 = Some v0 \<and> vi_stake v \<le> vi_stake v0"
    by (simp add: proposer_eq [OF ne])
qed

text \<open>
  What an honest proposer builds, its peers accept: a block proposed by an engine passes
  \<open>validate_block\<close> of every engine with the same configuration, validator set, height and tip.
\<close>
lemma proposed_block_validates:
  assumes "crypto_ok C" and "length (signing_key kp) = 32"
    and "ConsensusEngine_propose_block C J now eng txs kp = Ok b"
    and "ce_config peer = ce_config eng" "ce_validator_set peer = ce_validator_set eng"
      "ce_next_height peer = ce_next_height eng" "ce_last_block_hash peer = ce_last_block_hash eng"
  shows "ConsensusEngine_validate_block C J peer b = Ok True"
proof -
  have len: "length (pk_bytes (NovaKeypair_public_key C kp)) = 32"
    using crypto_ok_sign(1) [OF assms(1,2)] by (simp add: NovaKeypair_public_key_def)
  show ?thesis
    using proposed_fields [OF assms(1-3)] assms(4-7) sign_verifies [OF assms(1,2)]
      crypto_ok_sign(3) [OF assms(1,2)] public_key_hex_roundtrip [OF assms(1) len]
    by (simp add: ConsensusEngine_validate_block_def contains_iff Let_def NovaSignature_from_bytes_def
        NovaKeypair_sign_def)
qed

section \<open>Witnesses\<close>

definition demo_vset :: ValidatorSet where
  "demo_vset = ValidatorSet_add_validator ValidatorSet_new
     (NovaPublicKey_to_hex demo_crypto (NovaKeypair_public_key demo_crypto demo_kp)) 5"

definition demo_engine :: ConsensusEngine where
  "demo_engine = ConsensusEngine_new ConsensusConfig_default demo_vset"

definition demo_votes :: "bytes \<Rightarrow> Vote list" where
  "demo_votes h = [Vote_new demo_crypto demo_kp h 0]"

lemma demo_vset_validators:
  "actives demo_vset = [\<lparr>vi_address = NovaPublicKey_to_hex demo_crypto (NovaKeypair_public_key demo_crypto demo_kp),
     vi_stake = 5, vi_active = True, vi_blocks_proposed = 0, vi_blocks_voted = 0\<rparr>]"
  by (simp add: demo_vset_def ValidatorSet_add_validator_def ValidatorSet_new_def actives_def)

lemma demo_kp_length: "length (signing_key demo_kp) = 32"
  by (simp add: demo_kp_def NovaKeypair_from_seed_def)

lemma Vote_new_verifies:
  assumes "crypto_ok C" and "length (signing_key kp) = 32"
  shows "Vote_verify C (Vote_new C kp h r)"
proof -
  have "length (pk_bytes (NovaKeypair_public_key C kp)) = 32"
    using crypto_ok_sign(1) [OF assms] by (simp add: NovaKeypair_public_key_def)
  then show ?thesis
    using assms by (simp add: Vote_verify_def Vote_new_def Let_def public_key_hex_roundtrip sign_verifies)
qed

lemma demo_finalize:
  "\<exists>eng' f. ConsensusEngine_finalize_block demo_crypto demo_engine b (demo_votes (bh_hash (blk_header b))) = (eng', Ok f)"
proof -
  have "ValidatorSet_quorum_threshold demo_vset = 1"
    using demo_vset_validators by (simp add: ValidatorSet_quorum_threshold_def actives_def)
  then show ?thesis
    by (simp add: finalize_Ok_iff demo_engine_def ConsensusEngine_new_def demo_votes_def votes_for_def votes_ok_def
        Vote_new_verifies [OF demo_crypto_ok demo_kp_length] active_addresses_def demo_vset_validators)
      (simp add: Vote_new_def Let_def)
qed


theorem proposer_rotation_witness:
  "\<exists>v. v \<in> set (actives demo_vset) \<and> (\<exists>k < length (actives demo_vset).
     ValidatorSet_proposer_for_round demo_vset (7 + of_nat k) = Some v)"
proof -
  have "vset_reachable demo_vset" unfolding demo_vset_def by (intro vset_reachable.intros)
  then show ?thesis
    using proposer_rotation [of demo_vset "hd (actives demo_vset)" 7] by (simp add: demo_vset_validators)
qed

end
