(* ===== verification/Producer.thy ===== *)
theory Producer
  imports Mempool Nova_DB Consensus State_Tree_Props
begin

text \<open>
  Block production, \<open>protocol/src/network/producer.rs\<close>, and one round of the validator loop,
  \<open>protocol/src/network/consensus_loop.rs\<close>. The database, state tree and mempool that the sources
  share through \<open>Arc\<close> are the record \<open>infra\<close>, passed and returned explicitly. A panic of the state
  tree is \<open>None\<close>. The lemmas show that the transactions kept in a block replay to the state root in
  its header, also on another node with the same accounts, and what a round leaves behind.
\<close>

section \<open>Types\<close>

fun StateError_fmt :: "StateError \<Rightarrow> string" where
  "StateError_fmt (State_Tree.InsufficientBalance hv need) =
     ''insufficient balance: have '' @ show_nat (unat hv) @ '', need '' @ show_nat (unat need)"
| "StateError_fmt (AccountFrozen a) = ''account is frozen: '' @ a"
| "StateError_fmt (StateDb e) = ''database error: '' @ e"
| "StateError_fmt (StateSerialization e) = ''serialization error: '' @ e"

fun DbError_fmt :: "DbError \<Rightarrow> string" where
  "DbError_fmt (Sled e) = ''sled error: '' @ e"
| "DbError_fmt (DbSerialization e) = ''serialization error: '' @ e"
| "DbError_fmt (NotFound k) = ''key not found: '' @ k"

datatype BlockProductionError =
    EmptyMempool
  | NoTransactions
  | BpStateError StateError
  | BpDbError DbError
  | SigningError string

fun BlockProductionError_fmt :: "BlockProductionError \<Rightarrow> string" where
  "BlockProductionError_fmt EmptyMempool = ''mempool is empty, nothing to produce''"
| "BlockProductionError_fmt NoTransactions = ''all candidate transactions failed execution''"
| "BlockProductionError_fmt (BpStateError e) = ''state transition error: '' @ StateError_fmt e"
| "BlockProductionError_fmt (BpDbError e) = ''database error: '' @ DbError_fmt e"
| "BlockProductionError_fmt (SigningError e) = ''block signing error: '' @ e"

record TxResult =
  tr_tx_id :: string
  tr_success :: bool
  tr_error :: "string option"

record ProducedBlock =
  pb_block :: Block
  pb_tx_results :: "TxResult list"
  pb_state_root :: bytes

record ('t, 'd, 'u, 'p, 's) infra =
  inf_db :: "('t, 'd) NovaDB"
  inf_tree :: "'u StateTree"
  inf_pool :: "('p, 's) Mempool"

record ('t, 'd, 'u, 'p, 's) node_env =
  ne_db :: "('t, 'd) db_env"
  ne_smt :: "'u smt_env"
  ne_pool :: "('p, 's) pool_env"

record BlockProducer =
  bp_keypair :: NovaKeypair
  bp_validator_address :: string

section \<open>Production\<close>

definition BlockProducer_new :: "crypto \<Rightarrow> NovaKeypair \<Rightarrow> BlockProducer" where
  "BlockProducer_new C keypair =
     \<lparr>bp_keypair = keypair, bp_validator_address = NovaPublicKey_to_hex C (NovaKeypair_public_key C keypair)\<rparr>"

definition execute_transaction ::
  "'u smt_env \<Rightarrow> 'u StateTree \<Rightarrow> Transaction \<Rightarrow> ('u StateTree \<times> (unit, BlockProductionError) result) option" where
  "execute_transaction E tree tx =
     (case tx_type tx of
        Transfer \<Rightarrow>
          (case apply_transfer E tree (tx_sender tx) (tx_receiver tx) (amt_value (tx_amount tx)) of
             None \<Rightarrow> None
           | Some (tree', Ok _) \<Rightarrow> Some (tree', Ok ())
           | Some (tree', Err e) \<Rightarrow> Some (tree', Err (BpStateError e)))
      | _ \<Rightarrow> Some (tree, Ok ()))"

fun execute_candidates ::
  "'u smt_env \<Rightarrow> 'u StateTree \<Rightarrow> Transaction list \<Rightarrow> Transaction list \<Rightarrow> TxResult list \<Rightarrow>
     ('u StateTree \<times> Transaction list \<times> TxResult list) option" where
  "execute_candidates E tree [] successful results = Some (tree, successful, results)"
| "execute_candidates E tree (tx # txs) successful results =
     (case execute_transaction E tree tx of
        None \<Rightarrow> None
      | Some (tree', Ok _) \<Rightarrow>
          execute_candidates E tree' txs (successful @ [tx])
            (results @ [\<lparr>tr_tx_id = tx_id tx, tr_success = True, tr_error = None\<rparr>])
      | Some (tree', Err e) \<Rightarrow>
          execute_candidates E tree' txs successful
            (results @ [\<lparr>tr_tx_id = tx_id tx, tr_success = False, tr_error = Some (BlockProductionError_fmt e)\<rparr>]))"

definition BlockProducer_produce_block ::
  "('t, 'd, 'u, 'p, 's) node_env \<Rightarrow> u64 \<Rightarrow> BlockProducer \<Rightarrow> ('t, 'd, 'u, 'p, 's) infra \<Rightarrow> Block \<Rightarrow> nat \<Rightarrow>
     (('t, 'd, 'u, 'p, 's) infra \<times> (ProducedBlock, BlockProductionError) result) option" where
  "BlockProducer_produce_block N now bp nf parent max_txs =
     (let candidates = Mempool_select_transactions (ne_pool N) (inf_pool nf) max_txs;
          C = se_crypto (ne_smt N)
      in case execute_candidates (ne_smt N) (inf_tree nf) candidates [] [] of
           None \<Rightarrow> None
         | Some (tree, successful_txs, tx_results) \<Rightarrow>
             let nf = nf\<lparr>inf_tree := tree\<rparr>;
                 state_root = st_root (inf_tree nf);
                 block = Block_new C (pe_json (ne_pool N)) now parent successful_txs (bp_validator_address bp) state_root;
                 sig = NovaKeypair_sign C (bp_keypair bp) (bh_hash (blk_header block));
                 block = block\<lparr>blk_header := (blk_header block)\<lparr>bh_signature := sig_bytes sig\<rparr>\<rparr>
             in Some (nf, Ok \<lparr>pb_block = block, pb_tx_results = tx_results, pb_state_root = state_root\<rparr>))"

definition BlockProducer_commit_block ::
  "('t, 'd, 'u, 'p, 's) node_env \<Rightarrow> ('t, 'd, 'u, 'p, 's) infra \<Rightarrow> Block \<Rightarrow>
     ('t, 'd, 'u, 'p, 's) infra \<times> (unit, BlockProductionError) result" where
  "BlockProducer_commit_block N nf block =
     (case NovaDB_put_block (ne_db N) (inf_db nf) block of
        (db, Err e) \<Rightarrow> (nf\<lparr>inf_db := db\<rparr>, Err (BpDbError e))
      | (db, Ok _) \<Rightarrow>
          let tx_ids = map tx_id (blk_transactions block)
          in (nf\<lparr>inf_db := db, inf_pool := Mempool_remove_batch (ne_pool N) (inf_pool nf) tx_ids\<rparr>, Ok ()))"

section \<open>The validator loop\<close>

record ConsensusLoopConfig =
  lc_block_time_ms :: u64
  lc_max_txs_per_block :: nat
  lc_empty_block_delay_ms :: u64
  lc_max_rounds_without_block :: u64

definition ConsensusLoopConfig_default :: ConsensusLoopConfig where
  "ConsensusLoopConfig_default = \<lparr>lc_block_time_ms = 1500, lc_max_txs_per_block = 1000,
     lc_empty_block_delay_ms = 5000, lc_max_rounds_without_block = 3\<rparr>"

datatype ConsensusLoopError =
    NotValidator
  | ProductionError BlockProductionError
  | LoopConsensusError ConsensusError
  | LoopDbError DbError
  | Shutdown

fun ConsensusError_fmt :: "ConsensusError \<Rightarrow> string" where
  "ConsensusError_fmt (InsufficientValidators hv need) =
     ''insufficient validators: have '' @ show_nat hv @ '', need '' @ show_nat need"
| "ConsensusError_fmt (UnauthorizedProposer a) = ''unauthorized proposer: '' @ a"
| "ConsensusError_fmt (UnexpectedHeight expected got) =
     ''unexpected block height: expected '' @ show_nat (unat expected) @ '', got '' @ show_nat (unat got)"
| "ConsensusError_fmt InvalidParentHash = ''block does not extend the chain tip''"
| "ConsensusError_fmt (TooManyTransactions n) = ''block exceeds maximum transaction count: '' @ show_nat n"
| "ConsensusError_fmt (InvalidTimestamp t) = ''invalid block timestamp: '' @ show_nat (unat t)"
| "ConsensusError_fmt (InsufficientVotes hv need) =
     ''insufficient votes for finality: have '' @ show_nat hv @ '', need '' @ show_nat need"
| "ConsensusError_fmt (InvalidVote a) = ''invalid vote from validator '' @ a"
| "ConsensusError_fmt (VoteFromNonValidator a) = ''vote from non-validator: '' @ a"
| "ConsensusError_fmt (DuplicateVote a) = ''duplicate vote from '' @ a"

fun ConsensusLoopError_fmt :: "ConsensusLoopError \<Rightarrow> string" where
  "ConsensusLoopError_fmt NotValidator = ''node is not in the active validator set''"
| "ConsensusLoopError_fmt (ProductionError e) = ''block production failed: '' @ BlockProductionError_fmt e"
| "ConsensusLoopError_fmt (LoopConsensusError e) = ''consensus error: '' @ ConsensusError_fmt e"
| "ConsensusLoopError_fmt (LoopDbError e) = ''database error: '' @ DbError_fmt e"
| "ConsensusLoopError_fmt Shutdown = ''consensus loop received shutdown signal''"

record ConsensusLoop =
  cl_producer :: BlockProducer
  cl_keypair :: NovaKeypair
  cl_config :: ConsensusLoopConfig

definition ConsensusLoop_is_our_turn :: "crypto \<Rightarrow> ConsensusLoop \<Rightarrow> ConsensusEngine \<Rightarrow> bool" where
  "ConsensusLoop_is_our_turn C cl engine =
     (case ValidatorSet_proposer_for_round (ce_validator_set engine) (ce_current_round engine) of
        None \<Rightarrow> False
      | Some proposer \<Rightarrow> vi_address proposer = NovaPublicKey_to_hex C (NovaKeypair_public_key C (cl_keypair cl)))"

definition ConsensusLoop_self_vote :: "crypto \<Rightarrow> ConsensusLoop \<Rightarrow> bytes \<Rightarrow> u64 \<Rightarrow> Vote" where
  "ConsensusLoop_self_vote C cl block_hash round = Vote_new C (cl_keypair cl) block_hash round"

definition get_latest_block ::
  "crypto \<Rightarrow> ('t, 'd) db_env \<Rightarrow> ('t, 'd) NovaDB \<Rightarrow> (Block, ConsensusLoopError) result" where
  "get_latest_block C E db =
     (case NovaDB_get_latest_block_height E db of
        Err e \<Rightarrow> Err (LoopDbError e)
      | Ok None \<Rightarrow> Ok (Block_genesis C)
      | Ok (Some h) \<Rightarrow>
          (case NovaDB_get_block E db h of
             Err e \<Rightarrow> Err (LoopDbError e)
           | Ok None \<Rightarrow> Err (LoopDbError (NotFound (''block at height '' @ show_nat (unat h) @
                 '' not found despite metadata claiming it exists'')))
           | Ok (Some block) \<Rightarrow> Ok block))"

definition run_single_round ::
  "('t, 'd, 'u, 'p, 's) node_env \<Rightarrow> u64 \<Rightarrow> ConsensusLoop \<Rightarrow> ConsensusEngine \<times> ('t, 'd, 'u, 'p, 's) infra \<Rightarrow>
     ((ConsensusEngine \<times> ('t, 'd, 'u, 'p, 's) infra) \<times> (FinalizedBlock option, ConsensusLoopError) result) option" where
  "run_single_round N now cl st =
     (case st of (engine, nf) \<Rightarrow>
      let C = se_crypto (ne_smt N) in
      if \<not> ConsensusLoop_is_our_turn C cl engine then Some ((engine, nf), Ok None)
      else
        let current_round = ce_current_round engine in
        case get_latest_block C (ne_db N) (inf_db nf) of
          Err e \<Rightarrow> Some ((engine, nf), Err e)
        | Ok parent \<Rightarrow>
            (case BlockProducer_produce_block N now (cl_producer cl) nf parent (lc_max_txs_per_block (cl_config cl)) of
               None \<Rightarrow> None
             | Some (nf, Err e) \<Rightarrow> Some ((engine, nf), Err (ProductionError e))
             | Some (nf, Ok produced) \<Rightarrow>
                 let vote = ConsensusLoop_self_vote C cl (bh_hash (blk_header (pb_block produced))) current_round in
                 (case ConsensusEngine_finalize_block C engine (pb_block produced) [vote] of
                    (engine, Err e) \<Rightarrow> Some ((engine, nf), Err (LoopConsensusError e))
                  | (engine, Ok finalized) \<Rightarrow>
                      (case BlockProducer_commit_block N nf (fb_block finalized) of
                         (nf, Err e) \<Rightarrow> Some ((engine, nf), Err (ProductionError e))
                       | (nf, Ok _) \<Rightarrow> Some ((engine, nf), Ok (Some finalized))))))"

text \<open>The pause after a round.\<close>

definition sleep_ms :: "('p, 's) pool_env \<Rightarrow> ConsensusLoop \<Rightarrow> ('p, 's) Mempool \<Rightarrow> u64" where
  "sleep_ms E cl pool =
     (if Mempool_is_empty E pool then lc_block_time_ms (cl_config cl) + lc_empty_block_delay_ms (cl_config cl)
      else lc_block_time_ms (cl_config cl))"

text \<open>
  The loop over a sequence of ticks: what the shutdown channel holds before the round, the clock of
  the round, and whether the channel changes before the pause is over. The result \<open>None\<close> of a run is
  a loop that is still running after the given ticks.
\<close>

record loop_tick =
  tk_shutdown :: bool
  tk_now :: u64
  tk_changed :: bool

fun ConsensusLoop_run ::
  "('t, 'd, 'u, 'p, 's) node_env \<Rightarrow> ConsensusLoop \<Rightarrow> loop_tick list \<Rightarrow> ConsensusEngine \<times> ('t, 'd, 'u, 'p, 's) infra \<Rightarrow>
     ((ConsensusEngine \<times> ('t, 'd, 'u, 'p, 's) infra) \<times> (unit, ConsensusLoopError) result option) option" where
  "ConsensusLoop_run N cl [] st = Some (st, None)"
| "ConsensusLoop_run N cl (t # ts) st =
     (if tk_shutdown t then Some (st, Some (Err Shutdown))
      else case run_single_round N (tk_now t) cl st of
             None \<Rightarrow> None
           | Some (st, _) \<Rightarrow>
               if tk_changed t then Some (st, Some (Err Shutdown)) else ConsensusLoop_run N cl ts st)"

section \<open>Execution is determined by the accounts\<close>

text \<open>The result of a transfer and the new contents depend on the contents of the tree only.\<close>

lemma transfer_determined:
  assumes E: "smt_env_ok E"
  shows "\<exists>r V'. \<forall>T. smt_inv E T V \<longrightarrow> (\<exists>T'. apply_transfer E T a b amount = Some (T', r) \<and>
           smt_inv E T' V' \<and> (is_ok r \<or> T' = T))"
proof -
  let ?k = "address_to_key (se_crypto E)"
  define acct where "acct V x = (case (case V (?k x) of None \<Rightarrow> None | Some b \<Rightarrow> se_dec E b) of
      Some s \<Rightarrow> s | None \<Rightarrow> AccountState_default)" for V :: "bytes \<rightharpoonup> bytes" and x
  have get: "(case StateTree_get E T x of Some s \<Rightarrow> s | None \<Rightarrow> AccountState_default) = acct V x"
    if "smt_inv E T V" for T V x
    using StateTree_get_value [OF E that] by (simp add: acct_def)
  let ?s = "acct V a"
  show "\<exists>r V'. \<forall>T. smt_inv E T V \<longrightarrow> (\<exists>T'. apply_transfer E T a b amount = Some (T', r) \<and>
           smt_inv E T' V' \<and> (is_ok r \<or> T' = T))"
  proof (cases "acct_frozen ?s \<or> acct_balance ?s < amount")
    case True
    then show ?thesis
      by (intro exI [of _ "if acct_frozen ?s then Err (AccountFrozen a)
            else Err (State_Tree.InsufficientBalance (acct_balance ?s) amount)"] exI [of _ V])
        (auto simp: apply_transfer_def transfer_on_def get Let_def)
  next
    case False
    let ?s1 = "?s\<lparr>acct_balance := acct_balance ?s - amount, acct_nonce := acct_nonce ?s + 1\<rparr>"
    let ?V1 = "V(?k a \<mapsto> se_enc E ?s1)"
    let ?r = "acct ?V1 b"
    let ?r1 = "?r\<lparr>acct_balance := acct_balance ?r + amount\<rparr>"
    have "\<exists>T'. apply_transfer E T a b amount = Some (T', Ok ()) \<and> smt_inv E T' (?V1(?k b \<mapsto> se_enc E ?r1))"
      if T: "smt_inv E T V" for T
    proof -
      obtain T1 where T1: "StateTree_put E T a ?s1 = Some T1" "smt_inv E T1 ?V1"
        using StateTree_put_correct [OF E T] by blast
      obtain T2 where T2: "StateTree_put E T1 b ?r1 = Some T2" "smt_inv E T2 (?V1(?k b \<mapsto> se_enc E ?r1))"
        using StateTree_put_correct [OF E T1(2)] by blast
      have "apply_transfer E T a b amount = Some (T2, Ok ())"
        using False T1(1) T2(1) get [OF T, of a] get [OF T1(2), of b]
        by (simp add: apply_transfer_def transfer_on_def Let_def)
      with T2(2) show ?thesis by blast
    qed
    then show ?thesis by (intro exI [of _ "Ok ()"] exI [of _ "?V1(?k b \<mapsto> se_enc E ?r1)"]) simp
  qed
qed

lemma execute_determined:
  assumes E: "smt_env_ok E"
  shows "\<exists>r V'. \<forall>T. smt_inv E T V \<longrightarrow> (\<exists>T'. execute_transaction E T tx = Some (T', r) \<and>
           smt_inv E T' V' \<and> (is_ok r \<or> T' = T))"
proof (cases "tx_type tx = Transfer")
  case True
  obtain r V' where det: "\<forall>T. smt_inv E T V \<longrightarrow> (\<exists>T'. apply_transfer E T (tx_sender tx) (tx_receiver tx)
      (amt_value (tx_amount tx)) = Some (T', r) \<and> smt_inv E T' V' \<and> (is_ok r \<or> T' = T))"
    using transfer_determined [OF E] by blast
  show ?thesis
    using det True
    by (intro exI [of _ "case r of Ok _ \<Rightarrow> Ok () | Err e \<Rightarrow> Err (BpStateError e)"] exI [of _ V'])
      (fastforce simp: execute_transaction_def split: result.split)
next
  case False
  then have "execute_transaction E T tx = Some (T, Ok ())" for T
    by (simp add: execute_transaction_def split: TransactionType.split)
  then show ?thesis by (intro exI [of _ "Ok ()"] exI [of _ V]) simp
qed

text \<open>Running a list of transactions that must all succeed.\<close>

fun run_all :: "'u smt_env \<Rightarrow> 'u StateTree \<Rightarrow> Transaction list \<Rightarrow> 'u StateTree option" where
  "run_all E T [] = Some T"
| "run_all E T (tx # txs) =
     (case execute_transaction E T tx of Some (T', Ok _) \<Rightarrow> run_all E T' txs | _ \<Rightarrow> None)"

lemma candidates_replay:
  assumes E: "smt_env_ok E"
  shows "smt_inv E T V \<Longrightarrow> \<exists>T' good results'. execute_candidates E T txs acc results = Some (T', acc @ good, results') \<and>
     set good \<subseteq> set txs \<and>
     (\<exists>V'. smt_inv E T' V' \<and> (\<forall>T2. smt_inv E T2 V \<longrightarrow> (\<exists>T2'. run_all E T2 good = Some T2' \<and> smt_inv E T2' V')))"
proof (induction txs arbitrary: T V acc results)
  case Nil
  then show ?case by auto
next
  case (Cons tx txs)
  obtain r V1 where det: "\<And>T. smt_inv E T V \<Longrightarrow> \<exists>T'. execute_transaction E T tx = Some (T', r) \<and>
           smt_inv E T' V1 \<and> (is_ok r \<or> T' = T)"
    using execute_determined [OF E] by blast
  obtain T1 where T1: "execute_transaction E T tx = Some (T1, r)" "smt_inv E T1 V1" "is_ok r \<or> T1 = T"
    using det [OF Cons.prems] by blast
  show ?case
  proof (cases r)
    case (Ok u)
    obtain T' good results' V' where IH:
      "execute_candidates E T1 txs (acc @ [tx]) (results @ [\<lparr>tr_tx_id = tx_id tx, tr_success = True, tr_error = None\<rparr>])
         = Some (T', (acc @ [tx]) @ good, results')"
      "set good \<subseteq> set txs" "smt_inv E T' V'"
      "\<forall>T2. smt_inv E T2 V1 \<longrightarrow> (\<exists>T2'. run_all E T2 good = Some T2' \<and> smt_inv E T2' V')"
      using Cons.IH [OF T1(2)] by metis
    have "\<exists>T2'. run_all E T2 (tx # good) = Some T2' \<and> smt_inv E T2' V'" if "smt_inv E T2 V" for T2
      using det [OF that] IH(4) Ok by auto
    then show ?thesis
      using T1(1) Ok IH(1-3) by (intro exI [of _ T'] exI [of _ "tx # good"] exI [of _ results']) auto
  next
    case (Err e)
    then have "T1 = T" using T1(3) by simp
    then obtain T' good results' where IH:
      "execute_candidates E T1 txs acc (results @ [\<lparr>tr_tx_id = tx_id tx, tr_success = False,
          tr_error = Some (BlockProductionError_fmt e)\<rparr>]) = Some (T', acc @ good, results')"
      "set good \<subseteq> set txs"
      "\<exists>V'. smt_inv E T' V' \<and> (\<forall>T2. smt_inv E T2 V \<longrightarrow> (\<exists>T2'. run_all E T2 good = Some T2' \<and> smt_inv E T2' V'))"
      using Cons.IH [OF Cons.prems] by metis
    then show ?thesis
      using T1(1) Err by (intro exI [of _ T'] exI [of _ good] exI [of _ results']) auto
  qed
qed

text \<open>What \<open>produce_block\<close> returns.\<close>

lemma produce_block_spec:
  assumes E: "smt_env_ok (ne_smt N)" and inv: "smt_inv (ne_smt N) (inf_tree nf) V"
  shows "\<exists>nf' pb V'. BlockProducer_produce_block N now bp nf parent k = Some (nf', Ok pb) \<and>
    inf_db nf' = inf_db nf \<and> inf_pool nf' = inf_pool nf \<and>
    smt_inv (ne_smt N) (inf_tree nf') V' \<and> pb_state_root pb = st_root (inf_tree nf') \<and>
    set (blk_transactions (pb_block pb)) \<subseteq> set (Mempool_select_transactions (ne_pool N) (inf_pool nf) k) \<and>
    pb_block pb = (let b = Block_new (se_crypto (ne_smt N)) (pe_json (ne_pool N)) now parent
        (blk_transactions (pb_block pb)) (bp_validator_address bp) (pb_state_root pb)
      in b\<lparr>blk_header := (blk_header b)\<lparr>bh_signature :=
        sig_bytes (NovaKeypair_sign (se_crypto (ne_smt N)) (bp_keypair bp) (bh_hash (blk_header b)))\<rparr>\<rparr>) \<and>
    (\<forall>T2. smt_inv (ne_smt N) T2 V \<longrightarrow>
       (\<exists>T2'. run_all (ne_smt N) T2 (blk_transactions (pb_block pb)) = Some T2' \<and> smt_inv (ne_smt N) T2' V'))"
proof -
  let ?cs = "Mempool_select_transactions (ne_pool N) (inf_pool nf) k"
  obtain T' good results V' where x: "execute_candidates (ne_smt N) (inf_tree nf) ?cs [] [] = Some (T', good, results)"
    "set good \<subseteq> set ?cs" "smt_inv (ne_smt N) T' V'"
    "\<forall>T2. smt_inv (ne_smt N) T2 V \<longrightarrow> (\<exists>T2'. run_all (ne_smt N) T2 good = Some T2' \<and> smt_inv (ne_smt N) T2' V')"
    using candidates_replay [OF E inv, of ?cs "[]" "[]"] by auto
  show ?thesis
    using x by (simp add: BlockProducer_produce_block_def Let_def Block_new_def) blast
qed

section \<open>One round\<close>

lemma our_turn_active:
  assumes "ConsensusLoop_is_our_turn C cl eng"
  shows "NovaPublicKey_to_hex C (NovaKeypair_public_key C (cl_keypair cl)) \<in> active_addresses (ce_validator_set eng)"
proof -
  obtain v where v: "ValidatorSet_proposer_for_round (ce_validator_set eng) (ce_current_round eng) = Some v"
    "vi_address v = NovaPublicKey_to_hex C (NovaKeypair_public_key C (cl_keypair cl))"
    using assms by (auto simp: ConsensusLoop_is_our_turn_def split: option.splits)
  then have "v \<in> set (actives (ce_validator_set eng))"
    by (auto simp: ValidatorSet_proposer_for_round_def actives_def [symmetric] Let_def split: if_splits)
  then show ?thesis using v(2) unfolding active_addresses_def by (metis imageI)
qed

text \<open>One vote is a quorum for a single validator and never for more.\<close>

lemma self_vote_finalizes:
  assumes C: "crypto_ok C" and kp: "length (signing_key (cl_keypair cl)) = 32"
    and turn: "ConsensusLoop_is_our_turn C cl eng" and one: "length (actives (ce_validator_set eng)) = 1"
  shows "\<exists>eng'. ConsensusEngine_finalize_block C eng b [ConsensusLoop_self_vote C cl (bh_hash (blk_header b)) r]
    = (eng', Ok \<lparr>fb_block = b, fb_votes = [ConsensusLoop_self_vote C cl (bh_hash (blk_header b)) r],
                fb_round = ce_current_round eng\<rparr>)"
proof -
  have "ValidatorSet_quorum_threshold (ce_validator_set eng) = 1"
    using one by (simp add: ValidatorSet_quorum_threshold_def actives_def)
  then show ?thesis
    using our_turn_active [OF turn] Vote_new_verifies [OF C kp]
    by (simp add: finalize_Ok_iff ConsensusLoop_self_vote_def votes_for_def votes_ok_def)
      (simp add: Vote_new_def Let_def)
qed

lemma self_vote_insufficient:
  assumes "2 \<le> length (actives (ce_validator_set eng))"
  shows "\<exists>e. ConsensusEngine_finalize_block C eng b [v] = (eng, Err e)"
proof -
  have "2 \<le> ValidatorSet_quorum_threshold (ce_validator_set eng)"
  proof -
    have "2 \<le> 2 * n div 3 + 1" if "2 \<le> n" for n :: nat
      using that by (simp add: Suc_le_eq div_greater_zero_iff)
    then show ?thesis
      using assms by (auto simp: ValidatorSet_quorum_threshold_def actives_def Let_def)
  qed
  then have "\<not> ValidatorSet_quorum_threshold (ce_validator_set eng) \<le> length (votes_for h [v])" for h
    by (simp add: votes_for_def)
  then have "\<nexists>eng' f. ConsensusEngine_finalize_block C eng b [v] = (eng', Ok f)"
    by (simp add: finalize_Ok_iff)
  then show ?thesis
    using finalize_Err by (metis result.exhaust surj_pair)
qed

text \<open>
  With two or more active validators a round of the loop fails after the transactions were executed:
  the state tree keeps their effect while engine, database and mempool stay, so the next round
  executes the same transactions again.
\<close>

lemma round_fails_with_two_validators:
  assumes "smt_env_ok (ne_smt N)" "smt_inv (ne_smt N) (inf_tree nf) V"
    and "2 \<le> length (actives (ce_validator_set eng))" and "ConsensusLoop_is_our_turn (se_crypto (ne_smt N)) cl eng"
    and "get_latest_block (se_crypto (ne_smt N)) (ne_db N) (inf_db nf) = Ok parent"
  shows "\<exists>nf' pb e. BlockProducer_produce_block N now (cl_producer cl) nf parent (lc_max_txs_per_block (cl_config cl))
        = Some (nf', Ok pb) \<and>
      run_single_round N now cl (eng, nf) = Some ((eng, nf'), Err (LoopConsensusError e)) \<and>
      inf_db nf' = inf_db nf \<and> inf_pool nf' = inf_pool nf"
proof -
  obtain nf' pb where pb: "BlockProducer_produce_block N now (cl_producer cl) nf parent (lc_max_txs_per_block (cl_config cl))
        = Some (nf', Ok pb)" "inf_db nf' = inf_db nf" "inf_pool nf' = inf_pool nf"
    using produce_block_spec [OF assms(1,2)] by blast
  obtain e where "ConsensusEngine_finalize_block (se_crypto (ne_smt N)) eng (pb_block pb)
      [ConsensusLoop_self_vote (se_crypto (ne_smt N)) cl (bh_hash (blk_header (pb_block pb))) (ce_current_round eng)]
      = (eng, Err e)"
    using self_vote_insufficient [OF assms(3)] by blast
  then show ?thesis using pb assms(4,5) by (simp add: run_single_round_def Let_def)
qed

lemma commit_block_effect:
  assumes "env_ok (ne_pool N)" "sled_ok (ne_db N)" "codecs (ne_db N) [b]"
  shows "\<exists>nf'. BlockProducer_commit_block N nf b = (nf', Ok ()) \<and> inf_tree nf' = inf_tree nf \<and>
    NovaDB_get_block (ne_db N) (inf_db nf') (bh_height (blk_header b)) = Ok (Some b) \<and>
    NovaDB_get_latest_block_height (ne_db N) (inf_db nf') = Ok (Some (bh_height (blk_header b))) \<and>
    (\<forall>tx\<in>set (blk_transactions b). \<not> Mempool_contains (ne_pool N) (inf_pool nf') (tx_id tx))"
proof -
  have c: "block_codec (ne_db N) b" "\<forall>tx\<in>set (blk_transactions b). tx_codec (ne_db N) tx"
    using assms(3) by (simp_all add: codecs_def)
  obtain db' where db': "NovaDB_put_block (ne_db N) (inf_db nf) b = (db', Ok ())"
    "\<And>h. NovaDB_get_block (ne_db N) db' h =
       (if h = bh_height (blk_header b) then Ok (Some b) else NovaDB_get_block (ne_db N) (inf_db nf) h)"
    "NovaDB_get_latest_block_height (ne_db N) db' = Ok (Some (bh_height (blk_header b)))"
    by (rule put_block_queries [OF assms(2) c, of "inf_db nf"], rule that)
  then show ?thesis
    by (simp add: BlockProducer_commit_block_def Let_def Mempool_contains_def entry_remove_batch [OF assms(1)])
qed

text \<open>The loop never returns \<open>Ok\<close>: a clean shutdown is reported as an error.\<close>

lemma run_never_ok: "ConsensusLoop_run N cl ts st \<noteq> Some (st', Some (Ok u))"
  by (induction ts arbitrary: st) (auto split: option.split)

section \<open>Properties\<close>

text \<open>
  C24. A validator alone makes progress: on its turn, with storage that works, one round of the loop
  finalises the produced block, stores it as the new tip, removes its transactions from the
  mempool, and leaves the state tree at the root in the block's header.
\<close>
theorem single_validator_round:
  assumes env: "smt_env_ok (ne_smt N)" "env_ok (ne_pool N)" "sled_ok (ne_db N)"
    and inv: "smt_inv (ne_smt N) (inf_tree nf) V"
    and key: "length (signing_key (cl_keypair cl)) = 32"
    and turn: "ConsensusLoop_is_our_turn (se_crypto (ne_smt N)) cl eng" "length (actives (ce_validator_set eng)) = 1"
    and tip: "get_latest_block (se_crypto (ne_smt N)) (ne_db N) (inf_db nf) = Ok parent"
    and prod: "BlockProducer_produce_block N now (cl_producer cl) nf parent (lc_max_txs_per_block (cl_config cl))
        = Some (nf1, Ok pb)"
    and codec: "codecs (ne_db N) [pb_block pb]"
  shows "\<exists>eng' nf' f. run_single_round N now cl (eng, nf) = Some ((eng', nf'), Ok (Some f)) \<and>
    fb_block f = pb_block pb \<and> st_root (inf_tree nf') = bh_state_root (blk_header (pb_block pb)) \<and>
    get_latest_block (se_crypto (ne_smt N)) (ne_db N) (inf_db nf') = Ok (pb_block pb) \<and>
    (\<forall>tx\<in>set (blk_transactions (pb_block pb)). \<not> Mempool_contains (ne_pool N) (inf_pool nf') (tx_id tx))"
proof -
  let ?C = "se_crypto (ne_smt N)"
  have root: "bh_state_root (blk_header (pb_block pb)) = st_root (inf_tree nf1)"
    using prod by (auto simp: BlockProducer_produce_block_def Block_new_def Let_def split: option.splits)
  obtain eng' where fin: "ConsensusEngine_finalize_block ?C eng (pb_block pb)
      [ConsensusLoop_self_vote ?C cl (bh_hash (blk_header (pb_block pb))) (ce_current_round eng)]
      = (eng', Ok \<lparr>fb_block = pb_block pb, fb_votes = [ConsensusLoop_self_vote ?C cl
           (bh_hash (blk_header (pb_block pb))) (ce_current_round eng)], fb_round = ce_current_round eng\<rparr>)"
    using self_vote_finalizes [OF smt_env_ok_crypto [OF env(1)] key turn] by blast
  obtain nf' where com: "BlockProducer_commit_block N nf1 (pb_block pb) = (nf', Ok ())" "inf_tree nf' = inf_tree nf1"
    "NovaDB_get_block (ne_db N) (inf_db nf') (bh_height (blk_header (pb_block pb))) = Ok (Some (pb_block pb))"
    "NovaDB_get_latest_block_height (ne_db N) (inf_db nf') = Ok (Some (bh_height (blk_header (pb_block pb))))"
    "\<forall>tx\<in>set (blk_transactions (pb_block pb)). \<not> Mempool_contains (ne_pool N) (inf_pool nf') (tx_id tx)"
    using commit_block_effect [OF env(2,3) codec] by blast
  have "run_single_round N now cl (eng, nf) = Some ((eng', nf'), Ok (Some \<lparr>fb_block = pb_block pb,
      fb_votes = [ConsensusLoop_self_vote ?C cl (bh_hash (blk_header (pb_block pb))) (ce_current_round eng)],
      fb_round = ce_current_round eng\<rparr>))"
    using turn(1) tip prod fin com(1) by (simp add: run_single_round_def Let_def)
  then show ?thesis using com root by (simp add: get_latest_block_def)
qed

section \<open>Witness\<close>

definition demo_node_env ::
  "((bytes \<times> bytes) list, unit, (bytes \<times> bytes) list, (string \<times> MempoolEntry) list, (string \<times> nat) list) node_env" where
  "demo_node_env = \<lparr>ne_db = demo_db_env, ne_smt = demo_env, ne_pool = demo_pool_env\<rparr>"

definition demo_infra ::
  "((bytes \<times> bytes) list, unit, (bytes \<times> bytes) list, (string \<times> MempoolEntry) list, (string \<times> nat) list) infra" where
  "demo_infra = \<lparr>inf_db = demo_db, inf_tree = StateTree_new demo_env [], inf_pool = Mempool_new demo_pool_env small_config\<rparr>"

definition demo_loop :: ConsensusLoop where
  "demo_loop = \<lparr>cl_producer = BlockProducer_new (se_crypto demo_env) demo_kp, cl_keypair = demo_kp,
     cl_config = ConsensusLoopConfig_default\<rparr>"

text \<open>The block this validator makes, and the environment whose decoder knows it.\<close>

definition demo_produced :: Block where
  "demo_produced = pb_block (case BlockProducer_produce_block demo_node_env 9 (cl_producer demo_loop) demo_infra
      (Block_genesis (se_crypto demo_env)) 1000 of Some (_, Ok pb) \<Rightarrow> pb)"

definition round_env ::
  "((bytes \<times> bytes) list, unit, (bytes \<times> bytes) list, (string \<times> MempoolEntry) list, (string \<times> nat) list) node_env" where
  "round_env = demo_node_env\<lparr>ne_db := demo_db_env\<lparr>de_dec_block := (\<lambda>_. Ok demo_produced)\<rparr>\<rparr>"

lemma sled_ok_dec: "sled_ok (E\<lparr>de_dec_block := f\<rparr>) \<longleftrightarrow> sled_ok E"
  unfolding sled_ok_def by (simp cong: option.case_cong)

lemma round_env_ok:
  "smt_env_ok (ne_smt round_env)" "env_ok (ne_pool round_env)" "sled_ok (ne_db round_env)"
  using demo_env_ok demo_pool_env_ok demo_db_env_ok
  by (simp_all add: round_env_def demo_node_env_def sled_ok_dec)

lemma demo_no_candidates: "Mempool_select_transactions demo_pool_env (Mempool_new demo_pool_env small_config) k = []"
  by (simp add: Mempool_select_transactions_def Mempool_new_def)

theorem single_validator_round_witness:
  "\<exists>eng' nf' f. run_single_round round_env 9 demo_loop
      (demo_engine\<lparr>ce_validator_set := ValidatorSet_add_validator ValidatorSet_new
         (NovaPublicKey_to_hex (se_crypto demo_env) (NovaKeypair_public_key (se_crypto demo_env) demo_kp)) 5\<rparr>, demo_infra)
    = Some ((eng', nf'), Ok (Some f)) \<and> fb_block f = demo_produced"
proof -
  let ?C = "se_crypto demo_env"
  let ?vs = "ValidatorSet_add_validator ValidatorSet_new (NovaPublicKey_to_hex ?C (NovaKeypair_public_key ?C demo_kp)) 5"
  let ?eng = "demo_engine\<lparr>ce_validator_set := ?vs\<rparr>"
  have inv: "smt_inv (ne_smt round_env) (inf_tree demo_infra) Map.empty"
    using demo_new_inv by (simp add: round_env_def demo_node_env_def demo_infra_def)
  have key: "length (signing_key (cl_keypair demo_loop)) = 32" by (simp add: demo_loop_def demo_kp_length)
  have act: "length (actives (ce_validator_set ?eng)) = 1" and "actives ?vs \<noteq> []"
    and addr: "vi_address (actives ?vs ! 0) = NovaPublicKey_to_hex ?C (NovaKeypair_public_key ?C demo_kp)"
    by (simp_all add: ValidatorSet_add_validator_def ValidatorSet_new_def actives_def)
  then have turn: "ConsensusLoop_is_our_turn (se_crypto (ne_smt round_env)) demo_loop ?eng"
    by (simp add: ConsensusLoop_is_our_turn_def proposer_eq round_env_def demo_node_env_def demo_loop_def)
  have tip: "get_latest_block (se_crypto (ne_smt round_env)) (ne_db round_env) (inf_db demo_infra)
      = Ok (Block_genesis (se_crypto demo_env))"
    by (simp add: get_latest_block_def NovaDB_get_latest_block_height_def round_env_def demo_node_env_def
        demo_infra_def demo_db_def demo_db_env_def)
  obtain nf1 pb where prod: "BlockProducer_produce_block round_env 9 (cl_producer demo_loop) demo_infra
      (Block_genesis (se_crypto demo_env)) (lc_max_txs_per_block (cl_config demo_loop)) = Some (nf1, Ok pb)"
    and pb: "pb_block pb = demo_produced" "blk_transactions demo_produced = []"
    by (simp add: BlockProducer_produce_block_def demo_produced_def round_env_def demo_node_env_def demo_loop_def
        ConsensusLoopConfig_default_def demo_infra_def demo_no_candidates Let_def Block_new_def)
  have codec: "codecs (ne_db round_env) [pb_block pb]"
    using pb by (simp add: codecs_def block_codec_def round_env_def demo_db_env_def)
  from single_validator_round [OF round_env_ok inv key turn act tip prod codec] show ?thesis
    unfolding pb by blast
qed

end
