(* ===== verification/Sync.thy ===== *)
theory Sync
  imports Producer "HOL-Library.Monad_Syntax"
begin

text \<open>
  Block synchronisation, \<open>protocol/src/network/sync.rs\<close>: serving requests, validating and applying
  downloaded blocks, and splitting a gap into batches. The loop of \<open>compute_sync_plan\<close> need not end,
  so it is a partial function; \<open>None\<close> is a run that does not return. The lemmas show that the plan
  partitions the gap, that a validated chain is determined by its tip, and that a node that applies
  a produced block arrives at the state root in its header.
\<close>

section \<open>Types\<close>

datatype SyncRequest = GetChainTip | GetBlocks u64 u64 | GetBlock u64

datatype SyncResponse =
    ChainTip u64 bytes
  | RespBlocks "Block list"
  | RespBlock "Block option"
  | RespError string

record SyncConfig =
  sc_batch_size :: u64
  sc_max_parallel_requests :: nat
  sc_request_timeout_ms :: u64
  sc_max_retries :: u32

definition SyncConfig_default :: SyncConfig where
  "SyncConfig_default = \<lparr>sc_batch_size = 100, sc_max_parallel_requests = 4, sc_request_timeout_ms = 10000,
     sc_max_retries = 3\<rparr>"

record SyncResult =
  sr_blocks_applied :: u64
  sr_transactions_executed :: u64
  sr_final_height :: u64
  sr_final_state_root :: bytes

datatype SyncError =
    InvalidBlock u64 string
  | ChainGap u64 u64
  | SyncInvalidParentHash u64
  | SyncStateError StateError
  | SyncDbError DbError
  | RequestTimeout
  | PeerDisconnected

fun SyncError_fmt :: "SyncError \<Rightarrow> string" where
  "SyncError_fmt (InvalidBlock height reason) = ''invalid block at height '' @ show_nat (unat height) @ '': '' @ reason"
| "SyncError_fmt (ChainGap expected got) =
     ''chain gap: expected height '' @ show_nat (unat expected) @ '', got '' @ show_nat (unat got)"
| "SyncError_fmt (SyncInvalidParentHash height) = ''invalid parent hash at height '' @ show_nat (unat height)"
| "SyncError_fmt (SyncStateError e) = ''state error: '' @ StateError_fmt e"
| "SyncError_fmt (SyncDbError e) = ''database error: '' @ DbError_fmt e"
| "SyncError_fmt RequestTimeout = ''request timed out''"
| "SyncError_fmt PeerDisconnected = ''peer disconnected''"

section \<open>Serving requests\<close>

definition local_chain_tip ::
  "crypto \<Rightarrow> ('t, 'd) db_env \<Rightarrow> ('t, 'd) NovaDB \<Rightarrow> (u64 \<times> bytes, SyncError) result" where
  "local_chain_tip C E db =
     (case NovaDB_get_latest_block_height E db of
        Err e \<Rightarrow> Err (SyncDbError e)
      | Ok (Some height) \<Rightarrow>
          (case NovaDB_get_block E db height of
             Err e \<Rightarrow> Err (SyncDbError e)
           | Ok None \<Rightarrow> Err (SyncDbError (NotFound (''block at height '' @ show_nat (unat height))))
           | Ok (Some block) \<Rightarrow> Ok (height, bh_hash (blk_header block)))
      | Ok None \<Rightarrow> Ok (0, bh_hash (blk_header (Block_genesis C))))"

definition process_sync_request ::
  "crypto \<Rightarrow> ('t, 'd) db_env \<Rightarrow> ('t, 'd) NovaDB \<Rightarrow> SyncRequest \<Rightarrow> SyncResponse" where
  "process_sync_request C E db request =
     (case request of
        GetChainTip \<Rightarrow>
          (case local_chain_tip C E db of
             Ok (height, hash) \<Rightarrow> ChainTip height hash
           | Err e \<Rightarrow> RespError (''failed to read chain tip: '' @ SyncError_fmt e))
      | GetBlocks st en \<Rightarrow>
          if en \<le> st then RespBlocks []
          else (case NovaDB_get_block_range E db st (en - 1) of
                  Ok blocks \<Rightarrow> RespBlocks blocks
                | Err e \<Rightarrow> RespError (''failed to read blocks ['' @ show_nat (unat st) @ '', '' @
                    show_nat (unat en) @ ''): '' @ DbError_fmt e))
      | GetBlock height \<Rightarrow>
          (case NovaDB_get_block E db height of
             Ok block \<Rightarrow> RespBlock block
           | Err e \<Rightarrow> RespError (''failed to read block at height '' @ show_nat (unat height) @ '': '' @ DbError_fmt e)))"

section \<open>Applying blocks\<close>

text \<open>Replaying the transactions of a block; the first failing transfer stops the replay.\<close>

fun replay_transactions ::
  "'u smt_env \<Rightarrow> 'u StateTree \<Rightarrow> Transaction list \<Rightarrow> u64 \<Rightarrow> ('u StateTree \<times> u64 \<times> StateError option) option" where
  "replay_transactions E tree [] n = Some (tree, n, None)"
| "replay_transactions E tree (tx # txs) n =
     (if tx_type tx = Transfer
      then case apply_transfer E tree (tx_sender tx) (tx_receiver tx) (amt_value (tx_amount tx)) of
             None \<Rightarrow> None
           | Some (tree', Err e) \<Rightarrow> Some (tree', n, Some e)
           | Some (tree', Ok _) \<Rightarrow> replay_transactions E tree' txs (n + 1)
      else replay_transactions E tree txs (n + 1))"

text \<open>The loop over the batch; \<open>first\<close> is \<open>i == 0\<close>.\<close>

fun apply_loop ::
  "('t, 'd, 'u, 'p, 's) node_env \<Rightarrow> u64 \<Rightarrow> bool \<Rightarrow> Block list \<Rightarrow> bytes \<Rightarrow> u64 \<Rightarrow> u64 \<Rightarrow> u64 \<Rightarrow>
   ('t, 'd) NovaDB \<times> 'u StateTree \<Rightarrow> ((('t, 'd) NovaDB \<times> 'u StateTree) \<times> (SyncResult, SyncError) result) option" where
  "apply_loop N first_height is_first [] prev_hash prev_height applied executed (db, tree) =
     Some ((db, tree), Ok \<lparr>sr_blocks_applied = applied, sr_transactions_executed = executed,
       sr_final_height = prev_height, sr_final_state_root = st_root tree\<rparr>)"
| "apply_loop N first_height is_first (block # blocks) prev_hash prev_height applied executed (db, tree) =
     (let h = blk_header block; expected_height = (if is_first then first_height else prev_height + 1) in
      case Block_verify (se_crypto (ne_smt N)) (pe_json (ne_pool N)) block of
        Err reason \<Rightarrow> Some ((db, tree), Err (InvalidBlock (bh_height h) reason))
      | Ok _ \<Rightarrow>
          if bh_height h \<noteq> expected_height then Some ((db, tree), Err (ChainGap expected_height (bh_height h)))
          else if (if is_first \<and> bh_height h = 0 then bh_parent_hash h \<noteq> replicate 32 0 else bh_parent_hash h \<noteq> prev_hash)
          then Some ((db, tree), Err (SyncInvalidParentHash (bh_height h)))
          else
            (case replay_transactions (ne_smt N) tree (blk_transactions block) executed of
               None \<Rightarrow> None
             | Some (tree, executed, Some e) \<Rightarrow> Some ((db, tree), Err (SyncStateError e))
             | Some (tree, executed, None) \<Rightarrow>
                 (case NovaDB_put_block (ne_db N) db block of
                    (db, Err e) \<Rightarrow> Some ((db, tree), Err (SyncDbError e))
                  | (db, Ok _) \<Rightarrow>
                      apply_loop N first_height False blocks (bh_hash h) (bh_height h) (applied + 1) executed (db, tree))))"

definition apply_blocks ::
  "('t, 'd, 'u, 'p, 's) node_env \<Rightarrow> ('t, 'd) NovaDB \<times> 'u StateTree \<Rightarrow> Block list \<Rightarrow>
   ((('t, 'd) NovaDB \<times> 'u StateTree) \<times> (SyncResult, SyncError) result) option" where
  "apply_blocks N st blocks =
     (case st of (db, tree) \<Rightarrow>
      (case blocks of
        [] \<Rightarrow>
          (case local_chain_tip (se_crypto (ne_smt N)) (ne_db N) db of
             Err e \<Rightarrow> Some ((db, tree), Err e)
           | Ok (height, _) \<Rightarrow> Some ((db, tree), Ok \<lparr>sr_blocks_applied = 0, sr_transactions_executed = 0,
                 sr_final_height = height, sr_final_state_root = st_root tree\<rparr>))
      | b # _ \<Rightarrow>
          let first_height = bh_height (blk_header b) in
          if first_height = 0 then apply_loop N first_height True blocks (replicate 32 0) 0 0 0 (db, tree)
          else
            (case NovaDB_get_block (ne_db N) db (first_height - 1) of
               Err e \<Rightarrow> Some ((db, tree), Err (SyncDbError e))
             | Ok None \<Rightarrow> Some ((db, tree), Err (ChainGap (first_height - 1) first_height))
             | Ok (Some prev) \<Rightarrow>
                 apply_loop N first_height True blocks (bh_hash (blk_header prev)) (first_height - 1) 0 0 (db, tree))))"

section \<open>Validation without effects\<close>

fun validate_loop ::
  "crypto \<Rightarrow> tx_json \<Rightarrow> u64 \<Rightarrow> Block option \<Rightarrow> Block list \<Rightarrow> (unit, SyncError) result" where
  "validate_loop C json expected_height prev [] = Ok ()"
| "validate_loop C json expected_height prev (block # blocks) =
     (case Block_verify C json block of
        Err reason \<Rightarrow> Err (InvalidBlock (bh_height (blk_header block)) reason)
      | Ok _ \<Rightarrow>
          if bh_height (blk_header block) \<noteq> expected_height
          then Err (ChainGap expected_height (bh_height (blk_header block)))
          else if (case prev of None \<Rightarrow> False | Some p \<Rightarrow> bh_parent_hash (blk_header block) \<noteq> bh_hash (blk_header p))
          then Err (SyncInvalidParentHash (bh_height (blk_header block)))
          else validate_loop C json (expected_height + 1) (Some block) blocks)"

definition validate_block_chain :: "crypto \<Rightarrow> tx_json \<Rightarrow> Block list \<Rightarrow> u64 \<Rightarrow> (unit, SyncError) result" where
  "validate_block_chain C json blocks expected_start = validate_loop C json expected_start None blocks"

definition needs_sync :: "('t, 'd) db_env \<Rightarrow> ('t, 'd) NovaDB \<Rightarrow> u64 \<Rightarrow> bool" where
  "needs_sync E db remote_height =
     (let local_height = (case NovaDB_get_latest_block_height E db of Ok (Some h) \<Rightarrow> h | _ \<Rightarrow> 0)
      in local_height < remote_height)"

section \<open>The download plan\<close>

partial_function (option) plan_loop :: "u64 \<Rightarrow> u64 \<Rightarrow> u64 \<Rightarrow> (u64 \<times> u64) list option" where
  "plan_loop batch end_h cursor =
     (if cursor < end_h
      then do { let batch_end = min (cursor + batch) end_h;
                rest \<leftarrow> plan_loop batch end_h batch_end;
                Some ((cursor, batch_end) # rest) }
      else Some [])"

definition compute_sync_plan :: "SyncConfig \<Rightarrow> u64 \<Rightarrow> u64 \<Rightarrow> (u64 \<times> u64) list option" where
  "compute_sync_plan config local_height remote_height =
     (if local_height \<ge> remote_height then Some []
      else plan_loop (sc_batch_size config) (remote_height + 1) (local_height + 1))"

section \<open>The plan\<close>

lemma plan_loop_partition:
  assumes "0 < batch" and "unat e + unat batch \<le> 2 ^ 64"
  shows "\<exists>plan. plan_loop batch e c = Some plan \<and>
    concat (map (\<lambda>(a, b). [unat a..<unat b]) plan) = [unat c..<unat e] \<and>
    (\<forall>(a, b)\<in>set plan. a < b \<and> unat b - unat a \<le> unat batch)"
proof (induction "unat e - unat c" arbitrary: c rule: less_induct)
  case less
  show ?case
  proof (cases "c < e")
    case False
    then have "unat e \<le> unat c" by (simp add: word_le_nat_alt [symmetric] not_less)
    then show ?thesis using False by (simp add: plan_loop.simps)
  next
    case True
    let ?n = "min (c + batch) e"
    have c: "unat c < unat e" using True by (simp add: word_less_nat_alt)
    have cb: "unat (c + batch) = unat c + unat batch"
      using c assms(2) by (intro unat_plus_no_overflow) simp
    have n: "unat ?n = min (unat c + unat batch) (unat e)"
      by (simp add: min_def word_le_nat_alt cb)
    have pos: "0 < unat batch" using assms(1) by (simp add: word_less_nat_alt)
    obtain plan where IH: "plan_loop batch e ?n = Some plan"
      "concat (map (\<lambda>(a, b). [unat a..<unat b]) plan) = [unat ?n..<unat e]"
      "\<forall>(a, b)\<in>set plan. a < b \<and> unat b - unat a \<le> unat batch"
      using less.hyps [of ?n] c n pos by fastforce
    have loop: "plan_loop batch e c = Some ((c, ?n) # plan)"
      using True IH(1) by (subst plan_loop.simps) simp
    have "[unat c..<unat e] = [unat c..<unat ?n] @ [unat ?n..<unat e]"
      using upt_add_eq_append [of "unat c" "unat ?n" "unat e - unat ?n"] c n by simp
    moreover have "c < ?n" "unat ?n - unat c \<le> unat batch"
      using c n pos by (simp_all add: word_less_nat_alt)
    ultimately show ?thesis using loop IH(2,3) by simp
  qed
qed

text \<open>A batch size of zero makes the loop run forever.\<close>

lemma plan_loop_zero_diverges:
  assumes "c < e"
  shows "plan_loop 0 e c = None"
proof -
  have "batch = 0 \<longrightarrow> \<not> c < e" if "plan_loop batch e c = Some plan" for batch e c plan
    by (rule plan_loop.raw_induct [where P = "\<lambda>batch e c plan. batch = 0 \<longrightarrow> \<not> c < e", OF _ that])
      (auto simp: min_def split: if_splits bind_splits)
  then show ?thesis using assms by (cases "plan_loop 0 e c") auto
qed

section \<open>Validated chains\<close>

lemma validate_loop_snoc:
  "validate_loop C json h prev (bs @ [b]) = Ok () \<longleftrightarrow>
     validate_loop C json h prev bs = Ok () \<and> Block_verify C json b = Ok () \<and>
     bh_height (blk_header b) = h + of_nat (length bs) \<and>
     (case (if bs = [] then prev else Some (last bs)) of None \<Rightarrow> True
      | Some p \<Rightarrow> bh_parent_hash (blk_header b) = bh_hash (blk_header p))"
  by (induction bs arbitrary: h prev) (auto split: result.splits option.splits simp: ac_simps)

lemma validated_headers_equal:
  assumes "validate_loop C json h None bs = Ok ()" "validate_loop C json h None bs' = Ok ()"
    and "length bs = length bs'" and "bs \<noteq> [] \<Longrightarrow> bh_hash (blk_header (last bs)) = bh_hash (blk_header (last bs'))"
    and "\<forall>b\<in>set bs \<union> set bs'. header_ok (blk_header b)"
    and "inj_on (c_blake3 C) ((header_input \<circ> blk_header) ` (set bs \<union> set bs'))"
  shows "list_all2 (\<lambda>b b'. blk_header b' = (blk_header b)\<lparr>bh_signature := bh_signature (blk_header b')\<rparr>) bs bs'"
  using assms
proof (induction bs arbitrary: bs' rule: rev_induct)
  case Nil
  then show ?case by simp
next
  case (snoc b bs)
  then obtain bs1 b' where bs': "bs' = bs1 @ [b']" by (cases bs' rule: rev_cases) auto
  have len: "length bs = length bs1" using snoc.prems(3) bs' by simp
  note v = snoc.prems(1) [unfolded validate_loop_snoc] snoc.prems(2) [unfolded bs' validate_loop_snoc]
  have inj: "inj_on (c_blake3 C) X" if "X \<subseteq> (header_input \<circ> blk_header) ` (set (bs @ [b]) \<union> set bs')" for X
    using inj_on_subset [OF snoc.prems(6) that] .
  have hdr: "blk_header b' = (blk_header b)\<lparr>bh_signature := bh_signature (blk_header b')\<rparr>"
    using v snoc.prems(4,5) by (intro verified_hash_binds [where C = C and json = json] inj) (auto simp: bs')
  then have ph: "bh_parent_hash (blk_header b') = bh_parent_hash (blk_header b)"
    by (metis BlockHeader.select_convs(3) BlockHeader.surjective BlockHeader.update_convs(8))
  have "list_all2 (\<lambda>b b'. blk_header b' = (blk_header b)\<lparr>bh_signature := bh_signature (blk_header b')\<rparr>) bs bs1"
  proof (rule snoc.IH)
    show "bh_hash (blk_header (last bs)) = bh_hash (blk_header (last bs1))" if "bs \<noteq> []"
      using v ph that len by (cases "bs1 = []") auto
  qed (use v len snoc.prems(5) inj in \<open>auto simp: bs'\<close>)
  then show ?case using hdr by (simp add: bs' list_all2_appendI)
qed

section \<open>Replay\<close>

lemma replay_run_all:
  "run_all E T txs = Some T' \<Longrightarrow> replay_transactions E T txs n = Some (T', n + of_nat (length txs), None)"
proof (induction txs arbitrary: T n)
  case Nil
  then show ?case by simp
next
  case (Cons tx txs)
  then show ?case
    by (cases "tx_type tx")
      (auto simp: execute_transaction_def ac_simps split: option.splits result.splits)
qed

text \<open>
  A run of the producer: each step takes the mempool and the clock as they are then, and extends
  the block of the step before.
\<close>

fun produce_chain ::
  "('t, 'd, 'u, 'p, 's) node_env \<Rightarrow> BlockProducer \<Rightarrow> (('p, 's) Mempool \<times> u64 \<times> nat) list \<Rightarrow> ('t, 'd, 'u, 'p, 's) infra \<Rightarrow>
     Block \<Rightarrow> (('t, 'd, 'u, 'p, 's) infra \<times> Block list) option" where
  "produce_chain N bp [] nf parent = Some (nf, [])"
| "produce_chain N bp ((pool, now, k) # steps) nf parent =
     (case BlockProducer_produce_block N now bp (nf\<lparr>inf_pool := pool\<rparr>) parent k of
        Some (nf', Ok pb) \<Rightarrow>
          map_option (\<lambda>(nf'', bs). (nf'', pb_block pb # bs)) (produce_chain N bp steps nf' (pb_block pb))
      | _ \<Rightarrow> None)"

lemma produced_block_facts:
  assumes "smt_env_ok (ne_smt N)" "smt_inv (ne_smt N) (inf_tree nf) V"
    and prod: "BlockProducer_produce_block N now bp nf parent k = Some (nf', Ok pb)"
    and h: "unat (bh_height (blk_header parent)) < 2 ^ 64 - 1"
  shows "\<exists>V'. smt_inv (ne_smt N) (inf_tree nf') V' \<and>
    Block_verify (se_crypto (ne_smt N)) (pe_json (ne_pool N)) (pb_block pb) = Ok () \<and>
    bh_parent_hash (blk_header (pb_block pb)) = bh_hash (blk_header parent) \<and>
    bh_height (blk_header (pb_block pb)) = bh_height (blk_header parent) + 1 \<and>
    bh_state_root (blk_header (pb_block pb)) = st_root (inf_tree nf') \<and>
    (\<forall>T2. smt_inv (ne_smt N) T2 V \<longrightarrow>
       (\<exists>T2'. run_all (ne_smt N) T2 (blk_transactions (pb_block pb)) = Some T2' \<and> smt_inv (ne_smt N) T2' V'))"
proof -
  let ?C = "se_crypto (ne_smt N)" and ?json = "pe_json (ne_pool N)"
  let ?new = "Block_new ?C ?json now parent (blk_transactions (pb_block pb)) (bp_validator_address bp) (pb_state_root pb)"
  obtain V' where V': "smt_inv (ne_smt N) (inf_tree nf') V'" "pb_state_root pb = st_root (inf_tree nf')"
    "pb_block pb = ?new\<lparr>blk_header := (blk_header ?new)\<lparr>bh_signature :=
        sig_bytes (NovaKeypair_sign ?C (bp_keypair bp) (bh_hash (blk_header ?new)))\<rparr>\<rparr>"
    "\<forall>T2. smt_inv (ne_smt N) T2 V \<longrightarrow>
       (\<exists>T2'. run_all (ne_smt N) T2 (blk_transactions (pb_block pb)) = Some T2' \<and> smt_inv (ne_smt N) T2' V')"
    using produce_block_spec [OF assms(1,2), of now bp parent k] unfolding prod Let_def by auto
  have "Block_verify ?C ?json ?new = Ok ()" by (rule new_block_verifies [OF h])
  then have "Block_verify ?C ?json (pb_block pb) = Ok ()"
    by (subst V'(3)) (simp only: Block_verify_signature)
  moreover have "bh_parent_hash (blk_header (pb_block pb)) = bh_hash (blk_header parent) \<and>
      bh_height (blk_header (pb_block pb)) = bh_height (blk_header parent) + 1 \<and>
      bh_state_root (blk_header (pb_block pb)) = st_root (inf_tree nf')"
    by (subst (1 2 3) V'(3)) (simp add: Block_new_def Let_def V'(2))
  ultimately show ?thesis using V'(1,4) by blast
qed

text \<open>Applying a produced chain block by block; \<open>V\<close> are the accounts both nodes start from.\<close>

lemma apply_loop_produced_chain:
  assumes env: "smt_env_ok (ne_smt N)" "sled_ok (ne_db N)"
  shows "produce_chain N bp steps nf parent = Some (nf', bs) \<Longrightarrow>
    smt_inv (ne_smt N) (inf_tree nf) V \<Longrightarrow> smt_inv (ne_smt N) tree V \<Longrightarrow> codecs (ne_db N) bs \<Longrightarrow>
    unat (bh_height (blk_header parent)) + length steps < 2 ^ 64 \<Longrightarrow>
    (is_first \<Longrightarrow> first_height = bh_height (blk_header parent) + 1) \<Longrightarrow>
    \<exists>db' tree' ex. apply_loop N first_height is_first bs (bh_hash (blk_header parent)) (bh_height (blk_header parent)) n m (db, tree) =
      Some ((db', tree'), Ok \<lparr>sr_blocks_applied = n + of_nat (length bs), sr_transactions_executed = ex,
        sr_final_height = bh_height (blk_header parent) + of_nat (length bs), sr_final_state_root = st_root (inf_tree nf')\<rparr>) \<and>
      st_root tree' = st_root (inf_tree nf') \<and>
      (\<forall>b\<in>set bs. NovaDB_get_block (ne_db N) db' (bh_height (blk_header b)) = Ok (Some b)) \<and>
      (\<forall>h \<le> bh_height (blk_header parent). NovaDB_get_block (ne_db N) db' h = NovaDB_get_block (ne_db N) db h)"
proof (induction steps arbitrary: nf parent bs V tree db n m is_first)
  case Nil
  then show ?case by (auto simp: smt_inv_def)
next
  case (Cons step steps)
  obtain pool now k where step: "step = (pool, now, k)" by (cases step)
  obtain nf1 pb bs1 where prod: "BlockProducer_produce_block N now bp (nf\<lparr>inf_pool := pool\<rparr>) parent k = Some (nf1, Ok pb)"
    and chain: "produce_chain N bp steps nf1 (pb_block pb) = Some (nf', bs1)" and bs: "bs = pb_block pb # bs1"
    using Cons.prems(1) unfolding step by (auto split: option.splits result.splits)
  let ?b = "pb_block pb" and ?h = "bh_height (blk_header parent)"
  have lt: "unat ?h < 2 ^ 64 - 1" using Cons.prems(5) by simp
  have inv: "smt_inv (ne_smt N) (inf_tree (nf\<lparr>inf_pool := pool\<rparr>)) V" using Cons.prems(2) by simp
  obtain V' where V': "smt_inv (ne_smt N) (inf_tree nf1) V'"
    "Block_verify (se_crypto (ne_smt N)) (pe_json (ne_pool N)) ?b = Ok ()"
    "bh_parent_hash (blk_header ?b) = bh_hash (blk_header parent)" "bh_height (blk_header ?b) = ?h + 1"
    and replay: "\<forall>T2. smt_inv (ne_smt N) T2 V \<longrightarrow>
       (\<exists>T2'. run_all (ne_smt N) T2 (blk_transactions ?b) = Some T2' \<and> smt_inv (ne_smt N) T2' V')"
    using produced_block_facts [OF env(1) inv prod lt] by blast
  obtain tree1 where tree1: "run_all (ne_smt N) tree (blk_transactions ?b) = Some tree1" "smt_inv (ne_smt N) tree1 V'"
    using replay Cons.prems(3) by blast
  have codec: "block_codec (ne_db N) ?b" "\<forall>tx\<in>set (blk_transactions ?b). tx_codec (ne_db N) tx" "codecs (ne_db N) bs1"
    using Cons.prems(4) by (simp_all add: bs codecs_def)
  obtain db1 where db1: "NovaDB_put_block (ne_db N) db ?b = (db1, Ok ())"
    "\<And>h. NovaDB_get_block (ne_db N) db1 h = (if h = bh_height (blk_header ?b) then Ok (Some ?b) else NovaDB_get_block (ne_db N) db h)"
    by (rule put_block_queries [OF env(2) codec(1,2), of db], rule that)
  have unat: "unat (?h + 1) = unat ?h + 1" using lt by (simp add: unat_plus_no_overflow)
  then have nz: "?h + 1 \<noteq> 0" and less: "?h < ?h + 1" by (auto simp: word_less_nat_alt)
  have len: "unat (bh_height (blk_header ?b)) + length steps < 2 ^ 64"
    using Cons.prems(5) unat V'(4) by simp
  have step: "apply_loop N first_height is_first bs (bh_hash (blk_header parent)) ?h n m (db, tree) =
      apply_loop N first_height False bs1 (bh_hash (blk_header ?b)) (bh_height (blk_header ?b)) (n + 1)
        (m + of_nat (length (blk_transactions ?b))) (db1, tree1)"
    using V'(2-4) replay_run_all [OF tree1(1)] db1(1) nz Cons.prems(6) by (auto simp: bs Let_def)
  obtain db' tree' ex where IH: "apply_loop N first_height False bs1 (bh_hash (blk_header ?b)) (bh_height (blk_header ?b)) (n + 1)
        (m + of_nat (length (blk_transactions ?b))) (db1, tree1) =
      Some ((db', tree'), Ok \<lparr>sr_blocks_applied = n + 1 + of_nat (length bs1), sr_transactions_executed = ex,
        sr_final_height = bh_height (blk_header ?b) + of_nat (length bs1), sr_final_state_root = st_root (inf_tree nf')\<rparr>)"
    "st_root tree' = st_root (inf_tree nf')"
    "\<forall>b\<in>set bs1. NovaDB_get_block (ne_db N) db' (bh_height (blk_header b)) = Ok (Some b)"
    "\<forall>h \<le> bh_height (blk_header ?b). NovaDB_get_block (ne_db N) db' h = NovaDB_get_block (ne_db N) db1 h"
    using Cons.IH [OF chain V'(1) tree1(2) codec(3) len, where is_first = False and n = "n + 1" and db = db1
        and m = "m + of_nat (length (blk_transactions ?b))"] by blast
  have "NovaDB_get_block (ne_db N) db' h = NovaDB_get_block (ne_db N) db h" if "h \<le> ?h" for h
    using IH(4) db1(2) [of h] that less V'(4) by (metis order.strict_trans1 less_imp_le order.strict_iff_not)
  moreover have "NovaDB_get_block (ne_db N) db' (bh_height (blk_header ?b)) = Ok (Some ?b)"
    using IH(4) db1(2) by simp
  ultimately show ?case
    unfolding step using IH(1-3) by (simp add: bs V'(4) ac_simps)
qed

lemma produce_chain_last:
  "produce_chain N bp steps nf parent = Some (nf', bs) \<Longrightarrow> steps \<noteq> [] \<Longrightarrow>
     bs \<noteq> [] \<and> bh_state_root (blk_header (last bs)) = st_root (inf_tree nf')"
proof (induction steps arbitrary: nf parent bs)
  case Nil
  then show ?case by simp
next
  case (Cons step steps)
  obtain pool now k where step: "step = (pool, now, k)" by (cases step)
  obtain nf1 pb bs1 where prod: "BlockProducer_produce_block N now bp (nf\<lparr>inf_pool := pool\<rparr>) parent k = Some (nf1, Ok pb)"
    and chain: "produce_chain N bp steps nf1 (pb_block pb) = Some (nf', bs1)" and bs: "bs = pb_block pb # bs1"
    using Cons.prems(1) unfolding step by (auto split: option.splits result.splits)
  have "bh_state_root (blk_header (pb_block pb)) = st_root (inf_tree nf1)"
    using prod by (auto simp: BlockProducer_produce_block_def Block_new_def Let_def split: option.splits)
  then show ?case using Cons.IH [OF chain] chain by (cases "steps = []") (auto simp: bs)
qed

lemma produce_chain_first:
  assumes "produce_chain N bp steps nf parent = Some (nf', b # bs)"
  shows "bh_height (blk_header b) = bh_height (blk_header parent) + 1"
  using assms
  by (cases steps)
    (auto simp: BlockProducer_produce_block_def Block_new_def Let_def split: option.splits result.splits)

text \<open>The state root of a header is never compared with the tree: any root is accepted.\<close>

lemma wrong_state_root_accepted:
  assumes b_def: "b = Block_new (se_crypto (ne_smt N)) (pe_json (ne_pool N)) now parent [] validator root"
    and "sled_ok (ne_db N)" "codecs (ne_db N) [b]"
    and parent: "NovaDB_get_block (ne_db N) db (bh_height (blk_header parent)) = Ok (Some parent)"
    and h: "unat (bh_height (blk_header parent)) < 2 ^ 64 - 1"
  shows "\<exists>db' res. apply_blocks N (db, tree) [b] = Some ((db', tree), Ok res)"
proof -
  have "unat (bh_height (blk_header parent) + 1) = unat (bh_height (blk_header parent)) + 1"
    using h by (simp add: unat_plus_no_overflow)
  then have nz: "bh_height (blk_header parent) + 1 \<noteq> 0" by auto
  have b: "bh_height (blk_header b) = bh_height (blk_header parent) + 1" "blk_transactions b = []"
    "bh_parent_hash (blk_header b) = bh_hash (blk_header parent)"
    by (simp_all add: b_def Block_new_def Let_def)
  have v: "Block_verify (se_crypto (ne_smt N)) (pe_json (ne_pool N)) b = Ok ()"
    unfolding b_def by (rule new_block_verifies [OF h])
  have c: "block_codec (ne_db N) b" "\<forall>tx\<in>set (blk_transactions b). tx_codec (ne_db N) tx"
    using assms(3) by (simp_all add: codecs_def)
  obtain db' where "NovaDB_put_block (ne_db N) db b = (db', Ok ())"
    by (rule put_block_queries [OF assms(2) c, of db], rule that)
  then show ?thesis using b v nz parent by (simp add: apply_blocks_def Let_def)
qed

section \<open>Properties\<close>

text \<open>
  C25. A follower derives the state from the blocks: if it holds the parent and the same accounts as
  the producer, it accepts the whole chain the producer builds on that parent, whatever the
  mempools were, stores every block, and ends at the state root in the last header.
\<close>
theorem sync_reproduces_state:
  assumes env: "smt_env_ok (ne_smt N)" "sled_ok (ne_db N)"
    and prod: "produce_chain N bp steps nf parent = Some (nf', bs)" "steps \<noteq> []"
    and inv: "smt_inv (ne_smt N) (inf_tree nf) V" "smt_inv (ne_smt N) tree V"
    and parent: "NovaDB_get_block (ne_db N) db (bh_height (blk_header parent)) = Ok (Some parent)"
    and codec: "codecs (ne_db N) bs"
    and height: "unat (bh_height (blk_header parent)) + length steps < 2 ^ 64"
  shows "\<exists>db' tree' res. apply_blocks N (db, tree) bs = Some ((db', tree'), Ok res) \<and>
    sr_blocks_applied res = of_nat (length bs) \<and>
    sr_final_height res = bh_height (blk_header parent) + of_nat (length bs) \<and>
    st_root tree' = bh_state_root (blk_header (last bs)) \<and> sr_final_state_root res = st_root (inf_tree nf') \<and>
    (\<forall>b\<in>set bs. NovaDB_get_block (ne_db N) db' (bh_height (blk_header b)) = Ok (Some b)) \<and>
    (\<forall>h \<le> bh_height (blk_header parent). NovaDB_get_block (ne_db N) db' h = NovaDB_get_block (ne_db N) db h)"
proof -
  let ?h = "bh_height (blk_header parent)"
  have last: "bs \<noteq> []" "bh_state_root (blk_header (last bs)) = st_root (inf_tree nf')"
    using produce_chain_last [OF prod] by simp_all
  then obtain b bs1 where bs: "bs = b # bs1" by (cases bs) auto
  have h: "bh_height (blk_header b) = ?h + 1"
    using produce_chain_first prod(1) unfolding bs .
  have "1 \<le> length steps" using prod(2) by (simp add: Suc_le_eq)
  then have "unat ?h + unat (1 :: u64) < 2 ^ 64" using height by simp
  then have "unat (?h + 1) = unat ?h + 1" using unat_plus_no_overflow [of ?h 1] by simp
  then have nz: "?h + 1 \<noteq> 0" by auto
  have "apply_blocks N (db, tree) bs = apply_loop N (?h + 1) True bs (bh_hash (blk_header parent)) ?h 0 0 (db, tree)"
    using h nz parent by (simp add: apply_blocks_def bs Let_def del: apply_loop.simps)
  then show ?thesis
    using apply_loop_produced_chain [OF env prod(1) inv codec height, where is_first = True and first_height = "?h + 1"
        and n = 0 and m = 0 and db = db] last(2) by fastforce
qed

text \<open>
  C26. The tip determines the chain: two downloaded chains of the same length that pass
  \<open>validate_block_chain\<close> from the same height and end in the same hash have the same headers up to
  signatures, so the same state roots and transaction roots, unless BLAKE3 collides on one of their
  headers.
\<close>
theorem tip_determines_chain:
  assumes "validate_block_chain C json bs h = Ok ()" "validate_block_chain C json bs' h = Ok ()"
    and "length bs = length bs'" "bs \<noteq> []" "bh_hash (blk_header (last bs)) = bh_hash (blk_header (last bs'))"
    and "\<forall>b\<in>set bs \<union> set bs'. header_ok (blk_header b)"
    and "inj_on (c_blake3 C) ((header_input \<circ> blk_header) ` (set bs \<union> set bs'))"
  shows "list_all2 (\<lambda>b b'. blk_header b' = (blk_header b)\<lparr>bh_signature := bh_signature (blk_header b')\<rparr>) bs bs'"
  using validated_headers_equal assms unfolding validate_block_chain_def by blast

text \<open>
  C27. The download plan ends and covers the gap exactly: with a positive batch size, and heights that
  stay a batch below the end of the 64-bit range, \<open>compute_sync_plan\<close> returns ranges that, put
  together, are the missing heights in order, each non-empty and no longer than a batch.
\<close>
theorem sync_plan_partition:
  assumes "0 < sc_batch_size config" and "unat remote_height + 1 + unat (sc_batch_size config) \<le> 2 ^ 64"
  shows "\<exists>plan. compute_sync_plan config local_height remote_height = Some plan \<and>
    concat (map (\<lambda>(a, b). [unat a..<unat b]) plan) = [unat local_height + 1..<unat remote_height + 1] \<and>
    (\<forall>(a, b)\<in>set plan. a < b \<and> unat b - unat a \<le> unat (sc_batch_size config))"
proof (cases "local_height \<ge> remote_height")
  case True
  then show ?thesis by (simp add: compute_sync_plan_def word_le_nat_alt)
next
  case False
  have "0 < unat (sc_batch_size config)" using assms(1) by (simp add: word_less_nat_alt)
  then have e: "unat (remote_height + 1) = unat remote_height + 1"
    using assms(2) unat_plus_no_overflow [of remote_height 1] by simp
  have "unat local_height < unat remote_height" using False by (simp add: word_less_nat_alt not_le)
  then have c: "unat (local_height + 1) = unat local_height + 1"
    using assms(2) unat_plus_no_overflow [of local_height 1] by simp
  show ?thesis
    using plan_loop_partition [OF assms(1), of "remote_height + 1" "local_height + 1"] assms(2) False
    by (simp add: compute_sync_plan_def e c)
qed

section \<open>Witnesses\<close>

theorem sync_plan_partition_witness:
  "\<exists>plan. compute_sync_plan SyncConfig_default 5 250 = Some plan \<and>
    concat (map (\<lambda>(a, b). [unat a..<unat b]) plan) = [6..<251]"
  using sync_plan_partition [of SyncConfig_default 250 5] by (fastforce simp: SyncConfig_default_def)

theorem tip_determines_chain_witness:
  "let b' = demo_block\<lparr>blk_header := (blk_header demo_block)\<lparr>bh_signature := [1, 2]\<rparr>\<rparr>; g = Block_genesis demo_crypto in
   list_all2 (\<lambda>b b'. blk_header b' = (blk_header b)\<lparr>bh_signature := bh_signature (blk_header b')\<rparr>) [g, demo_block] [g, b']"
proof -
  let ?g = "Block_genesis demo_crypto" and ?b = "demo_block\<lparr>blk_header := (blk_header demo_block)\<lparr>bh_signature := [1, 2]\<rparr>\<rparr>"
  have v: "Block_verify demo_crypto demo_json demo_block = Ok ()" "Block_verify demo_crypto demo_json ?g = Ok ()"
    by (simp_all add: demo_block_def Block_new_def Block_genesis_def Block_verify_iff Block_compute_hash_def
        compute_merkle_root_def Let_def)
  have link: "bh_height (blk_header demo_block) = 1" "bh_parent_hash (blk_header demo_block) = bh_hash (blk_header ?g)"
    by (simp_all add: demo_block_def Block_new_def Let_def genesis_height)
  have g: "header_ok (blk_header ?g)"
    by (simp add: Block_genesis_def header_ok_def compute_header_hash_def blake3_hash_def crypto_okD [OF demo_crypto_ok] Let_def)
  have "c_blake3 demo_crypto (header_input (blk_header ?g)) \<noteq> c_blake3 demo_crypto (header_input (blk_header demo_block))"
    by (simp add: header_input_def header_preimage_def link genesis_height demo_crypto_def pad32_def)
  moreover have "(header_input \<circ> blk_header) ` (set [?g, demo_block] \<union> set [?g, ?b]) =
      {header_input (blk_header ?g), header_input (blk_header demo_block)}"
    by (auto simp: header_input_def)
  ultimately have inj: "inj_on (c_blake3 demo_crypto) ((header_input \<circ> blk_header) ` (set [?g, demo_block] \<union> set [?g, ?b]))"
    by auto
  show ?thesis
    unfolding Let_def
    by (rule tip_determines_chain [where C = demo_crypto and json = demo_json and h = 0, OF _ _ _ _ _ _ inj])
      (use v link g demo_block_ok in \<open>simp_all add: validate_block_chain_def Block_verify_signature
        genesis_height header_ok_def\<close>)
qed

text \<open>A follower with the genesis block and no accounts, and a codec that knows the two blocks.\<close>

definition sync_env ::
  "((bytes \<times> bytes) list, unit, (bytes \<times> bytes) list, (string \<times> MempoolEntry) list, (string \<times> nat) list) node_env" where
  "sync_env = demo_node_env\<lparr>ne_db := demo_db_env\<lparr>
     de_enc_block := (\<lambda>b. Ok (if bh_height (blk_header b) = 0 then [0] else [1])),
     de_dec_block := (\<lambda>x. Ok (if x = [0] then Block_genesis (se_crypto demo_env) else demo_produced))\<rparr>\<rparr>"

lemma sled_ok_codec: "sled_ok (E\<lparr>de_enc_block := e, de_dec_block := d\<rparr>) \<longleftrightarrow> sled_ok E"
  unfolding sled_ok_def by (simp cong: option.case_cong)

lemma sync_env_ok: "smt_env_ok (ne_smt sync_env)" "sled_ok (ne_db sync_env)"
  using demo_env_ok demo_db_env_ok by (simp_all add: sync_env_def demo_node_env_def sled_ok_codec)

theorem sync_reproduces_state_witness:
  "\<exists>db db' tree' res. apply_blocks sync_env (db, StateTree_new demo_env []) [demo_produced] = Some ((db', tree'), Ok res) \<and>
     sr_blocks_applied res = 1 \<and> st_root tree' = bh_state_root (blk_header demo_produced)"
proof -
  let ?g = "Block_genesis (se_crypto demo_env)"
  let ?steps = "[(Mempool_new demo_pool_env small_config, 9, 1000)]"
  have prod: "\<exists>nf'. produce_chain sync_env (cl_producer demo_loop) ?steps demo_infra ?g = Some (nf', [demo_produced])"
    and txs: "blk_transactions demo_produced = []" "bh_height (blk_header demo_produced) = 1"
    by (simp_all add: BlockProducer_produce_block_def demo_produced_def sync_env_def demo_node_env_def demo_loop_def
        demo_infra_def demo_no_candidates Let_def Block_new_def genesis_height)
  obtain nf' where prod: "produce_chain sync_env (cl_producer demo_loop) ?steps demo_infra ?g = Some (nf', [demo_produced])"
    using prod by blast
  have inv: "smt_inv (ne_smt sync_env) (inf_tree demo_infra) Map.empty"
    "smt_inv (ne_smt sync_env) (StateTree_new demo_env []) Map.empty"
    using demo_new_inv by (simp_all add: sync_env_def demo_node_env_def demo_infra_def)
  have codec: "codecs (ne_db sync_env) [demo_produced]" "codecs (ne_db sync_env) [?g]"
    using txs by (simp_all add: codecs_def block_codec_def sync_env_def genesis_height) (simp add: Block_genesis_def Let_def)
  have g: "block_codec (ne_db sync_env) ?g" "\<forall>tx\<in>set (blk_transactions ?g). tx_codec (ne_db sync_env) tx"
    using codec(2) by (simp_all add: codecs_def)
  obtain db where "\<And>h. NovaDB_get_block (ne_db sync_env) db h =
      (if h = bh_height (blk_header ?g) then Ok (Some ?g) else NovaDB_get_block (ne_db sync_env) demo_db h)"
    by (rule put_block_queries [OF sync_env_ok(2) g, of demo_db], rule that)
  then have db: "NovaDB_get_block (ne_db sync_env) db (bh_height (blk_header ?g)) = Ok (Some ?g)" by simp
  have height: "unat (bh_height (blk_header ?g)) + length ?steps < 2 ^ 64" by (simp add: genesis_height)
  show ?thesis
    using sync_reproduces_state [OF sync_env_ok prod _ inv db codec(1) height] by (fastforce simp: genesis_height)
qed

end
