(* ===== verification/Credit_Lines.thy ===== *)
theory Credit_Lines
  imports Nova_Prelude
begin

text \<open>
  Credit lines of the vault, \<open>protocol/src/vault/credit.rs\<close>: one line between a provider and a borrower,
  and the manager that chooses among several. The clock and the fresh UUID are arguments, one clock
  value for each place that reads it. \<open>plus_days\<close> stands for \<open>DateTime + Duration::days\<close> of
  \<open>chrono\<close>, whose overflow panics (\<open>None\<close>). The two queries that format a \<open>f64\<close> are not modelled.
  The lemmas give the ledger of a line, the finality of its terminal states, and that the manager
  draws on a cheapest eligible line.
\<close>

section \<open>Types\<close>

datatype CreditLineStatus = Active | Frozen | Closed | Defaulted

fun allows_draws :: "CreditLineStatus \<Rightarrow> bool" where
  "allows_draws Active = True"
| "allows_draws _ = False"

fun allows_repayments :: "CreditLineStatus \<Rightarrow> bool" where
  "allows_repayments Active = True"
| "allows_repayments Frozen = True"
| "allows_repayments Defaulted = True"
| "allows_repayments Closed = False"

fun is_terminal :: "CreditLineStatus \<Rightarrow> bool" where
  "is_terminal Closed = True"
| "is_terminal Defaulted = True"
| "is_terminal _ = False"

datatype CreditError =
    LimitExceeded string u64 u64
  | NotActive string CreditLineStatus
  | Expired string datetime
  | OverRepayment string u64 u64
  | NoEligibleLine u64
  | AlreadyClosed string

record CreditLine =
  cr_id :: string
  cr_provider :: string
  cr_borrower :: string
  cr_limit :: u64
  cr_used :: u64
  cr_interest_rate_bps :: u32
  cr_term_days :: u32
  cr_created_at :: datetime
  cr_expires_at :: datetime
  cr_status :: CreditLineStatus

section \<open>A line\<close>

definition CreditLine_new ::
  "(datetime \<Rightarrow> int \<Rightarrow> datetime option) \<Rightarrow> string \<Rightarrow> datetime \<Rightarrow> string \<Rightarrow> string \<Rightarrow> u64 \<Rightarrow> u32 \<Rightarrow> u32 \<Rightarrow> CreditLine option" where
  "CreditLine_new plus_days uuid now provider borrower limit interest_rate_bps term_days =
     (case plus_days now (uint term_days) of
        None \<Rightarrow> None
      | Some expires_at \<Rightarrow>
          Some \<lparr>cr_id = uuid, cr_provider = provider, cr_borrower = borrower, cr_limit = limit, cr_used = 0,
            cr_interest_rate_bps = interest_rate_bps, cr_term_days = term_days, cr_created_at = now,
            cr_expires_at = expires_at, cr_status = Active\<rparr>)"

definition CreditLine_available :: "CreditLine \<Rightarrow> u64" where
  "CreditLine_available l =
     (if \<not> allows_draws (cr_status l) then 0 else saturating_sub (cr_limit l) (cr_used l))"

definition CreditLine_is_expired :: "datetime \<Rightarrow> CreditLine \<Rightarrow> bool" where
  "CreditLine_is_expired now l \<longleftrightarrow> now > cr_expires_at l"

definition CreditLine_draw :: "datetime \<Rightarrow> CreditLine \<Rightarrow> u64 \<Rightarrow> CreditLine \<times> (u64, CreditError) result" where
  "CreditLine_draw now l amount =
     (if \<not> allows_draws (cr_status l) then (l, Err (NotActive (cr_id l) (cr_status l)))
      else if CreditLine_is_expired now l then (l, Err (Expired (cr_id l) (cr_expires_at l)))
      else
        let avail = CreditLine_available l in
        if amount > avail then (l, Err (LimitExceeded (cr_id l) avail amount))
        else let l = l\<lparr>cr_used := cr_used l + amount\<rparr> in (l, Ok (CreditLine_available l)))"

definition CreditLine_repay :: "CreditLine \<Rightarrow> u64 \<Rightarrow> CreditLine \<times> (u64, CreditError) result" where
  "CreditLine_repay l amount =
     (if cr_status l = Closed then (l, Err (AlreadyClosed (cr_id l)))
      else if amount > cr_used l then (l, Err (OverRepayment (cr_id l) (cr_used l) amount))
      else let l = l\<lparr>cr_used := cr_used l - amount\<rparr> in (l, Ok (cr_used l)))"

definition CreditLine_freeze :: "CreditLine \<Rightarrow> CreditLine \<times> (unit, CreditError) result" where
  "CreditLine_freeze l =
     (if is_terminal (cr_status l) then (l, Err (AlreadyClosed (cr_id l)))
      else (l\<lparr>cr_status := Frozen\<rparr>, Ok ()))"

definition CreditLine_unfreeze :: "CreditLine \<Rightarrow> CreditLine \<times> (unit, CreditError) result" where
  "CreditLine_unfreeze l =
     (if cr_status l \<noteq> Frozen then (l, Err (NotActive (cr_id l) (cr_status l)))
      else (l\<lparr>cr_status := Active\<rparr>, Ok ()))"

definition CreditLine_close :: "CreditLine \<Rightarrow> CreditLine \<times> (unit, CreditError) result" where
  "CreditLine_close l =
     (if cr_status l = Closed then (l, Err (AlreadyClosed (cr_id l)))
      else (l\<lparr>cr_status := Closed\<rparr>, Ok ()))"

definition CreditLine_default_line :: "CreditLine \<Rightarrow> CreditLine \<times> (unit, CreditError) result" where
  "CreditLine_default_line l =
     (if is_terminal (cr_status l) then (l, Err (AlreadyClosed (cr_id l)))
      else (l\<lparr>cr_status := Defaulted\<rparr>, Ok ()))"

section \<open>The manager\<close>

record CreditLineManager =
  lm_lines :: "CreditLine list"

definition CreditLineManager_new :: CreditLineManager where
  "CreditLineManager_new = \<lparr>lm_lines = []\<rparr>"

definition CreditLineManager_add_line :: "CreditLineManager \<Rightarrow> CreditLine \<Rightarrow> CreditLineManager" where
  "CreditLineManager_add_line m line = m\<lparr>lm_lines := lm_lines m @ [line]\<rparr>"

text \<open>\<open>Iterator::position\<close>.\<close>

fun position :: "('a \<Rightarrow> bool) \<Rightarrow> 'a list \<Rightarrow> nat option" where
  "position P [] = None"
| "position P (x # xs) = (if P x then Some 0 else map_option Suc (position P xs))"

definition CreditLineManager_remove_closed_line ::
  "CreditLineManager \<Rightarrow> string \<Rightarrow> CreditLineManager \<times> CreditLine option" where
  "CreditLineManager_remove_closed_line m line_id =
     (case position (\<lambda>l. cr_id l = line_id \<and> cr_status l = Closed) (lm_lines m) of
        None \<Rightarrow> (m, None)
      | Some pos \<Rightarrow>
          (m\<lparr>lm_lines := take pos (lm_lines m) @ drop (Suc pos) (lm_lines m)\<rparr>, Some (lm_lines m ! pos)))"

definition CreditLineManager_get_line :: "CreditLineManager \<Rightarrow> string \<Rightarrow> CreditLine option" where
  "CreditLineManager_get_line m line_id = find (\<lambda>l. cr_id l = line_id) (lm_lines m)"

text \<open>A mutable reference into the list is its index.\<close>

definition CreditLineManager_get_line_mut :: "CreditLineManager \<Rightarrow> string \<Rightarrow> nat option" where
  "CreditLineManager_get_line_mut m line_id = position (\<lambda>l. cr_id l = line_id) (lm_lines m)"

definition CreditLineManager_line_count :: "CreditLineManager \<Rightarrow> nat" where
  "CreditLineManager_line_count m = length (lm_lines m)"

definition CreditLineManager_total_available :: "datetime \<Rightarrow> CreditLineManager \<Rightarrow> u64" where
  "CreditLineManager_total_available now m =
     sum_list (map CreditLine_available
       (filter (\<lambda>l. allows_draws (cr_status l) \<and> \<not> CreditLine_is_expired now l) (lm_lines m)))"

definition CreditLineManager_total_outstanding :: "CreditLineManager \<Rightarrow> u64" where
  "CreditLineManager_total_outstanding m = sum_list (map cr_used (lm_lines m))"

definition CreditLineManager_active_line_count :: "datetime \<Rightarrow> CreditLineManager \<Rightarrow> nat" where
  "CreditLineManager_active_line_count now m =
     length (filter (\<lambda>l. cr_status l = Active \<and> \<not> CreditLine_is_expired now l) (lm_lines m))"

text \<open>
  The comparison gives a result other than \<open>Greater\<close>; \<open>Iterator::min_by\<close> keeps the earlier of two
  equal elements.
\<close>

definition line_le :: "CreditLine \<Rightarrow> CreditLine \<Rightarrow> bool" where
  "line_le a b \<longleftrightarrow> cr_interest_rate_bps a < cr_interest_rate_bps b \<or>
     cr_interest_rate_bps a = cr_interest_rate_bps b \<and> CreditLine_available b \<le> CreditLine_available a"

fun min_by :: "('a \<Rightarrow> 'a \<Rightarrow> bool) \<Rightarrow> 'a list \<Rightarrow> 'a option" where
  "min_by le [] = None"
| "min_by le (x # xs) = Some (foldl (\<lambda>a b. if le a b then a else b) x xs)"

definition CreditLineManager_best_available_line ::
  "datetime \<Rightarrow> CreditLineManager \<Rightarrow> u64 \<Rightarrow> CreditLine option" where
  "CreditLineManager_best_available_line now m amount =
     min_by line_le (filter (\<lambda>l. allows_draws (cr_status l) \<and> \<not> CreditLine_is_expired now l \<and>
       CreditLine_available l \<ge> amount) (lm_lines m))"

definition CreditLineManager_draw_best_available ::
  "datetime \<Rightarrow> datetime \<Rightarrow> CreditLineManager \<Rightarrow> u64 \<Rightarrow> (CreditLineManager \<times> (string \<times> u64, CreditError) result) option" where
  "CreditLineManager_draw_best_available now now' m amount =
     (case CreditLineManager_best_available_line now m amount of
        None \<Rightarrow> Some (m, Err (NoEligibleLine amount))
      | Some l \<Rightarrow>
          let line_id = cr_id l in
          (case CreditLineManager_get_line_mut m line_id of
             None \<Rightarrow> None
           | Some i \<Rightarrow>
               (case CreditLine_draw now' (lm_lines m ! i) amount of
                  (line, Err e) \<Rightarrow> Some (m\<lparr>lm_lines := (lm_lines m)[i := line]\<rparr>, Err e)
                | (line, Ok remaining) \<Rightarrow>
                    Some (m\<lparr>lm_lines := (lm_lines m)[i := line]\<rparr>, Ok (line_id, remaining)))))"

definition CreditLineManager_lines_from_provider :: "CreditLineManager \<Rightarrow> string \<Rightarrow> CreditLine list" where
  "CreditLineManager_lines_from_provider m provider = filter (\<lambda>l. cr_provider l = provider) (lm_lines m)"

definition CreditLineManager_weighted_avg_rate_bps :: "CreditLineManager \<Rightarrow> u32 option" where
  "CreditLineManager_weighted_avg_rate_bps m =
     (let active_lines = filter (\<lambda>l. cr_status l = Active) (lm_lines m) in
      if active_lines = [] then None
      else
        let total_limit = sum_list (map cr_limit active_lines) in
        if total_limit = 0 then None
        else
          let weighted_sum = sum_list (map (\<lambda>l. cr_limit l * ucast (cr_interest_rate_bps l)) active_lines)
          in Some (ucast (weighted_sum div total_limit)))"

section \<open>The ledger of a line\<close>

text \<open>\<open>credit_trace l d r l'\<close>: calls lead from \<open>l\<close> to \<open>l'\<close>, with \<open>d\<close> drawn and \<open>r\<close> repaid on the way.\<close>

inductive credit_trace :: "CreditLine \<Rightarrow> nat \<Rightarrow> nat \<Rightarrow> CreditLine \<Rightarrow> bool" where
  start: "credit_trace l 0 0 l"
| draw: "credit_trace l d r l1 \<Longrightarrow> CreditLine_draw now l1 amount = (l2, res) \<Longrightarrow>
    credit_trace l (d + (if is_ok res then unat amount else 0)) r l2"
| repay: "credit_trace l d r l1 \<Longrightarrow> CreditLine_repay l1 amount = (l2, res) \<Longrightarrow>
    credit_trace l d (r + (if is_ok res then unat amount else 0)) l2"
| freeze: "credit_trace l d r l1 \<Longrightarrow> CreditLine_freeze l1 = (l2, res') \<Longrightarrow> credit_trace l d r l2"
| unfreeze: "credit_trace l d r l1 \<Longrightarrow> CreditLine_unfreeze l1 = (l2, res') \<Longrightarrow> credit_trace l d r l2"
| close: "credit_trace l d r l1 \<Longrightarrow> CreditLine_close l1 = (l2, res') \<Longrightarrow> credit_trace l d r l2"
| default_line: "credit_trace l d r l1 \<Longrightarrow> CreditLine_default_line l1 = (l2, res') \<Longrightarrow> credit_trace l d r l2"

lemmas line_status_ops = CreditLine_freeze_def CreditLine_unfreeze_def CreditLine_close_def CreditLine_default_line_def

text \<open>The terms of a line: everything but the used amount and the status.\<close>

definition same_terms :: "CreditLine \<Rightarrow> CreditLine \<Rightarrow> bool" where
  "same_terms l l' \<longleftrightarrow> l' = l\<lparr>cr_used := cr_used l', cr_status := cr_status l'\<rparr>"

text \<open>Closed lines stay closed, defaulted ones can only be closed.\<close>

fun status_follows :: "CreditLineStatus \<Rightarrow> CreditLineStatus \<Rightarrow> bool" where
  "status_follows Closed s = (s = Closed)"
| "status_follows Defaulted s = is_terminal s"
| "status_follows _ s = True"

lemma same_terms_update [simp]:
  "same_terms l l1 \<Longrightarrow> same_terms l (l1\<lparr>cr_used := u\<rparr>)" "same_terms l l1 \<Longrightarrow> same_terms l (l1\<lparr>cr_status := s\<rparr>)"
  "same_terms l l"
  unfolding same_terms_def by (cases l; cases l1; simp)+

lemma same_terms_limit: "same_terms l l1 \<Longrightarrow> cr_limit l1 = cr_limit l"
  unfolding same_terms_def by (cases l; cases l1; simp)

lemma status_follows_refl [simp]: "status_follows s s"
  by (cases s) auto

lemma status_follows_terminal:
  "status_follows s t \<Longrightarrow> \<not> is_terminal t \<Longrightarrow> status_follows s t'"
  "status_follows s t \<Longrightarrow> status_follows s Closed"
  by (cases s; cases t; simp)+

lemma status_follows_Frozen: "status_follows s Frozen \<Longrightarrow> status_follows s t"
  by (cases s) simp_all

lemma draw_cases:
  assumes "CreditLine_draw now l amount = (l', res)"
  obtains (err) e where "res = Err e" "l' = l"
  | (ok) "allows_draws (cr_status l)" "\<not> CreditLine_is_expired now l" "amount \<le> CreditLine_available l"
      "l' = l\<lparr>cr_used := cr_used l + amount\<rparr>" "res = Ok (CreditLine_available l')"
  using assms by (auto simp: CreditLine_draw_def Let_def not_less split: if_splits)

lemma repay_cases:
  assumes "CreditLine_repay l amount = (l', res)"
  obtains (err) e where "res = Err e" "l' = l"
  | (ok) "cr_status l \<noteq> Closed" "amount \<le> cr_used l" "l' = l\<lparr>cr_used := cr_used l - amount\<rparr>" "res = Ok (cr_used l')"
  using assms by (auto simp: CreditLine_repay_def Let_def not_less split: if_splits)

lemma draw_used:
  assumes "cr_used l \<le> cr_limit l" "amount \<le> CreditLine_available l" "allows_draws (cr_status l)"
  shows "unat (cr_used l + amount) = unat (cr_used l) + unat amount" "cr_used l + amount \<le> cr_limit l"
proof -
  have "unat amount \<le> unat (cr_limit l) - unat (cr_used l)"
    using assms(2,3) by (simp add: CreditLine_available_def word_le_nat_alt unat_simps)
  then have le: "unat (cr_used l) + unat amount \<le> unat (cr_limit l)"
    using assms(1) by (simp add: word_le_nat_alt)
  then show sum: "unat (cr_used l + amount) = unat (cr_used l) + unat amount"
    using unat_less_64 [of "cr_limit l"] by (intro unat_plus_no_overflow) simp
  then show "cr_used l + amount \<le> cr_limit l" using le by (simp add: word_le_nat_alt)
qed

lemma credit_trace_ledger:
  assumes "credit_trace l d r l'" and "cr_used l \<le> cr_limit l"
  shows "unat (cr_used l') + r = unat (cr_used l) + d \<and> cr_used l' \<le> cr_limit l' \<and> same_terms l l' \<and>
    status_follows (cr_status l) (cr_status l')"
  using assms
proof (induction rule: credit_trace.induct)
  case (draw l d r l1 now amount l2 res)
  note IH = draw.IH [OF draw.prems]
  from draw.hyps(2) show ?case
  proof (cases rule: draw_cases)
    case ok
    then show ?thesis using IH draw_used [of l1 amount] by simp
  qed (use IH in simp)
next
  case (repay l d r l1 amount l2 res)
  note IH = repay.IH [OF repay.prems]
  from repay.hyps(2) show ?case
  proof (cases rule: repay_cases)
    case ok
    then have "unat (cr_used l1 - amount) = unat (cr_used l1) - unat amount" by (simp add: unat_minus_le)
    then show ?thesis using IH ok by (auto simp: word_le_nat_alt)
  qed (use IH in simp)
qed (auto simp: line_status_ops status_follows_terminal dest: status_follows_Frozen split: if_splits)

lemma closed_trace: "credit_trace l d r l' \<Longrightarrow> cr_status l = Closed \<Longrightarrow> l' = l \<and> d = 0 \<and> r = 0"
  by (induction rule: credit_trace.induct)
    (auto simp: line_status_ops CreditLine_draw_def CreditLine_repay_def)

lemma defaulted_trace: "credit_trace l d r l' \<Longrightarrow> cr_status l = Defaulted \<Longrightarrow> is_terminal (cr_status l') \<and> d = 0"
proof (induction rule: credit_trace.induct)
  case (draw l d r l1 now amount l2 res)
  then have "\<not> allows_draws (cr_status l1)" by (cases "cr_status l1") auto
  then show ?case using draw by (simp add: CreditLine_draw_def) auto
qed (auto simp: line_status_ops CreditLine_repay_def Let_def split: if_splits)

text \<open>Closing does not look at the outstanding amount, and a closed line takes no repayment.\<close>

lemma closed_debt_unpayable:
  assumes "cr_status l \<noteq> Closed"
  shows "CreditLine_close l = (l\<lparr>cr_status := Closed\<rparr>, Ok ())"
    and "CreditLine_repay (l\<lparr>cr_status := Closed\<rparr>) amount = (l\<lparr>cr_status := Closed\<rparr>, Err (AlreadyClosed (cr_id l)))"
  using assms by (simp_all add: CreditLine_close_def CreditLine_repay_def)

section \<open>Choosing a line\<close>

lemma position_SomeD: "position P xs = Some i \<Longrightarrow> i < length xs \<and> P (xs ! i)"
  by (induction xs arbitrary: i) (auto split: if_splits)

lemma position_unique:
  assumes "i < length xs" "P (xs ! i)" "\<And>j. j < length xs \<Longrightarrow> P (xs ! j) \<Longrightarrow> j = i"
  shows "position P xs = Some i"
proof -
  have "position P xs \<noteq> None" using assms(1,2) by (induction xs arbitrary: i) (auto simp: nth_Cons split: nat.splits)
  then obtain j where "position P xs = Some j" by blast
  with position_SomeD [OF this] assms(3) show ?thesis by simp
qed

lemma foldl_min:
  assumes "\<And>x y. le x y \<or> le y x" and "\<And>x y z. le x y \<Longrightarrow> le y z \<Longrightarrow> le x z"
  shows "let m = foldl (\<lambda>a b. if le a b then a else b) x xs in m \<in> set (x # xs) \<and> (\<forall>y\<in>set (x # xs). le m y)"
proof (induction xs arbitrary: x)
  case Nil
  then show ?case using assms(1) [of x x] by simp
next
  case (Cons a xs)
  let ?z = "if le x a then x else a"
  have z: "le ?z x" "le ?z a" using assms(1) [of x a] assms(1) [of x x] assms(1) [of a a] by auto
  let ?m = "foldl (\<lambda>a b. if le a b then a else b) ?z xs"
  have m: "?m \<in> set (?z # xs)" "le ?m ?z" "\<forall>y\<in>set xs. le ?m y" using Cons [of ?z] by (simp_all add: Let_def)
  have "le ?m x" "le ?m a" using assms(2) [OF m(2) z(1)] assms(2) [OF m(2) z(2)] .
  moreover have "?m \<in> set (x # a # xs)" using m(1) by (cases "le x a") auto
  ultimately show ?case using m(3) by (simp add: Let_def)
qed

lemma line_le_linear: "line_le a b \<or> line_le b a"
  unfolding line_le_def by (metis linorder_cases linorder_linear)

lemma line_le_trans:
  assumes "line_le a b" "line_le b c"
  shows "line_le a c"
proof -
  have "cr_interest_rate_bps a < cr_interest_rate_bps c \<or> cr_interest_rate_bps a = cr_interest_rate_bps b \<and>
      cr_interest_rate_bps b = cr_interest_rate_bps c"
    using assms unfolding line_le_def by (auto intro: order.strict_trans)
  then show ?thesis using assms unfolding line_le_def by (auto intro: order.trans)
qed

lemma min_by_line_le:
  assumes "min_by line_le xs = Some l"
  shows "l \<in> set xs \<and> (\<forall>y\<in>set xs. line_le l y)"
proof (cases xs)
  case (Cons x ys)
  then have "l = foldl (\<lambda>a b. if line_le a b then a else b) x ys" using assms by simp
  with foldl_min [of line_le x ys, OF line_le_linear line_le_trans] show ?thesis
    unfolding Cons Let_def by simp
qed (use assms in simp)

lemma min_by_None: "min_by le xs = None \<longleftrightarrow> xs = []"
  by (cases xs) auto

lemma draw_available:
  assumes "allows_draws (cr_status l)" "cr_used l \<le> cr_limit l" "amount \<le> CreditLine_available l"
  shows "CreditLine_available (l\<lparr>cr_used := cr_used l + amount\<rparr>) = CreditLine_available l - amount"
  using draw_used [OF assms(2,3,1)] assms(1,2) by (simp add: CreditLine_available_def saturating_sub_def)

text \<open>Lines an amount can be drawn from.\<close>

definition eligible :: "datetime \<Rightarrow> u64 \<Rightarrow> CreditLine \<Rightarrow> bool" where
  "eligible now amount l \<longleftrightarrow>
     allows_draws (cr_status l) \<and> \<not> CreditLine_is_expired now l \<and> amount \<le> CreditLine_available l"

section \<open>Properties\<close>


text \<open>
  The manager draws on a cheapest line: with distinct IDs, \<open>draw_best_available\<close> fails exactly if
  no line is eligible (or the chosen one expires between the two readings of the clock), and
  otherwise draws the amount on an eligible line of least rate and, among those, most available
  credit; no other line changes and nothing panics.
\<close>
lemma draw_best_is_cheapest:
  assumes "distinct (map cr_id (lm_lines m))" and "\<forall>l\<in>set (lm_lines m). cr_used l \<le> cr_limit l"
  shows "if \<forall>l\<in>set (lm_lines m). \<not> eligible now amount l
    then CreditLineManager_draw_best_available now now' m amount = Some (m, Err (NoEligibleLine amount))
    else \<exists>i < length (lm_lines m). let l = lm_lines m ! i in eligible now amount l \<and>
      (\<forall>x\<in>set (lm_lines m). eligible now amount x \<longrightarrow> cr_interest_rate_bps l < cr_interest_rate_bps x \<or>
         cr_interest_rate_bps l = cr_interest_rate_bps x \<and> CreditLine_available x \<le> CreditLine_available l) \<and>
      CreditLineManager_draw_best_available now now' m amount =
        (if CreditLine_is_expired now' l then Some (m, Err (Expired (cr_id l) (cr_expires_at l)))
         else Some (m\<lparr>lm_lines := (lm_lines m)[i := l\<lparr>cr_used := cr_used l + amount\<rparr>]\<rparr>,
                    Ok (cr_id l, CreditLine_available l - amount)))"
proof (cases "\<forall>l\<in>set (lm_lines m). \<not> eligible now amount l")
  case True
  then have "CreditLineManager_best_available_line now m amount = None"
    by (auto simp: CreditLineManager_best_available_line_def min_by_None filter_empty_conv eligible_def)
  then show ?thesis using True by (simp add: CreditLineManager_draw_best_available_def)
next
  case False
  then obtain l where best: "CreditLineManager_best_available_line now m amount = Some l"
    by (cases "CreditLineManager_best_available_line now m amount")
      (auto simp: CreditLineManager_best_available_line_def min_by_None filter_empty_conv eligible_def)
  have l: "l \<in> set (lm_lines m)" "eligible now amount l" "\<forall>x\<in>set (lm_lines m). eligible now amount x \<longrightarrow> line_le l x"
    using min_by_line_le [OF best [unfolded CreditLineManager_best_available_line_def]] by (auto simp: eligible_def)
  then obtain i where i: "i < length (lm_lines m)" "lm_lines m ! i = l" by (auto simp: in_set_conv_nth)
  have pos: "CreditLineManager_get_line_mut m (cr_id l) = Some i"
    unfolding CreditLineManager_get_line_mut_def
    using i assms(1) by (intro position_unique) (auto simp: distinct_conv_nth)
  have same: "(lm_lines m)[i := l] = lm_lines m" using i by (metis list_update_id)
  have "CreditLine_draw now' l amount = (if CreditLine_is_expired now' l then (l, Err (Expired (cr_id l) (cr_expires_at l)))
      else (l\<lparr>cr_used := cr_used l + amount\<rparr>, Ok (CreditLine_available l - amount)))"
    using l(1,2) assms(2) draw_available [of l amount]
    by (auto simp: CreditLine_draw_def Let_def eligible_def dest: leD)
  then have "CreditLineManager_draw_best_available now now' m amount =
        (if CreditLine_is_expired now' l then Some (m, Err (Expired (cr_id l) (cr_expires_at l)))
         else Some (m\<lparr>lm_lines := (lm_lines m)[i := l\<lparr>cr_used := cr_used l + amount\<rparr>]\<rparr>,
                    Ok (cr_id l, CreditLine_available l - amount)))"
    by (simp add: CreditLineManager_draw_best_available_def best pos i(2) same)
  then show ?thesis using False i l by (auto simp: Let_def line_le_def)
qed

section \<open>Witnesses\<close>

definition demo_line :: "string \<Rightarrow> u32 \<Rightarrow> CreditLine" where
  "demo_line i rate = the (CreditLine_new (\<lambda>t d. Some (t + 86400 * d)) i 0 ''bank'' ''ann'' 1000 rate 30)"


text \<open>The weighted sum wraps: one line with a rate of two basis points has the average zero.\<close>

lemma weighted_avg_wraps:
  "CreditLineManager_weighted_avg_rate_bps \<lparr>lm_lines = [(demo_line ''a'' 2)\<lparr>cr_limit := 2 ^ 63\<rparr>]\<rparr> = Some 0"
  by (simp add: CreditLineManager_weighted_avg_rate_bps_def demo_line_def CreditLine_new_def Let_def)

end
