(* ===== verification/Vault.thy ===== *)
theory Vault
  imports Transactions Rust_Collections
begin

text \<open>
  The vault: token standard (\<open>protocol/src/vault/token.rs\<close>), balance sheets (\<open>balance.rs\<close>) and wallets
  (\<open>wallet.rs\<close>). Names that the token contract also uses carry the suffix \<open>_vault\<close>. The clock is an
  argument wherever it is read; the timestamp text of \<open>to_rfc3339\<close> is an argument of \<open>freeze\<close>.
  The lemmas show what a token ID commits to, the hex form of balance maps, and the ledger of a wallet.
\<close>

section \<open>Token identifiers\<close>

type_synonym TokenId_vault = bytes

datatype FromHexError = HexError string | InvalidStringLength

definition TokenId_to_hex :: "crypto \<Rightarrow> TokenId_vault \<Rightarrow> string" where
  "TokenId_to_hex C t = c_hex_encode C t"

definition TokenId_from_hex :: "crypto \<Rightarrow> string \<Rightarrow> (TokenId_vault, FromHexError) result" where
  "TokenId_from_hex C s =
     (case c_hex_decode C s of
        Err e \<Rightarrow> Err (HexError e)
      | Ok bs \<Rightarrow> if length bs \<noteq> 32 then Err InvalidStringLength else Ok bs)"

datatype TokenType_vault =
    FiatBacked Currency
  | Crypto Currency
  | Stablecoin Currency
  | Native
  | LoyaltyPoints
  | Asset string

fun TokenType_discriminant :: "TokenType_vault \<Rightarrow> u8" where
  "TokenType_discriminant (FiatBacked _) = 1"
| "TokenType_discriminant (Crypto _) = 2"
| "TokenType_discriminant (Stablecoin _) = 3"
| "TokenType_discriminant Native = 4"
| "TokenType_discriminant LoyaltyPoints = 5"
| "TokenType_discriminant (Asset _) = 6"

fun TokenType_vault_fmt :: "TokenType_vault \<Rightarrow> string" where
  "TokenType_vault_fmt (FiatBacked c) = ''FiatBacked('' @ Currency_fmt c @ '')''"
| "TokenType_vault_fmt (Crypto c) = ''Crypto('' @ Currency_fmt c @ '')''"
| "TokenType_vault_fmt (Stablecoin c) = ''Stablecoin('' @ Currency_fmt c @ '')''"
| "TokenType_vault_fmt Native = ''Native''"
| "TokenType_vault_fmt LoyaltyPoints = ''LoyaltyPoints''"
| "TokenType_vault_fmt (Asset class) = ''Asset('' @ class @ '')''"

definition token_preimage :: "string \<Rightarrow> string \<Rightarrow> TokenType_vault \<Rightarrow> string \<Rightarrow> bytes" where
  "token_preimage name symbol token_type issuer =
     as_bytes name @ 0 # as_bytes symbol @ 0 # TokenType_discriminant token_type # 0 # as_bytes issuer"

definition TokenId_derive :: "crypto \<Rightarrow> string \<Rightarrow> string \<Rightarrow> TokenType_vault \<Rightarrow> string \<Rightarrow> TokenId_vault" where
  "TokenId_derive C name symbol token_type issuer = blake3_hash C (token_preimage name symbol token_type issuer)"

text \<open>The map helper of serde, on the entries of the JSON object.\<close>

definition token_id_map_serialize :: "crypto \<Rightarrow> (TokenId_vault, 'v) HashMap \<Rightarrow> (string \<times> 'v) list" where
  "token_id_map_serialize C m = map (\<lambda>(k, v). (TokenId_to_hex C k, v)) (hm_iter m)"

fun token_id_map_deserialize ::
  "crypto \<Rightarrow> (string \<times> 'v) list \<Rightarrow> (TokenId_vault, 'v) HashMap \<Rightarrow> ((TokenId_vault, 'v) HashMap, FromHexError) result" where
  "token_id_map_deserialize C [] m = Ok m"
| "token_id_map_deserialize C ((k, v) # kvs) m =
     (case TokenId_from_hex C k of
        Err e \<Rightarrow> Err e
      | Ok i \<Rightarrow> token_id_map_deserialize C kvs (hm_insert m i v))"

section \<open>Tokens\<close>

record TokenInfo_vault =
  tv_id :: TokenId_vault
  tv_name :: string
  tv_symbol :: string
  tv_decimals :: u8
  tv_total_supply :: u64
  tv_issuer :: string
  tv_token_type :: TokenType_vault

definition Token_create :: "crypto \<Rightarrow> string \<Rightarrow> string \<Rightarrow> u8 \<Rightarrow> TokenType_vault \<Rightarrow> string \<Rightarrow> TokenInfo_vault" where
  "Token_create C name symbol decimals token_type issuer =
     \<lparr>tv_id = TokenId_derive C name symbol token_type issuer, tv_name = name, tv_symbol = symbol,
      tv_decimals = decimals, tv_total_supply = 0, tv_issuer = issuer, tv_token_type = token_type\<rparr>"

definition Token_new_with_supply ::
  "crypto \<Rightarrow> string \<Rightarrow> string \<Rightarrow> u8 \<Rightarrow> TokenType_vault \<Rightarrow> string \<Rightarrow> u64 \<Rightarrow> TokenInfo_vault" where
  "Token_new_with_supply C name symbol decimals token_type issuer initial_supply =
     (Token_create C name symbol decimals token_type issuer)\<lparr>tv_total_supply := initial_supply\<rparr>"

definition SYSTEM_ISSUER :: string where
  "SYSTEM_ISSUER = ''nova:'' @ replicate 64 CHR ''0''"

definition nova_brl :: "crypto \<Rightarrow> TokenInfo_vault" where
  "nova_brl C = Token_create C ''NOVA Brazilian Real'' ''nBRL'' 2 (FiatBacked BRL) SYSTEM_ISSUER"

definition nova_usd :: "crypto \<Rightarrow> TokenInfo_vault" where
  "nova_usd C = Token_create C ''NOVA US Dollar'' ''nUSD'' 2 (FiatBacked USD) SYSTEM_ISSUER"

definition nova_eur :: "crypto \<Rightarrow> TokenInfo_vault" where
  "nova_eur C = Token_create C ''NOVA Euro'' ''nEUR'' 2 (FiatBacked EUR) SYSTEM_ISSUER"

definition nova_btc :: "crypto \<Rightarrow> TokenInfo_vault" where
  "nova_btc C = Token_create C ''NOVA Bitcoin'' ''nBTC'' 8 (Crypto BTC) SYSTEM_ISSUER"

definition nova_eth :: "crypto \<Rightarrow> TokenInfo_vault" where
  "nova_eth C = Token_create C ''NOVA Ether'' ''nETH'' 18 (Crypto ETH) SYSTEM_ISSUER"

definition nova_usdc :: "crypto \<Rightarrow> TokenInfo_vault" where
  "nova_usdc C = Token_create C ''NOVA USDC'' ''nUSDC'' 6 (Stablecoin USDC) SYSTEM_ISSUER"

definition nova_usdt :: "crypto \<Rightarrow> TokenInfo_vault" where
  "nova_usdt C = Token_create C ''NOVA USDT'' ''nUSDT'' 6 (Stablecoin (Custom ''USDT'')) SYSTEM_ISSUER"

definition nova_native :: "crypto \<Rightarrow> TokenInfo_vault" where
  "nova_native C = Token_new_with_supply C ''NOVA'' ''NOVA'' 8 Native SYSTEM_ISSUER 100000000000000000"

definition native_token_id :: "crypto \<Rightarrow> TokenId_vault" where
  "native_token_id C = tv_id (nova_native C)"

definition brl_token_id :: "crypto \<Rightarrow> TokenId_vault" where
  "brl_token_id C = tv_id (nova_brl C)"

definition usd_token_id :: "crypto \<Rightarrow> TokenId_vault" where
  "usd_token_id C = tv_id (nova_usd C)"

section \<open>Balance sheets\<close>

datatype BalanceError =
    InsufficientBalance TokenId_vault u64 u64
  | BalanceOverflow TokenId_vault u64 u64
  | TokenNotFound TokenId_vault

record Balance =
  bal_token_id :: TokenId_vault
  bal_amount :: u64
  bal_committed_amount :: bytes
  bal_last_updated :: datetime

definition Balance_new :: "datetime \<Rightarrow> TokenId_vault \<Rightarrow> Balance" where
  "Balance_new now token_id =
     \<lparr>bal_token_id = token_id, bal_amount = 0, bal_committed_amount = [], bal_last_updated = now\<rparr>"

definition Balance_with_amount :: "datetime \<Rightarrow> TokenId_vault \<Rightarrow> u64 \<Rightarrow> bytes \<Rightarrow> Balance" where
  "Balance_with_amount now token_id amount commitment_bytes =
     \<lparr>bal_token_id = token_id, bal_amount = amount, bal_committed_amount = commitment_bytes, bal_last_updated = now\<rparr>"

definition Balance_is_zero :: "Balance \<Rightarrow> bool" where
  "Balance_is_zero b \<longleftrightarrow> bal_amount b = 0"

record BalanceSheet =
  bs_balances :: "(TokenId_vault, Balance) HashMap"

definition BalanceSheet_new :: BalanceSheet where
  "BalanceSheet_new = \<lparr>bs_balances = hm_new\<rparr>"

text \<open>The entry is created first, with the clock value \<open>now0\<close>, and then updated at \<open>now\<close>.\<close>

definition BalanceSheet_credit ::
  "datetime \<Rightarrow> datetime \<Rightarrow> BalanceSheet \<Rightarrow> TokenId_vault \<Rightarrow> u64 \<Rightarrow> bytes \<Rightarrow> BalanceSheet \<times> (u64, BalanceError) result" where
  "BalanceSheet_credit now0 now s token_id amount commitment_bytes =
     (let balance = (case hm_get (bs_balances s) token_id of Some b \<Rightarrow> b | None \<Rightarrow> Balance_new now0 token_id);
          s = s\<lparr>bs_balances := hm_insert (bs_balances s) token_id balance\<rparr>
      in case checked_add (bal_amount balance) amount of
           None \<Rightarrow> (s, Err (BalanceOverflow token_id (bal_amount balance) amount))
         | Some new_amount \<Rightarrow>
             (s\<lparr>bs_balances := hm_insert (bs_balances s) token_id (balance\<lparr>bal_amount := new_amount,
                  bal_committed_amount := commitment_bytes, bal_last_updated := now\<rparr>)\<rparr>, Ok new_amount))"

definition BalanceSheet_debit ::
  "datetime \<Rightarrow> BalanceSheet \<Rightarrow> TokenId_vault \<Rightarrow> u64 \<Rightarrow> bytes \<Rightarrow> BalanceSheet \<times> (u64, BalanceError) result" where
  "BalanceSheet_debit now s token_id amount new_commitment_bytes =
     (case hm_get (bs_balances s) token_id of
        None \<Rightarrow> (s, Err (TokenNotFound token_id))
      | Some balance \<Rightarrow>
          if bal_amount balance < amount then (s, Err (InsufficientBalance token_id (bal_amount balance) amount))
          else
            let balance = balance\<lparr>bal_amount := bal_amount balance - amount,
                  bal_committed_amount := new_commitment_bytes, bal_last_updated := now\<rparr>
            in (s\<lparr>bs_balances := hm_insert (bs_balances s) token_id balance\<rparr>, Ok (bal_amount balance)))"

definition BalanceSheet_get_balance :: "BalanceSheet \<Rightarrow> TokenId_vault \<Rightarrow> u64 option" where
  "BalanceSheet_get_balance s token_id = map_option bal_amount (hm_get (bs_balances s) token_id)"

definition BalanceSheet_get_balance_record :: "BalanceSheet \<Rightarrow> TokenId_vault \<Rightarrow> Balance option" where
  "BalanceSheet_get_balance_record s token_id = hm_get (bs_balances s) token_id"

definition BalanceSheet_all_balances :: "BalanceSheet \<Rightarrow> (TokenId_vault \<times> u64) list" where
  "BalanceSheet_all_balances s =
     map (\<lambda>(i, b). (i, bal_amount b)) (filter (\<lambda>(_, b). \<not> Balance_is_zero b) (hm_iter (bs_balances s)))"

definition BalanceSheet_token_count :: "BalanceSheet \<Rightarrow> nat" where
  "BalanceSheet_token_count s = length (hm_iter (bs_balances s))"

definition BalanceSheet_is_empty :: "BalanceSheet \<Rightarrow> bool" where
  "BalanceSheet_is_empty s \<longleftrightarrow> hm_iter (bs_balances s) = []"

definition BalanceSheet_total_value_in :: "BalanceSheet \<Rightarrow> Currency \<Rightarrow> u64 option" where
  "BalanceSheet_total_value_in s target_currency = None"

definition BalanceSheet_remove_token :: "BalanceSheet \<Rightarrow> TokenId_vault \<Rightarrow> BalanceSheet \<times> Balance option" where
  "BalanceSheet_remove_token s token_id =
     (s\<lparr>bs_balances := hm_remove (bs_balances s) token_id\<rparr>, hm_get (bs_balances s) token_id)"

section \<open>Wallets\<close>

datatype WalletError = WalletBalance BalanceError | ZeroAmount | WalletFrozen string

record Wallet =
  wa_owner :: string
  wa_balances :: BalanceSheet
  wa_nonce :: u64
  wa_created_at :: datetime
  wa_metadata :: "(string, string) HashMap"
  wa_frozen :: bool

record TransferReceipt =
  tr_token_id :: TokenId_vault
  tr_amount :: u64
  tr_remaining_balance :: u64
  tr_nonce :: u64
  tr_timestamp :: datetime

definition Wallet_new :: "datetime \<Rightarrow> string \<Rightarrow> Wallet" where
  "Wallet_new now owner_address =
     \<lparr>wa_owner = owner_address, wa_balances = BalanceSheet_new, wa_nonce = 0, wa_created_at = now,
      wa_metadata = hm_new, wa_frozen = False\<rparr>"

definition Wallet_next_nonce :: "Wallet \<Rightarrow> Wallet \<times> u64" where
  "Wallet_next_nonce w = (let w = w\<lparr>wa_nonce := wa_nonce w + 1\<rparr> in (w, wa_nonce w))"

definition placeholder_commitment :: "crypto \<Rightarrow> TokenId_vault \<Rightarrow> u64 \<Rightarrow> bytes" where
  "placeholder_commitment C token_id amount = blake3_hash C (token_id @ u64_to_le_bytes amount)"

definition check_outgoing :: "Wallet \<Rightarrow> (unit, WalletError) result" where
  "check_outgoing w =
     (if wa_frozen w
      then Err (WalletFrozen (case hm_get (wa_metadata w) ''freeze_reason'' of
             Some reason \<Rightarrow> reason | None \<Rightarrow> ''no reason provided''))
      else Ok ())"

definition Wallet_deposit ::
  "crypto \<Rightarrow> datetime \<Rightarrow> datetime \<Rightarrow> Wallet \<Rightarrow> TokenId_vault \<Rightarrow> u64 \<Rightarrow> Wallet \<times> (u64, WalletError) result" where
  "Wallet_deposit C now0 now w token_id amount =
     (if amount = 0 then (w, Err ZeroAmount)
      else
        let commitment_bytes = placeholder_commitment C token_id amount in
        (case BalanceSheet_credit now0 now (wa_balances w) token_id amount commitment_bytes of
           (s, Err e) \<Rightarrow> (w\<lparr>wa_balances := s\<rparr>, Err (WalletBalance e))
         | (s, Ok new_balance) \<Rightarrow> (w\<lparr>wa_balances := s\<rparr>, Ok new_balance)))"

definition Wallet_withdraw ::
  "crypto \<Rightarrow> datetime \<Rightarrow> Wallet \<Rightarrow> TokenId_vault \<Rightarrow> u64 \<Rightarrow> Wallet \<times> (u64 \<times> u64, WalletError) result" where
  "Wallet_withdraw C now w token_id amount =
     (case check_outgoing w of
        Err e \<Rightarrow> (w, Err e)
      | Ok _ \<Rightarrow>
          if amount = 0 then (w, Err ZeroAmount)
          else
            let commitment_bytes = placeholder_commitment C token_id amount in
            (case BalanceSheet_debit now (wa_balances w) token_id amount commitment_bytes of
               (s, Err e) \<Rightarrow> (w\<lparr>wa_balances := s\<rparr>, Err (WalletBalance e))
             | (s, Ok remaining) \<Rightarrow>
                 let (w, nonce) = Wallet_next_nonce (w\<lparr>wa_balances := s\<rparr>) in (w, Ok (remaining, nonce))))"

definition Wallet_transfer_out ::
  "crypto \<Rightarrow> datetime \<Rightarrow> datetime \<Rightarrow> Wallet \<Rightarrow> TokenId_vault \<Rightarrow> u64 \<Rightarrow> Wallet \<times> (TransferReceipt, WalletError) result" where
  "Wallet_transfer_out C now now' w token_id amount =
     (case check_outgoing w of
        Err e \<Rightarrow> (w, Err e)
      | Ok _ \<Rightarrow>
          if amount = 0 then (w, Err ZeroAmount)
          else
            let commitment_bytes = placeholder_commitment C token_id amount in
            (case BalanceSheet_debit now (wa_balances w) token_id amount commitment_bytes of
               (s, Err e) \<Rightarrow> (w\<lparr>wa_balances := s\<rparr>, Err (WalletBalance e))
             | (s, Ok remaining) \<Rightarrow>
                 let (w, nonce) = Wallet_next_nonce (w\<lparr>wa_balances := s\<rparr>)
                 in (w, Ok \<lparr>tr_token_id = token_id, tr_amount = amount, tr_remaining_balance = remaining,
                           tr_nonce = nonce, tr_timestamp = now'\<rparr>)))"

definition Wallet_get_balance :: "Wallet \<Rightarrow> TokenId_vault \<Rightarrow> u64 option" where
  "Wallet_get_balance w token_id = BalanceSheet_get_balance (wa_balances w) token_id"

definition Wallet_get_all_balances :: "Wallet \<Rightarrow> (TokenId_vault \<times> u64) list" where
  "Wallet_get_all_balances w = BalanceSheet_all_balances (wa_balances w)"

definition Wallet_token_count :: "Wallet \<Rightarrow> nat" where
  "Wallet_token_count w = BalanceSheet_token_count (wa_balances w)"

definition Wallet_freeze :: "string \<Rightarrow> Wallet \<Rightarrow> string \<Rightarrow> Wallet" where
  "Wallet_freeze frozen_at w reason =
     w\<lparr>wa_frozen := True,
       wa_metadata := hm_insert (hm_insert (wa_metadata w) ''freeze_reason'' reason) ''frozen_at'' frozen_at\<rparr>"

definition Wallet_unfreeze :: "Wallet \<Rightarrow> Wallet" where
  "Wallet_unfreeze w =
     w\<lparr>wa_frozen := False,
       wa_metadata := hm_remove (hm_remove (wa_metadata w) ''freeze_reason'') ''frozen_at''\<rparr>"

section \<open>What a token ID commits to\<close>

lemma token_preimage_inj:
  assumes "nul_free name" "nul_free name'" "nul_free smb" "nul_free smb'"
  shows "token_preimage name smb ty iss = token_preimage name' smb' ty' iss' \<longleftrightarrow>
    name = name' \<and> smb = smb' \<and> TokenType_discriminant ty = TokenType_discriminant ty' \<and> iss = iss'"
  using assms by (auto simp: token_preimage_def nul_separated)

lemma TokenId_derive_binds:
  assumes "nul_free name" "nul_free name'" "nul_free smb" "nul_free smb'"
    and "inj_on (c_blake3 C) {token_preimage name smb ty iss, token_preimage name' smb' ty' iss'}"
    and "TokenId_derive C name smb ty iss = TokenId_derive C name' smb' ty' iss'"
  shows "name = name' \<and> smb = smb' \<and> TokenType_discriminant ty = TokenType_discriminant ty' \<and> iss = iss'"
proof -
  have "token_preimage name smb ty iss = token_preimage name' smb' ty' iss'"
    by (rule inj_onD [OF assms(5) assms(6) [unfolded TokenId_derive_def blake3_hash_def]]) simp_all
  then show ?thesis using token_preimage_inj [OF assms(1-4)] by simp
qed

text \<open>The currency behind a token is not part of its ID.\<close>

lemma derive_ignores_currency:
  "TokenId_derive C name smb (FiatBacked BRL) iss = TokenId_derive C name smb (FiatBacked USD) iss"
  by (simp add: TokenId_derive_def token_preimage_def)

lemma nova_eth_decimals: "tv_decimals (nova_eth C) = 18" "Currency_decimals ETH = 9"
  by (simp_all add: nova_eth_def Token_create_def)

lemma TokenId_hex_roundtrip: "crypto_ok C \<Longrightarrow> length t = 32 \<Longrightarrow> TokenId_from_hex C (TokenId_to_hex C t) = Ok t"
  by (simp add: TokenId_from_hex_def TokenId_to_hex_def crypto_okD)

lemma deserialize_fold:
  assumes "crypto_ok C"
  shows "\<forall>(k, v)\<in>set kvs. length k = 32 \<Longrightarrow>
    token_id_map_deserialize C (map (\<lambda>(k, v). (TokenId_to_hex C k, v)) kvs) m =
      Ok (fold (\<lambda>(k, v) m. hm_insert m k v) kvs m)"
  by (induction kvs arbitrary: m) (auto simp: TokenId_hex_roundtrip [OF assms])

lemma get_fold_insert:
  "distinct (map fst kvs) \<Longrightarrow> hm_get (fold (\<lambda>(k, v) m. hm_insert m k v) kvs m) k =
     (case map_of kvs k of Some v \<Rightarrow> Some v | None \<Rightarrow> hm_get m k)"
proof (induction kvs arbitrary: m)
  case (Cons kv kvs)
  then have "map_of kvs (fst kv) = None" by (simp add: map_of_eq_None_iff)
  then show ?case using Cons by (cases kv) (auto split: option.split)
qed simp

lemma token_id_map_roundtrip:
  assumes "crypto_ok C" "hm_invar m" "\<forall>(k, v)\<in>set (hm_iter m). length k = 32"
  shows "\<exists>m'. token_id_map_deserialize C (token_id_map_serialize C m) hm_new = Ok m' \<and> hm_get m' = hm_get m"
proof -
  let ?m = "fold (\<lambda>(k, v) m. hm_insert m k v) (hm_iter m) hm_new"
  have "hm_get ?m k = hm_get m k" for k
    using get_fold_insert [OF hm.distinct_iter [OF assms(2)], of hm_new k] hm.get_iter [OF assms(2), of k]
    by (simp split: option.split)
  then show ?thesis
    using deserialize_fold [OF assms(1,3), of hm_new] by (auto simp: token_id_map_serialize_def)
qed

section \<open>The ledger of a wallet\<close>

text \<open>
  \<open>wallet_trace w ins outs n w'\<close>: calls lead from \<open>w\<close> to \<open>w'\<close>; per token, \<open>ins\<close> was deposited and
  \<open>outs\<close> left with \<open>withdraw\<close> and \<open>transfer_out\<close>; the nonce was advanced \<open>n\<close> times. The metadata can
  be changed freely through \<open>metadata_mut\<close>.
\<close>

definition plus_at :: "TokenId_vault \<Rightarrow> nat \<Rightarrow> (TokenId_vault \<Rightarrow> nat) \<Rightarrow> TokenId_vault \<Rightarrow> nat" where
  "plus_at t k f = f(t := f t + k)"

inductive wallet_trace ::
  "crypto \<Rightarrow> Wallet \<Rightarrow> (TokenId_vault \<Rightarrow> nat) \<Rightarrow> (TokenId_vault \<Rightarrow> nat) \<Rightarrow> nat \<Rightarrow> Wallet \<Rightarrow> bool" for C w where
  start: "wallet_trace C w (\<lambda>_. 0) (\<lambda>_. 0) 0 w"
| deposit: "wallet_trace C w ins outs n w1 \<Longrightarrow> Wallet_deposit C now0 now w1 t amount = (w2, r) \<Longrightarrow>
    wallet_trace C w (if is_ok r then plus_at t (unat amount) ins else ins) outs n w2"
| withdraw: "wallet_trace C w ins outs n w1 \<Longrightarrow> Wallet_withdraw C now w1 t amount = (w2, r1) \<Longrightarrow>
    wallet_trace C w ins (if is_ok r1 then plus_at t (unat amount) outs else outs) (if is_ok r1 then n + 1 else n) w2"
| transfer_out: "wallet_trace C w ins outs n w1 \<Longrightarrow> Wallet_transfer_out C now now' w1 t amount = (w2, r2) \<Longrightarrow>
    wallet_trace C w ins (if is_ok r2 then plus_at t (unat amount) outs else outs) (if is_ok r2 then n + 1 else n) w2"
| next_nonce: "wallet_trace C w ins outs n w1 \<Longrightarrow> Wallet_next_nonce w1 = (w2, k) \<Longrightarrow> wallet_trace C w ins outs (n + 1) w2"
| freeze: "wallet_trace C w ins outs n w1 \<Longrightarrow> wallet_trace C w ins outs n (Wallet_freeze at w1 reason)"
| unfreeze: "wallet_trace C w ins outs n w1 \<Longrightarrow> wallet_trace C w ins outs n (Wallet_unfreeze w1)"
| metadata: "wallet_trace C w ins outs n w1 \<Longrightarrow> wallet_trace C w ins outs n (w1\<lparr>wa_metadata := md\<rparr>)"

text \<open>The amount held, zero if there is no entry, and the form of a sheet.\<close>

definition held :: "BalanceSheet \<Rightarrow> TokenId_vault \<Rightarrow> u64" where
  "held s t = (case BalanceSheet_get_balance s t of Some b \<Rightarrow> b | None \<Rightarrow> 0)"

definition sheet_wf :: "BalanceSheet \<Rightarrow> bool" where
  "sheet_wf s \<longleftrightarrow> hm_invar (bs_balances s) \<and> (\<forall>t b. hm_get (bs_balances s) t = Some b \<longrightarrow> bal_token_id b = t)"

lemma held_insert [simp]: "held (s\<lparr>bs_balances := hm_insert m t b\<rparr>) = (held (s\<lparr>bs_balances := m\<rparr>))(t := bal_amount b)"
  by (auto simp: held_def BalanceSheet_get_balance_def)

lemma sheet_wf_insert [simp]:
  "sheet_wf (s\<lparr>bs_balances := m\<rparr>) \<Longrightarrow> bal_token_id b = t \<Longrightarrow> sheet_wf (s\<lparr>bs_balances := hm_insert m t b\<rparr>)"
  by (auto simp: sheet_wf_def split: if_splits)

lemma sheet_entry:
  "sheet_wf s \<Longrightarrow> hm_get (bs_balances s) t = Some b \<Longrightarrow> bal_token_id b = t \<and> held s t = bal_amount b"
  "hm_get (bs_balances s) t = None \<Longrightarrow> held s t = 0"
  by (auto simp: sheet_wf_def held_def BalanceSheet_get_balance_def)

lemma credit_cases:
  assumes "BalanceSheet_credit now0 now s t amount cm = (s', r)" and "sheet_wf s"
  obtains (err) e where "r = Err e" "held s' = held s" "sheet_wf s'"
  | (ok) b where "r = Ok b" "unat b = unat (held s t) + unat amount" "held s' = (held s)(t := b)" "sheet_wf s'"
proof -
  define x where "x = (case hm_get (bs_balances s) t of Some b \<Rightarrow> b | None \<Rightarrow> Balance_new now0 t)"
  have x: "bal_token_id x = t" "bal_amount x = held s t"
    using sheet_entry [of s] assms(2) by (auto simp: x_def Balance_new_def split: option.split)
  show ?thesis
  proof (cases "checked_add (held s t) amount")
    case None
    then show ?thesis using assms x
      by (intro err [of "BalanceOverflow t (held s t) amount"])
        (auto simp: BalanceSheet_credit_def x_def [symmetric] Let_def)
  next
    case (Some b)
    then show ?thesis using assms x checked_add_SomeD [OF Some]
      by (intro ok [of b]) (auto simp: BalanceSheet_credit_def x_def [symmetric] Let_def)
  qed
qed

lemma debit_cases:
  assumes "BalanceSheet_debit now s t amount cm = (s', r)" and "sheet_wf s"
  obtains (err) e where "r = Err e" "s' = s"
  | (ok) b where "r = Ok b" "unat b + unat amount = unat (held s t)" "held s' = (held s)(t := b)" "sheet_wf s'"
proof (cases "hm_get (bs_balances s) t")
  case None
  then show ?thesis using assms(1) by (intro err) (auto simp: BalanceSheet_debit_def)
next
  case (Some x)
  have x: "bal_token_id x = t" "held s t = bal_amount x" using sheet_entry(1) [OF assms(2) Some] by simp_all
  show ?thesis
  proof (cases "bal_amount x < amount")
    case True
    then show ?thesis using assms(1) Some by (intro err) (auto simp: BalanceSheet_debit_def)
  next
    case False
    then have "unat (bal_amount x - amount) + unat amount = unat (bal_amount x)"
      by (simp add: not_less unat_minus_le word_le_nat_alt)
    then show ?thesis using False Some assms x
      by (intro ok [of "bal_amount x - amount"]) (auto simp: BalanceSheet_debit_def Let_def)
  qed
qed

text \<open>Both outgoing operations either fail without effect or debit and advance the nonce.\<close>

lemma outgoing_cases:
  assumes "BalanceSheet_debit now (wa_balances w) t amount cm = (s, r)" and "sheet_wf (wa_balances w)"
    and "w' = (if is_ok r then fst (Wallet_next_nonce (w\<lparr>wa_balances := s\<rparr>)) else w\<lparr>wa_balances := s\<rparr>)"
  shows "if is_ok r
    then unat (held (wa_balances w') t) + unat amount = unat (held (wa_balances w) t) \<and>
      (\<forall>t'. t' \<noteq> t \<longrightarrow> held (wa_balances w') t' = held (wa_balances w) t') \<and> sheet_wf (wa_balances w') \<and>
      w' = w\<lparr>wa_balances := wa_balances w', wa_nonce := wa_nonce w + 1\<rparr>
    else w' = w"
  using assms(1,2)
proof (cases rule: debit_cases)
  case (err e)
  then show ?thesis using assms(3) by simp
next
  case (ok b)
  then show ?thesis using assms(3) by (simp add: Wallet_next_nonce_def)
qed

lemma withdraw_effect:
  assumes "Wallet_withdraw C now w t amount = (w', r)" "sheet_wf (wa_balances w)"
  shows "if is_ok r
    then \<not> wa_frozen w \<and> unat (held (wa_balances w') t) + unat amount = unat (held (wa_balances w) t) \<and>
      (\<forall>t'. t' \<noteq> t \<longrightarrow> held (wa_balances w') t' = held (wa_balances w) t') \<and> sheet_wf (wa_balances w') \<and>
      w' = w\<lparr>wa_balances := wa_balances w', wa_nonce := wa_nonce w + 1\<rparr>
    else w' = w"
proof (cases "wa_frozen w \<or> amount = 0")
  case True
  then have "\<not> is_ok r \<and> w' = w"
    using assms(1) by (cases "wa_frozen w") (auto simp: Wallet_withdraw_def check_outgoing_def)
  then show ?thesis by simp
next
  case False
  obtain s q where d: "BalanceSheet_debit now (wa_balances w) t amount (placeholder_commitment C t amount) = (s, q)"
    by fastforce
  have w': "w' = (if is_ok q then fst (Wallet_next_nonce (w\<lparr>wa_balances := s\<rparr>)) else w\<lparr>wa_balances := s\<rparr>)" "is_ok r = is_ok q"
    using assms(1) False d by (cases q; auto simp: Wallet_withdraw_def check_outgoing_def Wallet_next_nonce_def Let_def)+
  show ?thesis using outgoing_cases [OF d assms(2) w'(1)] False unfolding w'(2) by argo
qed

text \<open>A transfer has the effect of a withdrawal.\<close>

lemma transfer_out_as_withdraw:
  assumes "Wallet_transfer_out C now now' w t amount = (w', r)"
  shows "\<exists>q. Wallet_withdraw C now w t amount = (w', q) \<and> is_ok q = is_ok r"
proof (cases "wa_frozen w \<or> amount = 0")
  case True
  then show ?thesis
    using assms by (cases "wa_frozen w") (auto simp: Wallet_transfer_out_def Wallet_withdraw_def check_outgoing_def)
next
  case False
  obtain s q where d: "BalanceSheet_debit now (wa_balances w) t amount (placeholder_commitment C t amount) = (s, q)"
    by fastforce
  show ?thesis using assms False d
    by (cases q) (auto simp: Wallet_transfer_out_def Wallet_withdraw_def check_outgoing_def Wallet_next_nonce_def Let_def)
qed

lemma deposit_effect:
  assumes "Wallet_deposit C now0 now w t amount = (w', r)" "sheet_wf (wa_balances w)"
  shows "sheet_wf (wa_balances w') \<and> w' = w\<lparr>wa_balances := wa_balances w'\<rparr> \<and>
    (if is_ok r then unat (held (wa_balances w') t) = unat (held (wa_balances w) t) + unat amount \<and>
       (\<forall>t'. t' \<noteq> t \<longrightarrow> held (wa_balances w') t' = held (wa_balances w) t')
     else held (wa_balances w') = held (wa_balances w))"
proof (cases "amount = 0")
  case True
  then show ?thesis using assms by (auto simp: Wallet_deposit_def)
next
  case False
  obtain s q where c: "BalanceSheet_credit now0 now (wa_balances w) t amount (placeholder_commitment C t amount) = (s, q)"
    by fastforce
  have w': "w' = w\<lparr>wa_balances := s\<rparr>" "is_ok r = is_ok q"
    using assms(1) False c by (auto simp: Wallet_deposit_def split: result.splits)
  from c assms(2) show ?thesis
    by (cases rule: credit_cases) (use w' in simp_all)
qed

definition wallet_books :: "Wallet \<Rightarrow> (TokenId_vault \<Rightarrow> nat) \<Rightarrow> (TokenId_vault \<Rightarrow> nat) \<Rightarrow> nat \<Rightarrow> Wallet \<Rightarrow> bool" where
  "wallet_books w ins outs n w' \<longleftrightarrow> sheet_wf (wa_balances w') \<and>
     (\<forall>t. unat (held (wa_balances w') t) + outs t = unat (held (wa_balances w) t) + ins t) \<and>
     wa_nonce w' = wa_nonce w + of_nat n \<and> wa_owner w' = wa_owner w \<and> wa_created_at w' = wa_created_at w"

lemma books_outgoing:
  assumes "wallet_books w ins outs n w1" and "Wallet_withdraw C now w1 t amount = (w2, r)"
  shows "wallet_books w ins (if is_ok r then plus_at t (unat amount) outs else outs) (if is_ok r then n + 1 else n) w2"
proof -
  have wf: "sheet_wf (wa_balances w1)" using assms(1) by (simp add: wallet_books_def)
  note eff = withdraw_effect [OF assms(2) wf]
  show ?thesis
  proof (cases "is_ok r")
    case True
    then have w2: "w2 = w1\<lparr>wa_balances := wa_balances w2, wa_nonce := wa_nonce w1 + 1\<rparr>" using eff by simp
    have "wa_nonce w2 = wa_nonce w1 + 1" "wa_owner w2 = wa_owner w1" "wa_created_at w2 = wa_created_at w1"
      by (subst w2, simp)+
    moreover have "unat (held (wa_balances w2) t') + plus_at t (unat amount) outs t' = unat (held (wa_balances w) t') + ins t'" for t'
    proof -
      have "unat (held (wa_balances w1) t') + outs t' = unat (held (wa_balances w) t') + ins t'"
        using assms(1) by (simp add: wallet_books_def)
      then show ?thesis using True eff by (cases "t' = t") (simp_all add: plus_at_def)
    qed
    ultimately show ?thesis using True eff assms(1) by (simp add: wallet_books_def)
  next
    case False
    then show ?thesis using eff assms(1) by simp
  qed
qed

lemma books_deposit:
  assumes "wallet_books w ins outs n w1" and "Wallet_deposit C now0 now w1 t amount = (w2, r)"
  shows "wallet_books w (if is_ok r then plus_at t (unat amount) ins else ins) outs n w2"
proof -
  have wf: "sheet_wf (wa_balances w1)" using assms(1) by (simp add: wallet_books_def)
  note eff = deposit_effect [OF assms(2) wf]
  then have w2: "w2 = w1\<lparr>wa_balances := wa_balances w2\<rparr>" by simp
  have "wa_nonce w2 = wa_nonce w1" "wa_owner w2 = wa_owner w1" "wa_created_at w2 = wa_created_at w1"
    by (subst w2, simp)+
  moreover have "unat (held (wa_balances w2) t') + outs t' = unat (held (wa_balances w) t') +
      (if is_ok r then plus_at t (unat amount) ins else ins) t'" for t'
  proof -
    have "unat (held (wa_balances w1) t') + outs t' = unat (held (wa_balances w) t') + ins t'"
      using assms(1) by (simp add: wallet_books_def)
    then show ?thesis using eff by (cases "t' = t") (simp_all add: plus_at_def)
  qed
  ultimately show ?thesis using eff assms(1) by (simp add: wallet_books_def)
qed

lemma wallet_trace_books:
  "wallet_trace C w ins outs n w' \<Longrightarrow> sheet_wf (wa_balances w) \<Longrightarrow> wallet_books w ins outs n w'"
proof (induction rule: wallet_trace.induct)
  case start
  then show ?case by (simp add: wallet_books_def)
next
  case (deposit ins outs n w1 now0 now t amount w2 r)
  then show ?case by (intro books_deposit)
next
  case (withdraw ins outs n w1 now t amount w2 r1)
  then show ?case by (intro books_outgoing)
next
  case (transfer_out ins outs n w1 now now' t amount w2 r2)
  obtain q where q: "Wallet_withdraw C now w1 t amount = (w2, q)" "is_ok q = is_ok r2"
    using transfer_out_as_withdraw [OF transfer_out.hyps(2)] by blast
  show ?case using books_outgoing [OF transfer_out.IH [OF transfer_out.prems] q(1)] unfolding q(2) .
next
  case (next_nonce ins outs n w1 w2 k)
  then show ?case by (auto simp: wallet_books_def Wallet_next_nonce_def Let_def)
qed (simp_all add: wallet_books_def Wallet_freeze_def Wallet_unfreeze_def)

lemma new_wallet: "sheet_wf (wa_balances (Wallet_new now owner))" "held (wa_balances (Wallet_new now owner)) = (\<lambda>_. 0)"
  by (auto simp: Wallet_new_def BalanceSheet_new_def sheet_wf_def held_def BalanceSheet_get_balance_def)

lemma set_all_balances:
  assumes "sheet_wf s"
  shows "set (BalanceSheet_all_balances s) = {(t, held s t) | t. held s t \<noteq> 0}"
proof -
  have "(t, b) \<in> set (hm_iter (bs_balances s)) \<longleftrightarrow> hm_get (bs_balances s) t = Some b" for t b
    using assms by (intro hm.mem_iter_iff) (simp add: sheet_wf_def)
  then show ?thesis
    by (fastforce simp: BalanceSheet_all_balances_def Balance_is_zero_def held_def BalanceSheet_get_balance_def
        split: option.splits)
qed

text \<open>The stored commitment is that of the amount moved, not of the balance.\<close>

lemma commitment_of_amount_moved:
  assumes "Wallet_deposit C now0 now w t amount = (w', Ok b)"
  shows "\<exists>r. BalanceSheet_get_balance_record (wa_balances w') t = Some r \<and> bal_amount r = b \<and>
    bal_committed_amount r = placeholder_commitment C t amount"
proof -
  obtain s q where c: "BalanceSheet_credit now0 now (wa_balances w) t amount (placeholder_commitment C t amount) = (s, q)"
    by fastforce
  have "wa_balances w' = s" "q = Ok b"
    using assms c by (auto simp: Wallet_deposit_def split: if_splits result.splits)
  then show ?thesis
    using c by (auto simp: BalanceSheet_credit_def BalanceSheet_get_balance_record_def Let_def split: option.splits)
qed

section \<open>Property\<close>

text \<open>
  C29. The form and the books of a wallet: whatever is called on a new wallet, every entry is stored
  under its own token ID, the balance of each token is what was deposited less what went out,
  \<open>get_all_balances\<close> lists exactly the non-zero balances, the owner never changes, the nonce counts
  the outgoing operations (modulo the width), and a frozen wallet lets nothing out.
\<close>
theorem wallet_ledger:
  assumes "wallet_trace C (Wallet_new now owner) ins outs n w"
  shows "(\<forall>t b. BalanceSheet_get_balance_record (wa_balances w) t = Some b \<longrightarrow> bal_token_id b = t) \<and>
    (\<forall>t. unat (case Wallet_get_balance w t of Some b \<Rightarrow> b | None \<Rightarrow> 0) + outs t = ins t) \<and>
    (\<forall>t b. (t, b) \<in> set (Wallet_get_all_balances w) \<longleftrightarrow> Wallet_get_balance w t = Some b \<and> b \<noteq> 0) \<and>
    wa_nonce w = of_nat n \<and> wa_owner w = owner \<and>
    (wa_frozen w \<longrightarrow> (\<forall>now now' t amount. \<exists>reason. Wallet_withdraw C now w t amount = (w, Err (WalletFrozen reason)) \<and>
       Wallet_transfer_out C now now' w t amount = (w, Err (WalletFrozen reason))))"
proof -
  have books: "wallet_books (Wallet_new now owner) ins outs n w"
    by (rule wallet_trace_books [OF assms new_wallet(1)])
  then have wf: "sheet_wf (wa_balances w)"
    and sums: "\<And>t. unat (held (wa_balances w) t) + outs t = ins t" and "wa_nonce w = of_nat n" "wa_owner w = owner"
    by (simp_all add: wallet_books_def new_wallet) (simp_all add: Wallet_new_def)
  moreover have "(t, b) \<in> set (Wallet_get_all_balances w) \<longleftrightarrow> Wallet_get_balance w t = Some b \<and> b \<noteq> 0" for t b
    using set_all_balances [OF wf]
    by (auto simp: Wallet_get_all_balances_def Wallet_get_balance_def held_def split: option.splits)
  moreover have "\<exists>reason. Wallet_withdraw C now w t amount = (w, Err (WalletFrozen reason)) \<and>
      Wallet_transfer_out C now now' w t amount = (w, Err (WalletFrozen reason))" if "wa_frozen w" for now now' t amount
    using that by (simp add: Wallet_withdraw_def Wallet_transfer_out_def check_outgoing_def)
  ultimately show ?thesis
    by (simp add: sheet_wf_def BalanceSheet_get_balance_record_def Wallet_get_balance_def held_def)
qed

section \<open>Witness\<close>

theorem wallet_ledger_witness:
  "\<exists>w. unat (case Wallet_get_balance w [7] of Some b \<Rightarrow> b | None \<Rightarrow> 0) + 30 = 100 \<and> wa_nonce w = 1"
proof -
  let ?w0 = "Wallet_new 0 ''ann''"
  let ?w1 = "fst (Wallet_deposit demo_crypto 1 1 ?w0 [7] 100)"
  let ?w2 = "fst (Wallet_withdraw demo_crypto 2 ?w1 [7] 30)"
  have d: "Wallet_deposit demo_crypto 1 1 ?w0 [7] 100 = (?w1, Ok 100)"
    and o: "Wallet_withdraw demo_crypto 2 ?w1 [7] 30 = (?w2, Ok (70, 1))"
    by (simp_all add: Wallet_deposit_def Wallet_withdraw_def Wallet_new_def BalanceSheet_new_def BalanceSheet_credit_def
        BalanceSheet_debit_def Balance_new_def check_outgoing_def Wallet_next_nonce_def checked_add_def Let_def)
  have "wallet_trace demo_crypto ?w0 (plus_at [7] 100 (\<lambda>_. 0)) (plus_at [7] 30 (\<lambda>_. 0)) 1 ?w2"
    using wallet_trace.withdraw [OF wallet_trace.deposit [OF wallet_trace.start d] o] by simp
  note led = wallet_ledger [OF this]
  have "unat (case Wallet_get_balance ?w2 [7] of Some b \<Rightarrow> b | None \<Rightarrow> 0) + plus_at [7] 30 (\<lambda>_. 0) [7] = plus_at [7] 100 (\<lambda>_. 0) [7]"
    using led [THEN conjunct2, THEN conjunct1] by (rule spec)
  moreover have "wa_nonce ?w2 = of_nat 1" using led by blast
  ultimately show ?thesis by (intro exI [of _ ?w2]) (simp add: plus_at_def)
qed

end
