(* ===== verification/GF256.thy ===== *)
theory GF256
  imports Nova_Prelude
begin

text \<open>
  The arithmetic of \<open>mod gf256\<close> in \<open>protocol/src/identity/recovery.rs\<close>: the two lookup tables as the
  code builds them, and multiplication and division by table lookup. A failed assertion is \<open>None\<close>.
  The lemmas show that the tables are what they claim, namely the powers of the generator and their
  logarithms, and that the operations make the bytes a field; the type \<open>gf\<close> carries the instance.
\<close>

section \<open>Tables\<close>

definition MODULUS :: u16 where
  "MODULUS = 0x11B"

text \<open>One step of the loop: multiply by the generator and reduce.\<close>

definition exp_step :: "u16 \<Rightarrow> u16" where
  "exp_step val = (let val = push_bit 1 val XOR val in if val \<ge> 256 then val XOR MODULUS else val)"

function exp_loop :: "nat \<Rightarrow> u16 \<Rightarrow> bytes \<Rightarrow> bytes" where
  "exp_loop i val table =
     (if i < 255 then exp_loop (i + 1) (exp_step val) (table[i := ucast val, i + 255 := ucast val]) else table)"
  by auto
termination
  by (relation "measure (\<lambda>(i, _). 255 - i)") auto

definition build_exp_table :: bytes where
  "build_exp_table = (let table = exp_loop 0 1 (replicate 512 0) in table[255 := table ! 0])"

function log_loop :: "bytes \<Rightarrow> nat \<Rightarrow> bytes \<Rightarrow> bytes" where
  "log_loop exp i table =
     (if i < 255 then log_loop exp (i + 1) (table[unat (exp ! i) := word_of_nat i]) else table)"
  by auto
termination
  by (relation "measure (\<lambda>(_, i, _). 255 - i)") auto

definition build_log_table :: bytes where
  "build_log_table = log_loop build_exp_table 0 (replicate 256 0)"

definition EXP :: bytes where
  "EXP = build_exp_table"

definition LOG :: bytes where
  "LOG = build_log_table"

section \<open>Arithmetic\<close>

definition gf_add :: "u8 \<Rightarrow> u8 \<Rightarrow> u8" where
  "gf_add a b = a XOR b"

definition gf_sub :: "u8 \<Rightarrow> u8 \<Rightarrow> u8" where
  "gf_sub a b = a XOR b"

definition gf_mul :: "u8 \<Rightarrow> u8 \<Rightarrow> u8" where
  "gf_mul a b =
     (if a = 0 \<or> b = 0 then 0
      else let log_sum = unat (LOG ! unat a) + unat (LOG ! unat b) in EXP ! log_sum)"

definition gf_div :: "u8 \<Rightarrow> u8 \<Rightarrow> u8 option" where
  "gf_div a b =
     (if b = 0 then None
      else if a = 0 then Some 0
      else let log_diff = 255 + unat (LOG ! unat a) - unat (LOG ! unat b) in Some (EXP ! log_diff))"

declare exp_loop.simps [simp del] log_loop.simps [simp del]

section \<open>Multiplication by the generator\<close>

text \<open>The step on numbers, where ground terms are evaluated by rewriting.\<close>

definition gen_nat :: "nat \<Rightarrow> nat" where
  "gen_nat n = (let y = push_bit 1 n XOR n in if y \<ge> 256 then y XOR 283 else y)"

lemma all_less_numeral: "(\<forall>n<numeral k. P n) \<longleftrightarrow> P (pred_numeral k) \<and> (\<forall>n<pred_numeral k. P n)"
  by (simp add: numeral_eq_Suc All_less_Suc)

lemma gen_nat_table:
  "\<forall>n<256. gen_nat n < 256 \<and> (n \<noteq> 0 \<longrightarrow> gen_nat n \<noteq> 0) \<and> (push_bit 1 n XOR n \<ge> 256 \<longleftrightarrow> bit n 7)"
  by (simp add: all_less_numeral gen_nat_def bit_0)

lemma gen_nat_facts:
  assumes "n < 256"
  shows "gen_nat n < 256" "n \<noteq> 0 \<Longrightarrow> gen_nat n \<noteq> 0" "gen_nat n = (push_bit 1 n XOR n) XOR (if bit n 7 then 283 else 0)"
    "push_bit 1 n XOR n \<ge> 256 \<longleftrightarrow> bit n 7"
proof -
  have t: "gen_nat n < 256 \<and> (n \<noteq> 0 \<longrightarrow> gen_nat n \<noteq> 0) \<and> (push_bit 1 n XOR n \<ge> 256 \<longleftrightarrow> bit n 7)"
    using gen_nat_table assms by blast
  then show "gen_nat n < 256" "n \<noteq> 0 \<Longrightarrow> gen_nat n \<noteq> 0" "push_bit 1 n XOR n \<ge> 256 \<longleftrightarrow> bit n 7" by blast+
  show "gen_nat n = (push_bit 1 n XOR n) XOR (if bit n 7 then 283 else 0)"
    using t unfolding gen_nat_def Let_def by (cases "bit n 7") simp_all
qed

lemma xor_less_256: "a < 256 \<Longrightarrow> b < 256 \<Longrightarrow> a XOR b < (256 :: nat)"
proof -
  assume "a < 256" "b < 256"
  then have "take_bit 8 a = a" "take_bit 8 b = b" by (simp_all add: take_bit_nat_eq_self_iff)
  then have "take_bit 8 (a XOR b) = a XOR b" by (simp only: take_bit_xor)
  then show ?thesis using take_bit_nat_less_exp [of 8 "a XOR b"] by simp
qed

lemma xor_eq_zero: "a XOR b = 0 \<longleftrightarrow> a = (b :: 'a::len word)"
proof
  assume "a XOR b = 0"
  then have "(a XOR b) XOR b = 0 XOR b" by (rule arg_cong)
  then show "a = b" by (simp add: xor.assoc)
qed simp

lemma gen_nat_xor:
  assumes "a < 256" "b < 256"
  shows "gen_nat (a XOR b) = gen_nat a XOR gen_nat b"
  using assms xor_less_256 [OF assms]
  by (simp only: gen_nat_facts(3) push_bit_xor bit_xor_iff) (simp add: ac_simps)

definition gen :: "u8 \<Rightarrow> u8" where
  "gen v = word_of_nat (gen_nat (unat v))"

lemma unat_u8_less: "unat (v :: u8) < 256"
  using unat_bound_len [of v] by simp

lemma unat_gen: "unat (gen v) = gen_nat (unat v)"
  using gen_nat_facts(1) [OF unat_u8_less [of v]] by (simp add: gen_def unat_of_nat)

lemma gen_xor: "gen (a XOR b) = gen a XOR gen b"
proof -
  have "unat (gen (a XOR b)) = unat (gen a XOR gen b)"
    by (simp add: unat_gen unsigned_xor_eq gen_nat_xor unat_u8_less)
  then show ?thesis by (rule unsigned_word_eqI)
qed

lemma gen_eq_0: "gen v = 0 \<longleftrightarrow> v = 0"
proof -
  have "gen 0 = 0" by (simp add: gen_def gen_nat_def)
  moreover have "gen v \<noteq> 0" if "v \<noteq> 0"
    using gen_nat_facts(2) [OF unat_u8_less [of v]] that unat_gen [of v] by (metis unat_0 unat_eq_zero)
  ultimately show ?thesis by blast
qed

lemma gen_inj: "gen a = gen b \<longleftrightarrow> a = b"
proof -
  have "gen a = gen b \<longleftrightarrow> gen (a XOR b) = 0" by (simp add: gen_xor xor_eq_zero)
  then show ?thesis by (simp add: gen_eq_0 xor_eq_zero)
qed

lemma exp_step_gen: "exp_step (ucast v) = ucast (gen v)"
proof -
  let ?x = "ucast v :: u16" and ?n = "unat v"
  have n: "unat ?x = ?n" using unat_u8_less [of v] by (simp add: unsigned_ucast_eq take_bit_nat_eq_self_iff)
  have "unat (push_bit 1 ?x) = take_bit 16 (push_bit 1 ?n)" by (simp only: unsigned_push_bit_eq n) simp
  also have "\<dots> = push_bit 1 ?n"
    using unat_u8_less [of v] by (simp add: take_bit_nat_eq_self_iff push_bit_eq_mult)
  finally have y: "unat (push_bit 1 ?x XOR ?x) = push_bit 1 ?n XOR ?n" by (simp only: unsigned_xor_eq n)
  have "push_bit 1 ?x XOR ?x \<ge> 256 \<longleftrightarrow> push_bit 1 ?n XOR ?n \<ge> 256"
    by (simp only: word_le_nat_alt y) simp
  moreover have "unat ((push_bit 1 ?x XOR ?x) XOR MODULUS) = (push_bit 1 ?n XOR ?n) XOR 283"
    unfolding unsigned_xor_eq [of "push_bit 1 ?x XOR ?x"] y by (simp add: MODULUS_def)
  ultimately have "unat (exp_step ?x) = gen_nat ?n"
    using y unfolding exp_step_def gen_nat_def Let_def by presburger
  also have "\<dots> = unat (ucast (gen v) :: u16)"
    using unat_u8_less [of "gen v"] take_bit_nat_eq_self [of "gen_nat (unat v)" 16]
    by (simp add: unsigned_ucast_eq unat_gen)
  finally show ?thesis by (rule unsigned_word_eqI)
qed

section \<open>Powers of the generator\<close>

definition gen_power :: "nat \<Rightarrow> u8" where
  "gen_power n = (gen ^^ n) 1"

lemma gens_xor: "(gen ^^ n) (a XOR b) = (gen ^^ n) a XOR (gen ^^ n) b"
  by (induction n) (simp_all add: gen_xor)

lemma gens_0 [simp]: "(gen ^^ n) 0 = 0"
  by (induction n) (simp_all add: gen_eq_0)

lemma gens_inj: "(gen ^^ n) a = (gen ^^ n) b \<longleftrightarrow> a = b"
  by (induction n) (simp_all add: gen_inj)

lemma gen_power_add: "gen_power (m + n) = (gen ^^ m) (gen_power n)"
  by (simp add: gen_power_def funpow_add)

lemma power_nonzero [simp]: "gen_power n \<noteq> 0"
  using gens_inj [of n 1 0] by (simp add: gen_power_def)

fun gens_nat :: "nat \<Rightarrow> nat \<Rightarrow> nat" where
  "gens_nat 0 v = v"
| "gens_nat (Suc n) v = gens_nat n (gen_nat v)"

lemma gens_nat_numeral: "gens_nat (numeral k) v = gens_nat (pred_numeral k) (gen_nat v)"
  by (simp add: numeral_eq_Suc)

lemma unat_gens: "unat ((gen ^^ n) v) = gens_nat n (unat v)"
  by (induction n arbitrary: v) (simp_all add: funpow_swap1 unat_gen)

lemma unat_power: "unat (gen_power n) = gens_nat n 1"
  by (simp add: gen_power_def unat_gens)

lemma gen_power_order:
  "gen_power 255 = 1" "gen_power 15 \<noteq> 1" "gen_power 51 \<noteq> 1" "gen_power 85 \<noteq> 1"
proof -
  have "gens_nat 255 1 = 1" by (simp add: gens_nat_numeral gen_nat_def)
  then show "gen_power 255 = 1" using unat_power [of 255] by (metis unat_1 word_unat_eq_iff)
  have "gens_nat 15 1 \<noteq> 1" "gens_nat 51 1 \<noteq> 1" "gens_nat 85 1 \<noteq> 1"
    by (simp_all add: gens_nat_numeral gen_nat_def)
  then show "gen_power 15 \<noteq> 1" "gen_power 51 \<noteq> 1" "gen_power 85 \<noteq> 1"
    using unat_power by (metis unat_1)+
qed

text \<open>The exponents of one are the multiples of 255.\<close>

lemma power_one_add: "gen_power n = 1 \<Longrightarrow> gen_power (m + n) = 1 \<longleftrightarrow> gen_power m = 1"
  by (simp add: gen_power_add) (simp add: gen_power_def)

lemma power_one_mult: "gen_power n = 1 \<Longrightarrow> gen_power (k * n) = 1"
proof (induction k)
  case 0
  then show ?case by (simp add: gen_power_def)
next
  case (Suc k)
  then show ?case using power_one_add [of n "k * n"] by (simp add: add.commute)
qed

lemma divisors_255: "\<forall>g<255. g dvd 255 \<longrightarrow> g dvd 15 \<or> g dvd 51 \<or> g dvd (85 :: nat)"
  by (simp add: all_less_numeral)

lemma power_one_less:
  assumes "gen_power d = 1" "d < 255"
  shows "d = 0"
proof (rule ccontr)
  assume "d \<noteq> 0"
  obtain x y where xy: "d * x = 255 * y + gcd d 255" using bezout_nat [OF \<open>d \<noteq> 0\<close>, of 255] by blast
  have "gen_power (gcd d 255 + y * 255) = 1"
    using power_one_mult [OF assms(1), of x] xy by (simp add: mult.commute add.commute)
  then have g: "gen_power (gcd d 255) = 1"
    using power_one_add [OF power_one_mult [OF gen_power_order(1)], of "gcd d 255" y] by simp
  have "gcd d 255 < 255" using \<open>d \<noteq> 0\<close> assms(2) by (meson gcd_le1_nat order.strict_trans1)
  then have "gcd d 255 dvd 15 \<or> gcd d 255 dvd 51 \<or> gcd d 255 dvd 85" using divisors_255 by simp
  then show False
    using power_one_mult [OF g] gen_power_order(2-4) by (metis dvd_def mult.commute)
qed

lemma gen_power_mod: "gen_power (n mod 255) = gen_power n"
proof -
  have "gen_power (n mod 255 + (n div 255) * 255) = (gen ^^ (n mod 255)) (gen_power ((n div 255) * 255))" by (rule gen_power_add)
  then show ?thesis using power_one_mult [OF gen_power_order(1), of "n div 255"] by (simp add: gen_power_def)
qed

lemma gen_power_inj: "i < 255 \<Longrightarrow> j < 255 \<Longrightarrow> gen_power i = gen_power j \<Longrightarrow> i = j"
proof (induction i j rule: linorder_wlog)
  case (le i j)
  have "(gen ^^ i) (gen_power (j - i)) = (gen ^^ i) 1"
    using le by (simp only: gen_power_add [symmetric]) (simp add: gen_power_def)
  then have "gen_power (j - i) = 1" by (simp only: gens_inj)
  then have "j - i = 0" using le by (intro power_one_less) simp_all
  then show ?case using le by simp
qed simp

lemma power_surj:
  assumes "a \<noteq> 0"
  obtains i where "i < 255" "gen_power i = a"
proof -
  let ?I = "{i :: nat. i < 255}"
  have "card (gen_power ` ?I) = card ?I" by (rule card_image) (auto intro: inj_onI gen_power_inj)
  then have "card (gen_power ` ?I) = 255" by (simp only: card_Collect_less_nat)
  moreover have "card (UNIV - {0} :: u8 set) = 255" by (simp add: card_Diff_subset card_word)
  ultimately have "gen_power ` ?I = UNIV - {0}" by (intro card_subset_eq) (auto simp: card_word)
  moreover have "a \<in> UNIV - {0}" using assms by simp
  ultimately obtain i where "i \<in> ?I" "a = gen_power i" by (metis imageE)
  then show thesis using that by simp
qed

section \<open>The tables\<close>

lemma ucast_u8_u16 [simp]: "ucast (ucast v :: u16) = (v :: u8)"
  by (rule bit_word_eqI) (simp add: bit_unsigned_iff)

lemma length_exp_loop [simp]: "length (exp_loop i val table) = length table"
  by (induction i val table rule: exp_loop.induct) (subst exp_loop.simps, simp)

lemma exp_loop_nth:
  assumes "length table = 512" "i \<le> 255" "k < 255"
    and "\<forall>k<i. table ! k = gen_power k \<and> table ! (k + 255) = gen_power k"
  shows "exp_loop i (ucast (gen_power i)) table ! k = gen_power k \<and> exp_loop i (ucast (gen_power i)) table ! (k + 255) = gen_power k"
  using assms
proof (induction "255 - i" arbitrary: i table)
  case 0
  then show ?case by (subst (1 2) exp_loop.simps) simp
next
  case (Suc d)
  then have i: "i < 255" by simp
  let ?t = "table[i := gen_power i, i + 255 := gen_power i]"
  have "exp_loop i (ucast (gen_power i)) table = exp_loop (i + 1) (ucast (gen_power (i + 1))) ?t"
    using i by (subst exp_loop.simps) (simp add: exp_step_gen gen_power_def)
  moreover have "\<forall>k<i + 1. ?t ! k = gen_power k \<and> ?t ! (k + 255) = gen_power k"
    using Suc.prems i by (auto simp: nth_list_update less_Suc_eq)
  ultimately show ?case using Suc.hyps Suc.prems i by simp
qed

lemma EXP_nth:
  assumes "i < 510"
  shows "EXP ! i = gen_power i"
proof -
  let ?t = "exp_loop 0 (ucast (gen_power 0)) (replicate 512 0)"
  have t: "?t ! k = gen_power k \<and> ?t ! (k + 255) = gen_power k" if "k < 255" for k
    using exp_loop_nth [of "replicate 512 0" 0 k] that by simp
  have "?t ! i = gen_power (i mod 255)"
  proof (cases "i < 255")
    case False
    then have "i - 255 < 255" "i - 255 + 255 = i" "(i - 255) mod 255 = i mod 255"
      using assms by (simp_all add: le_mod_geq)
    then show ?thesis using t [of "i - 255"] by simp
  qed (use t in simp)
  moreover have "?t[255 := ?t ! 0] ! i = ?t ! i" using t [of 0] by (cases "i = 255") simp_all
  ultimately show ?thesis
    by (simp add: EXP_def build_exp_table_def Let_def gen_power_mod) (simp add: gen_power_def)
qed

lemma length_log_loop [simp]: "length (log_loop xs i table) = length table"
  by (induction xs i table rule: log_loop.induct) (subst log_loop.simps, simp)

lemma log_loop_nth:
  assumes "length table = 256" "i \<le> 255" "k < 255"
    and "\<forall>k<255. xs ! k = gen_power k" "\<forall>k<i. table ! unat (gen_power k) = word_of_nat k"
  shows "log_loop xs i table ! unat (gen_power k) = word_of_nat k"
  using assms
proof (induction "255 - i" arbitrary: i table)
  case 0
  then show ?case by (subst log_loop.simps) simp
next
  case (Suc d)
  then have i: "i < 255" by simp
  let ?t = "table[unat (gen_power i) := word_of_nat i]"
  have "?t ! unat (gen_power k) = word_of_nat k" if "k < i + 1" for k
  proof (cases "k = i")
    case True
    then show ?thesis using Suc.prems(1) unat_u8_less [of "gen_power i"] by simp
  next
    case False
    then have "unat (gen_power k) \<noteq> unat (gen_power i)"
      using gen_power_inj [of k i] that i unsigned_word_eqI [of "gen_power k" "gen_power i"] by fastforce
    then show ?thesis using Suc.prems(5) that False by simp
  qed
  then show ?case
    using Suc.hyps Suc.prems i by (subst log_loop.simps) simp
qed

text \<open>The discrete logarithm read from the table.\<close>

definition dlog :: "u8 \<Rightarrow> nat" where
  "dlog a = unat (LOG ! unat a)"

lemma dlog_power:
  assumes "i < 255"
  shows "dlog (gen_power i) = i"
proof -
  have "LOG ! unat (gen_power i) = word_of_nat i"
    unfolding LOG_def build_log_table_def EXP_def [symmetric]
    using assms by (intro log_loop_nth) (simp_all add: EXP_nth)
  then show ?thesis using assms by (simp add: dlog_def unat_of_nat)
qed

lemma dlog:
  assumes "a \<noteq> 0"
  shows "dlog a < 255" "gen_power (dlog a) = a"
  using power_surj [OF assms] dlog_power by metis+

lemma gf_mul_gens: "a \<noteq> 0 \<Longrightarrow> gf_mul a b = (gen ^^ dlog a) b"
proof (cases "b = 0")
  case False
  assume a: "a \<noteq> 0"
  have "gf_mul a b = EXP ! (dlog a + dlog b)" using a False by (simp add: gf_mul_def dlog_def)
  also have "\<dots> = (gen ^^ dlog a) (gen_power (dlog b))"
    using dlog(1) [OF a] dlog(1) [OF False] by (simp add: EXP_nth gen_power_add)
  finally show ?thesis by (simp add: dlog(2) [OF False])
qed (simp add: gf_mul_def)

lemma gf_mul_power: "gf_mul (gen_power i) (gen_power j) = gen_power (i + j)"
proof -
  have "gf_mul (gen_power (i mod 255)) b = (gen ^^ (i mod 255)) b" for b
    by (simp add: gf_mul_gens dlog_power)
  then have "gf_mul (gen_power (i mod 255)) (gen_power j) = gen_power (i mod 255 + j)" by (simp add: gen_power_add)
  also have "\<dots> = gen_power ((i mod 255 + j) mod 255)" by (rule gen_power_mod [symmetric])
  also have "(i mod 255 + j) mod 255 = (i + j) mod 255" by (rule mod_add_left_eq)
  finally show ?thesis by (simp only: gen_power_mod)
qed

lemma gf_mul_zero [simp]: "gf_mul 0 a = 0" "gf_mul a 0 = 0"
  by (simp_all add: gf_mul_def)

lemma gf_mul_commute: "gf_mul a b = gf_mul b a"
  by (auto simp: gf_mul_def add.commute)

lemma gf_mul_assoc: "gf_mul (gf_mul a b) c = gf_mul a (gf_mul b c)"
proof (cases "a = 0 \<or> b = 0 \<or> c = 0")
  case False
  then obtain i j k where "a = gen_power i" "b = gen_power j" "c = gen_power k" using power_surj by metis
  then show ?thesis by (simp add: gf_mul_power add.assoc)
qed auto

lemma gf_mul_one: "gf_mul 1 a = a"
proof -
  have one: "(1 :: u8) = gen_power 0" by (simp add: gen_power_def)
  then show ?thesis using dlog_power [of 0] by (simp add: gf_mul_gens)
qed

lemma gf_mul_xor: "gf_mul a (b XOR c) = gf_mul a b XOR gf_mul a c"
  by (cases "a = 0") (simp_all add: gf_mul_gens gens_xor)

lemma gf_mul_xor_left: "gf_mul (a XOR b) c = gf_mul a c XOR gf_mul b c"
  by (simp only: gf_mul_commute [of _ c] gf_mul_xor)

definition gf_inverse :: "u8 \<Rightarrow> u8" where
  "gf_inverse b = (if b = 0 then 0 else gen_power (255 - dlog b))"

lemma gf_mul_inverse: "a \<noteq> 0 \<Longrightarrow> gf_mul (gf_inverse a) a = 1"
  using dlog [of a] gf_mul_power [of "255 - dlog a" "dlog a"] by (simp add: gf_inverse_def gen_power_order)

lemma gf_div_mul:
  assumes "b \<noteq> 0"
  shows "gf_div a b = Some (gf_mul a (gf_inverse b))"
proof (cases "a = 0")
  case False
  have "gf_div a b = Some (gen_power (255 + dlog a - dlog b))"
    using assms False dlog(1) [of a] by (simp add: gf_div_def dlog_def [symmetric] EXP_nth)
  moreover have "gf_mul (gen_power (dlog a)) (gen_power (255 - dlog b)) = gen_power (255 + dlog a - dlog b)"
    using dlog(1) [OF assms] by (simp add: gf_mul_power add.commute)
  ultimately show ?thesis using assms False by (simp add: gf_inverse_def dlog(2))
qed (simp add: gf_div_def assms)

section \<open>Equivalence with multiplication of polynomials\<close>

text \<open>
  The reference: bytes as polynomials over the field of two elements, multiplied digit by digit and
  reduced by the polynomial of the source after every shift.
\<close>

definition xtime :: "u8 \<Rightarrow> u8" where
  "xtime a = push_bit 1 a XOR (if bit a 7 then 0x1B else 0)"

primrec poly_mul :: "nat \<Rightarrow> u8 \<Rightarrow> u8 \<Rightarrow> u8" where
  "poly_mul 0 a b = 0"
| "poly_mul (Suc n) a b = (if bit b 0 then a else 0) XOR poly_mul n (xtime a) (drop_bit 1 b)"

lemma gen_xtime: "gen a = xtime a XOR a"
proof -
  have "gen a = word_of_nat ((push_bit 1 (unat a) XOR unat a) XOR (if bit (unat a) 7 then 283 else 0))"
    unfolding gen_def gen_nat_facts(3) [OF unat_u8_less [of a]] ..
  also have "\<dots> = (push_bit 1 a XOR a) XOR (if bit a 7 then 0x1B else 0)"
  proof -
    have "word_of_nat 283 = (0x1B :: u8)" by simp
    moreover have "bit (unat a) 7 \<longleftrightarrow> bit a 7" by (simp add: bit_unsigned_iff)
    moreover have "word_of_nat (unat a) = a" "word_of_nat 0 = (0 :: u8)" by simp_all
    ultimately show ?thesis
      by (cases "bit a 7") (simp_all only: of_nat_xor_eq of_nat_push_bit if_True if_False)
  qed
  finally show ?thesis by (simp only: xtime_def xor.assoc xor.commute [of a])
qed

lemma gf_mul_two: "gf_mul 2 a = xtime a"
proof -
  have three: "gen_power 1 = 3" by (simp add: gen_power_def gen_def gen_nat_def)
  have "gf_mul 3 a = gen a" using dlog_power [of 1] gf_mul_gens [of 3 a] unfolding three by simp
  moreover have "gf_mul (3 XOR 1) a = gf_mul 3 a XOR gf_mul 1 a" by (rule gf_mul_xor_left)
  ultimately show ?thesis by (simp add: gen_xtime gf_mul_one xor.assoc)
qed

lemma poly_mul_eq: "drop_bit n b = 0 \<Longrightarrow> n \<le> 8 \<Longrightarrow> poly_mul n a b = gf_mul a b"
proof (induction n arbitrary: a b)
  case (Suc n)
  let ?c = "drop_bit 1 b"
  have b: "b = (if bit b 0 then 1 else 0) XOR push_bit 1 ?c"
  proof (rule bit_word_eqI)
    fix k :: nat
    assume k: "k < LENGTH(8)"
    have "bit (push_bit 1 ?c) k \<longleftrightarrow> 1 \<le> k \<and> bit b k"
      using k by (auto simp only: bit_push_bit_iff bit_drop_bit_eq comp_def) simp_all
    moreover have "bit (if bit b 0 then 1 else 0 :: u8) k \<longleftrightarrow> k = 0 \<and> bit b 0" by (auto simp: bit_1_iff)
    ultimately show "bit b k \<longleftrightarrow> bit ((if bit b 0 then 1 else 0) XOR push_bit 1 ?c) k"
      unfolding bit_xor_iff by (cases k) simp_all
  qed
  have "\<not> bit b 8" using bit_imp_le_length [of b 8] by auto
  then have "\<not> bit ?c 7" by (simp add: bit_drop_bit_eq)
  then have two: "push_bit 1 ?c = gf_mul 2 ?c" by (simp add: gf_mul_two xtime_def)
  have "gf_mul a (push_bit 1 ?c) = gf_mul (gf_mul a 2) ?c" unfolding two by (rule gf_mul_assoc [symmetric])
  then have "gf_mul a (push_bit 1 ?c) = gf_mul (xtime a) ?c" by (simp only: gf_mul_commute [of a 2] gf_mul_two)
  moreover have "gf_mul a b = gf_mul a (if bit b 0 then 1 else 0) XOR gf_mul a (push_bit 1 ?c)"
    by (subst b) (rule gf_mul_xor)
  moreover have "poly_mul n (xtime a) ?c = gf_mul (xtime a) ?c" using Suc.prems by (intro Suc.IH) simp_all
  ultimately show ?case using gf_mul_one [of a] gf_mul_commute [of a 1] by simp
qed simp

text \<open>
  C32. The table lookup is the multiplication of AES: for all bytes, \<open>mul\<close> through the logarithm and
  exponential tables equals the product of polynomials over two elements modulo the polynomial
  \<open>0x11B\<close>, and \<open>div\<close> undoes it.
\<close>
theorem gf_mul_reference:
  "gf_mul a b = poly_mul 8 a b \<and> gf_div (gf_mul a b) b = (if b = 0 then None else Some a)"
proof -
  have "gf_mul (gf_mul a b) (gf_inverse b) = a" if "b \<noteq> 0"
    using gf_mul_inverse [OF that] gf_mul_one [of a] gf_mul_commute [of b "gf_inverse b"] gf_mul_commute [of a 1]
    by (simp only: gf_mul_assoc)
  moreover have "drop_bit 8 b = 0"
    by (rule bit_word_eqI) (auto simp: bit_drop_bit_eq dest: bit_imp_le_length)
  ultimately show ?thesis using poly_mul_eq [of 8 b a] gf_div_mul by (simp add: gf_div_def)
qed

section \<open>The field\<close>

typedef gf = "UNIV :: u8 set"
  by simp

setup_lifting type_definition_gf

instantiation gf :: field
begin

lift_definition zero_gf :: gf is 0 .

lift_definition one_gf :: gf is 1 .

lift_definition plus_gf :: "gf \<Rightarrow> gf \<Rightarrow> gf" is gf_add .

lift_definition minus_gf :: "gf \<Rightarrow> gf \<Rightarrow> gf" is gf_sub .

lift_definition uminus_gf :: "gf \<Rightarrow> gf" is "\<lambda>a. a" .

lift_definition times_gf :: "gf \<Rightarrow> gf \<Rightarrow> gf" is gf_mul .

lift_definition inverse_gf :: "gf \<Rightarrow> gf" is gf_inverse .

lift_definition divide_gf :: "gf \<Rightarrow> gf \<Rightarrow> gf" is "\<lambda>a b. gf_mul a (gf_inverse b)" .

instance
proof
  fix a b c :: gf
  show "a + b + c = a + (b + c)" by transfer (simp add: gf_add_def ac_simps)
  show "a + b = b + a" by transfer (simp add: gf_add_def ac_simps)
  show "0 + a = a" by transfer (simp add: gf_add_def)
  show "- a + a = 0" by transfer (simp add: gf_add_def)
  show "a - b = a + - b" by transfer (simp add: gf_add_def gf_sub_def)
  show "a * b * c = a * (b * c)" by transfer (rule gf_mul_assoc)
  show "a * b = b * a" by transfer (rule gf_mul_commute)
  show "1 * a = a" by transfer (rule gf_mul_one)
  show "(a + b) * c = a * c + b * c"
    by transfer (simp add: gf_add_def gf_mul_xor_left)
  show "(0 :: gf) \<noteq> 1" by transfer simp
  show "a \<noteq> 0 \<Longrightarrow> inverse a * a = 1" by transfer (rule gf_mul_inverse)
  show "a div b = a * inverse b" by transfer (rule refl)
  show "inverse (0 :: gf) = 0" by transfer (simp add: gf_inverse_def)
qed

end

end
