(* ===== verification/Recovery.thy ===== *)
theory Recovery
  imports GF256
begin

text \<open>
  Key recovery by Shamir's secret sharing, \<open>protocol/src/identity/recovery.rs\<close>. The bytes of the
  operating system's generator are the argument \<open>fill\<close>: \<open>fill k j\<close> is random byte \<open>j\<close> for byte \<open>k\<close>
  of the secret. A panic (a failed assertion, an index out of range) is \<open>None\<close>. The lemmas prove
  Lagrange interpolation over any field, that any threshold of shares recovers the secret, and that
  fewer shares are consistent with every secret.
\<close>

section \<open>Types\<close>

datatype ShamirError =
    ThresholdTooLow u8
  | InsufficientShares u8 u8
  | TooManyShares u8
  | EmptySecret
  | NotEnoughShares nat
  | InconsistentShareLengths nat nat
  | DuplicateShareIndex u8

record ShamirConfig =
  sh_threshold :: u8
  sh_total_shares :: u8

record Share =
  sh_index :: u8
  sh_data :: bytes

definition ShamirConfig_new :: "u8 \<Rightarrow> u8 \<Rightarrow> (ShamirConfig, ShamirError) result" where
  "ShamirConfig_new threshold total_shares =
     (if threshold < 2 then Err (ThresholdTooLow threshold)
      else if total_shares < threshold then Err (InsufficientShares threshold total_shares)
      else Ok \<lparr>sh_threshold = threshold, sh_total_shares = total_shares\<rparr>)"

section \<open>Polynomials over the field\<close>

definition eval_polynomial :: "bytes \<Rightarrow> u8 \<Rightarrow> u8" where
  "eval_polynomial coefficients x = foldl (\<lambda>result coeff. gf_add (gf_mul result x) coeff) 0 (rev coefficients)"

text \<open>Numerator and denominator of the basis polynomial of point \<open>i\<close> at zero.\<close>

definition lagrange_basis :: "bytes \<Rightarrow> nat \<Rightarrow> u8 \<times> u8" where
  "lagrange_basis xs i =
     foldl (\<lambda>(numerator, denominator) j.
       if i = j then (numerator, denominator)
       else (gf_mul numerator (xs ! j), gf_mul denominator (gf_sub (xs ! i) (xs ! j)))) (1, 1) [0..<length xs]"

fun lagrange_loop :: "bytes \<Rightarrow> bytes \<Rightarrow> nat list \<Rightarrow> u8 \<Rightarrow> u8 option" where
  "lagrange_loop xs ys [] secret = Some secret"
| "lagrange_loop xs ys (i # is) secret =
     (case lagrange_basis xs i of (numerator, denominator) \<Rightarrow>
      (case gf_div numerator denominator of
         None \<Rightarrow> None
       | Some lagrange \<Rightarrow> lagrange_loop xs ys is (gf_add secret (gf_mul (ys ! i) lagrange))))"

definition lagrange_interpolate_at_zero :: "bytes \<Rightarrow> bytes \<Rightarrow> u8 option" where
  "lagrange_interpolate_at_zero xs ys =
     (if length xs \<noteq> length ys then None else lagrange_loop xs ys [0..<length xs] 0)"

section \<open>Splitting and recovering\<close>

definition byte_coefficients :: "(nat \<Rightarrow> nat \<Rightarrow> u8) \<Rightarrow> nat \<Rightarrow> nat \<Rightarrow> u8 \<Rightarrow> bytes" where
  "byte_coefficients fill threshold k secret_byte = secret_byte # map (fill k) [0..<threshold - 1]"

fun split_loop :: "(nat \<Rightarrow> nat \<Rightarrow> u8) \<Rightarrow> nat \<Rightarrow> nat \<Rightarrow> bytes \<Rightarrow> Share list \<Rightarrow> Share list option" where
  "split_loop fill threshold k [] shares = Some shares"
| "split_loop fill threshold k (secret_byte # secret) shares =
     (if threshold = 0 then None
      else
        let coefficients = byte_coefficients fill threshold k secret_byte in
        split_loop fill threshold (Suc k) secret
          (map (\<lambda>share. share\<lparr>sh_data := sh_data share @ [eval_polynomial coefficients (sh_index share)]\<rparr>) shares))"

definition split_secret ::
  "(nat \<Rightarrow> nat \<Rightarrow> u8) \<Rightarrow> bytes \<Rightarrow> ShamirConfig \<Rightarrow> (Share list, ShamirError) result option" where
  "split_secret fill secret config =
     (if secret = [] then Some (Err EmptySecret)
      else
        let threshold = unat (sh_threshold config);
            total = unat (sh_total_shares config);
            shares = map (\<lambda>i. \<lparr>sh_index = word_of_nat i, sh_data = []\<rparr>) [1..<total + 1]
        in map_option Ok (split_loop fill threshold 0 secret shares))"

fun check_lengths :: "nat \<Rightarrow> Share list \<Rightarrow> (unit, ShamirError) result" where
  "check_lengths expected_len [] = Ok ()"
| "check_lengths expected_len (share # shares) =
     (if length (sh_data share) \<noteq> expected_len
      then Err (InconsistentShareLengths expected_len (length (sh_data share)))
      else check_lengths expected_len shares)"

fun check_indices :: "bool list \<Rightarrow> Share list \<Rightarrow> (unit, ShamirError) result" where
  "check_indices seen [] = Ok ()"
| "check_indices seen (share # shares) =
     (if sh_index share = 0 then Err (DuplicateShareIndex 0)
      else if seen ! unat (sh_index share) then Err (DuplicateShareIndex (sh_index share))
      else check_indices (seen[unat (sh_index share) := True]) shares)"

fun recover_loop :: "Share list \<Rightarrow> bytes \<Rightarrow> nat list \<Rightarrow> bytes \<Rightarrow> bytes option" where
  "recover_loop shares xs [] secret = Some secret"
| "recover_loop shares xs (byte_idx # rest) secret =
     (let ys = map (\<lambda>s. sh_data s ! byte_idx) shares in
      case lagrange_interpolate_at_zero xs ys of
        None \<Rightarrow> None
      | Some recovered_byte \<Rightarrow> recover_loop shares xs rest (secret @ [recovered_byte]))"

definition recover_secret :: "Share list \<Rightarrow> (bytes, ShamirError) result option" where
  "recover_secret shares =
     (if length shares < 2 then Some (Err (NotEnoughShares (length shares)))
      else
        let expected_len = length (sh_data (shares ! 0)) in
        case check_lengths expected_len (tl shares) of
          Err e \<Rightarrow> Some (Err e)
        | Ok _ \<Rightarrow>
            (case check_indices (replicate 256 False) shares of
               Err e \<Rightarrow> Some (Err e)
             | Ok _ \<Rightarrow> map_option Ok (recover_loop shares (map sh_index shares) [0..<expected_len] [])))"

section \<open>Interpolation in a field\<close>

primrec peval :: "'a::field list \<Rightarrow> 'a \<Rightarrow> 'a" where
  "peval [] x = 0"
| "peval (c # cs) x = c + x * peval cs x"

definition lag :: "'a::field set \<Rightarrow> ('a \<Rightarrow> 'a) \<Rightarrow> 'a \<Rightarrow> 'a" where
  "lag X f z = (\<Sum>x\<in>X. f x * (\<Prod>y\<in>X - {x}. (z - y) / (x - y)))"

lemma lag_add: "lag X (\<lambda>x. f x + g x) z = lag X f z + lag X g z"
  by (simp add: lag_def sum.distrib distrib_right)

lemma lag_scale: "lag X (\<lambda>x. c * f x) z = c * lag X f z"
  by (simp add: lag_def sum_distrib_left mult.assoc)

lemma lag_cong: "(\<And>x. x \<in> X \<Longrightarrow> f x = g x) \<Longrightarrow> lag X f z = lag X g z"
  by (simp add: lag_def cong: sum.cong)

lemma lag_shift:
  assumes "finite X" "a \<in> X"
  shows "lag X (\<lambda>x. (x - a) * f x) z = (z - a) * lag (X - {a}) f z"
proof -
  have "(x - a) * f x * (\<Prod>y\<in>X - {x}. (z - y) / (x - y)) = (z - a) * (f x * (\<Prod>y\<in>X - {a} - {x}. (z - y) / (x - y)))"
    if "x \<in> X - {a}" for x
  proof -
    have "(\<Prod>y\<in>X - {x}. (z - y) / (x - y)) = (z - a) / (x - a) * (\<Prod>y\<in>X - {x} - {a}. (z - y) / (x - y))"
      using assms that by (intro prod.remove) auto
    moreover have "X - {x} - {a} = X - {a} - {x}" by auto
    ultimately show ?thesis using that by simp
  qed
  then have "(\<Sum>x\<in>X - {a}. (x - a) * f x * (\<Prod>y\<in>X - {x}. (z - y) / (x - y))) =
      (\<Sum>x\<in>X - {a}. (z - a) * (f x * (\<Prod>y\<in>X - {a} - {x}. (z - y) / (x - y))))"
    by (rule sum.cong [OF refl])
  then show ?thesis by (simp add: lag_def sum.remove [OF assms] sum_distrib_left)
qed

lemma lag_one: "finite X \<Longrightarrow> X \<noteq> {} \<Longrightarrow> lag X (\<lambda>_. 1) z = 1"
proof (induction "card X" arbitrary: X rule: less_induct)
  case less
  obtain a where a: "a \<in> X" using less.prems by blast
  show ?case
  proof (cases "X = {a}")
    case True
    then show ?thesis by (simp add: lag_def)
  next
    case False
    then obtain b where b: "b \<in> X" "b \<noteq> a" using a by blast
    have sub: "lag (X - {c}) (\<lambda>_. 1) z = 1" if "c \<in> X" "d \<in> X" "c \<noteq> d" for c d
      using less.prems that card_Diff1_less [OF less.prems(1) that(1)] by (intro less.hyps) auto
    have "(b - a) * lag X (\<lambda>_. 1) z = lag X (\<lambda>x. (x - a) * 1 + (- 1) * ((x - b) * 1)) z"
      unfolding lag_scale [symmetric] by (rule lag_cong) simp
    also have "\<dots> = (z - a) * lag (X - {a}) (\<lambda>_. 1) z - (z - b) * lag (X - {b}) (\<lambda>_. 1) z"
      unfolding lag_add lag_scale lag_shift [OF less.prems(1) a] lag_shift [OF less.prems(1) b(1)] by simp
    also have "\<dots> = b - a" using sub [of a b] sub [of b a] a b by simp
    finally show ?thesis using b(2) by simp
  qed
qed

lemma lag_poly: "finite X \<Longrightarrow> length cs \<le> card X \<Longrightarrow> lag X (peval cs) z = peval cs z"
proof (induction cs arbitrary: X)
  case Nil
  then show ?case by (simp add: lag_def)
next
  case (Cons c q)
  then obtain a where a: "a \<in> X" by fastforce
  have q1: "lag X (peval q) z = peval q z" using Cons by simp
  have q2: "lag (X - {a}) (peval q) z = peval q z"
    using Cons.prems a by (intro Cons.IH) (simp_all add: card_Diff_singleton)
  have "lag X (peval (c # q)) z = lag X (\<lambda>x. c * 1 + ((x - a) * peval q x + a * peval q x)) z"
    by (rule lag_cong) (simp add: algebra_simps)
  also have "\<dots> = c * lag X (\<lambda>_. 1) z + ((z - a) * lag (X - {a}) (peval q) z + a * lag X (peval q) z)"
    unfolding lag_add lag_scale lag_shift [OF Cons.prems(1) a] ..
  also have "\<dots> = c + z * peval q z"
    using lag_one [OF Cons.prems(1)] a q1 q2 by (auto simp: algebra_simps)
  finally show ?case unfolding peval.simps(2) [symmetric] .
qed

text \<open>Values at enough points determine the coefficients.\<close>

lemma peval_agree:
  assumes "finite X" "length cs \<le> card X" "length ds \<le> card X" "\<And>x. x \<in> X \<Longrightarrow> peval cs x = peval ds x"
  shows "peval cs z = peval ds z"
proof -
  have "lag X (peval cs) z = lag X (peval ds) z" using assms(4) by (rule lag_cong)
  then show ?thesis using lag_poly [OF assms(1,2)] lag_poly [OF assms(1,3)] by simp
qed

section \<open>The field of bytes\<close>

lemmas gf_abs = plus_gf.abs_eq [symmetric] minus_gf.abs_eq [symmetric] times_gf.abs_eq [symmetric]
  zero_gf_def [symmetric] one_gf_def [symmetric]

lemma Abs_gf_inj [simp]: "Abs_gf a = Abs_gf b \<longleftrightarrow> a = b"
  by (simp add: Abs_gf_inject)

lemma uminus_gf_id [simp]: "- (a :: gf) = a"
  by transfer simp

lemma Abs_gf_surj: "\<exists>a. x = Abs_gf a"
  by (metis Rep_gf_inverse)

lemma card_gf: "card (UNIV - {0} :: gf set) = 255" "finite (UNIV :: gf set)"
proof -
  have U: "(UNIV :: gf set) = Abs_gf ` UNIV" using Abs_gf_surj by blast
  have "card (Abs_gf ` UNIV) = card (UNIV :: u8 set)" by (rule card_image) (simp add: inj_on_def)
  then have "card (UNIV :: gf set) = card (UNIV :: u8 set)" by (simp only: U [symmetric])
  moreover show fin: "finite (UNIV :: gf set)" by (subst U) simp
  ultimately show "card (UNIV - {0} :: gf set) = 255" by (simp add: card_Diff_subset card_word)
qed

lemma peval_unique:
  assumes "length cs = length ds" "length cs \<le> 256" "\<And>z :: gf. peval cs z = peval ds z"
  shows "cs = ds"
  using assms
proof (induction cs ds rule: list_induct2)
  case (Cons c cs d ds)
  have cd: "c = d" using Cons.prems(2) [of 0] by simp
  have nz: "peval cs z = peval ds z" if "z \<in> UNIV - {0}" for z
    using Cons.prems(2) [of z] that cd by simp
  have len: "length cs \<le> card (UNIV - {0} :: gf set)" "length ds \<le> card (UNIV - {0} :: gf set)"
    using Cons.prems(1) Cons.hyps unfolding card_gf(1) by simp_all
  have "peval cs z = peval ds z" for z
    by (rule peval_agree [OF finite_Diff [OF card_gf(2)] len nz])
  then have "cs = ds" using Cons.prems(1) by (intro Cons.IH) simp_all
  then show ?case using cd by simp
qed simp

lemma foldl_Horner:
  "Abs_gf (foldl (\<lambda>r c. gf_add (gf_mul r x) c) 0 (rev cs)) = peval (map Abs_gf cs) (Abs_gf x)"
  by (induction cs) (simp_all add: gf_abs algebra_simps)

lemma eval_polynomial_peval: "Abs_gf (eval_polynomial cs x) = peval (map Abs_gf cs) (Abs_gf x)"
  by (simp add: eval_polynomial_def foldl_Horner)

lemma basis_loop:
  fixes xs i
  defines "step \<equiv> \<lambda>(a, b) j. if i = j then (a, b) else (gf_mul a (xs ! j), gf_mul b (gf_sub (xs ! i) (xs ! j)))"
  shows "map_prod Abs_gf Abs_gf (foldl step (1, 1) [0..<m]) =
    ((\<Prod>j\<in>{..<m} - {i}. Abs_gf (xs ! j)), (\<Prod>j\<in>{..<m} - {i}. Abs_gf (xs ! i) - Abs_gf (xs ! j)))"
proof (induction m)
  case 0
  then show ?case by (simp add: gf_abs)
next
  case (Suc m)
  obtain a b where ab: "foldl step (1, 1) [0..<m] = (a, b)" by fastforce
  show ?case
  proof (cases "i = m")
    case True
    then have "{..<Suc m} - {i} = {..<m} - {i}" by auto
    then show ?thesis using Suc ab True by (simp add: step_def)
  next
    case False
    then have "{..<Suc m} - {i} = insert m ({..<m} - {i})" by auto
    then show ?thesis using Suc ab False by (simp add: step_def gf_abs mult.commute)
  qed
qed

lemma basis_quotient:
  assumes "distinct xs" "i < length xs" "lagrange_basis xs i = (a, b)"
  shows "\<exists>l. gf_div a b = Some l \<and>
    Abs_gf l = (\<Prod>y\<in>Abs_gf ` set xs - {Abs_gf (xs ! i)}. (0 - y) / (Abs_gf (xs ! i) - y))"
proof -
  let ?J = "{..<length xs} - {i}" and ?x = "\<lambda>j. Abs_gf (xs ! j)"
  have ab: "Abs_gf a = (\<Prod>j\<in>?J. ?x j)" "Abs_gf b = (\<Prod>j\<in>?J. ?x i - ?x j)"
    using basis_loop [of i xs "length xs"] assms(3) by (simp_all add: lagrange_basis_def)
  have ne: "?x i - ?x j \<noteq> 0" if "j \<in> ?J" for j
    using assms(1,2) that by (auto simp: nth_eq_iff_index_eq)
  then have "Abs_gf b \<noteq> 0" unfolding ab(2) by (simp add: prod_zero_iff)
  then have b: "b \<noteq> 0" by (simp add: zero_gf_def)
  have "Abs_gf (gf_mul a (gf_inverse b)) = (\<Prod>j\<in>?J. ?x j / (?x i - ?x j))"
    using ab by (simp add: divide_gf.abs_eq [symmetric] prod_dividef)
  also have "\<dots> = (\<Prod>y\<in>?x ` ?J. y / (?x i - y))"
    using assms(1) by (subst prod.reindex) (auto simp: inj_on_def nth_eq_iff_index_eq)
  also have "?x ` ?J = Abs_gf ` set xs - {?x i}"
    using assms(1,2) by (auto simp: set_conv_nth nth_eq_iff_index_eq image_iff)
  finally show ?thesis using gf_div_mul [OF b, of a] by simp
qed

lemma lagrange_loop_sum:
  assumes "distinct xs" "set is \<subseteq> {..<length xs}"
  shows "\<exists>r. lagrange_loop xs ys is s = Some r \<and> Abs_gf r = Abs_gf s + (\<Sum>i\<leftarrow>is. Abs_gf (ys ! i) *
    (\<Prod>y\<in>Abs_gf ` set xs - {Abs_gf (xs ! i)}. (0 - y) / (Abs_gf (xs ! i) - y)))"
  using assms(2)
proof (induction "is" arbitrary: s)
  case (Cons i "is")
  obtain a b where ab: "lagrange_basis xs i = (a, b)" by fastforce
  obtain l where l: "gf_div a b = Some l"
    "Abs_gf l = (\<Prod>y\<in>Abs_gf ` set xs - {Abs_gf (xs ! i)}. (0 - y) / (Abs_gf (xs ! i) - y))"
    using basis_quotient [OF assms(1) _ ab] Cons.prems by auto
  show ?case
    using Cons.IH [of "gf_add s (gf_mul (ys ! i) l)"] Cons.prems ab l by (auto simp: gf_abs add.assoc)
qed simp

text \<open>Interpolating the values of a polynomial with no more coefficients than points gives its constant.\<close>

lemma lagrange_correct:
  assumes "distinct xs" "length (c # cs) \<le> length xs"
  shows "lagrange_interpolate_at_zero xs (map (eval_polynomial (c # cs)) xs) = Some c"
proof -
  let ?p = "peval (map Abs_gf (c # cs))" and ?X = "Abs_gf ` set xs"
  have bij: "bij_betw (\<lambda>i. Abs_gf (xs ! i)) {..<length xs} ?X"
    using assms(1) by (auto simp: bij_betw_def inj_on_def nth_eq_iff_index_eq set_conv_nth image_iff)
  obtain r where r: "lagrange_loop xs (map (eval_polynomial (c # cs)) xs) [0..<length xs] 0 = Some r"
    "Abs_gf r = Abs_gf 0 + (\<Sum>i\<leftarrow>[0..<length xs]. Abs_gf (map (eval_polynomial (c # cs)) xs ! i) *
      (\<Prod>y\<in>?X - {Abs_gf (xs ! i)}. (0 - y) / (Abs_gf (xs ! i) - y)))"
    using lagrange_loop_sum [OF assms(1), of "[0..<length xs]"] by fastforce
  have "Abs_gf r = (\<Sum>i\<in>{..<length xs}. ?p (Abs_gf (xs ! i)) *
      (\<Prod>y\<in>?X - {Abs_gf (xs ! i)}. (0 - y) / (Abs_gf (xs ! i) - y)))"
    unfolding r(2) interv_sum_list_conv_sum_set_nat zero_gf_def [symmetric]
    by (simp add: eval_polynomial_peval atLeast0LessThan del: peval.simps list.map)
  also have "\<dots> = lag ?X ?p 0"
    unfolding lag_def by (rule sum.reindex_bij_betw [OF bij])
  also have "\<dots> = ?p 0"
    using assms by (intro lag_poly) (simp_all add: card_image inj_on_def distinct_card)
  finally have "r = c" by simp
  then show ?thesis using r(1) by (simp add: lagrange_interpolate_at_zero_def)
qed

section \<open>Shares\<close>

text \<open>The bytes of the share with a given index.\<close>

definition share_bytes :: "(nat \<Rightarrow> nat \<Rightarrow> u8) \<Rightarrow> nat \<Rightarrow> nat \<Rightarrow> bytes \<Rightarrow> u8 \<Rightarrow> bytes" where
  "share_bytes fill t k secret x = map (\<lambda>(j, b). eval_polynomial (byte_coefficients fill t j b) x) (enumerate k secret)"

lemma split_loop_eq:
  "t \<noteq> 0 \<Longrightarrow> split_loop fill t k secret shares =
     Some (map (\<lambda>sh. sh\<lparr>sh_data := sh_data sh @ share_bytes fill t k secret (sh_index sh)\<rparr>) shares)"
  by (induction secret arbitrary: k shares) (simp_all add: share_bytes_def o_def)

lemma split_secret_eq:
  assumes "secret \<noteq> []" "sh_threshold config \<noteq> 0"
  shows "split_secret fill secret config = Some (Ok (map (\<lambda>i. \<lparr>sh_index = word_of_nat i,
    sh_data = share_bytes fill (unat (sh_threshold config)) 0 secret (word_of_nat i)\<rparr>) [1..<unat (sh_total_shares config) + 1]))"
proof -
  have "unat (sh_threshold config) \<noteq> 0" using assms(2) by (simp add: unat_eq_0)
  then show ?thesis using assms(1) by (simp add: split_secret_def split_loop_eq o_def)
qed

lemma check_lengths_ok: "\<forall>sh\<in>set shares. length (sh_data sh) = n \<Longrightarrow> check_lengths n shares = Ok ()"
  by (induction shares) auto

lemma check_indices_ok:
  "length seen = 256 \<Longrightarrow> distinct (map sh_index shares) \<Longrightarrow>
   \<forall>sh\<in>set shares. sh_index sh \<noteq> 0 \<and> \<not> seen ! unat (sh_index sh) \<Longrightarrow> check_indices seen shares = Ok ()"
proof (induction shares arbitrary: seen)
  case (Cons sh shares)
  have "seen[unat (sh_index sh) := True] ! unat (sh_index x) = seen ! unat (sh_index x)" if "x \<in> set shares" for x
  proof -
    have "sh_index x \<noteq> sh_index sh" using Cons.prems(2) that by (auto simp: image_iff)
    then have "unat (sh_index x) \<noteq> unat (sh_index sh)" using unsigned_word_eqI by blast
    then show ?thesis by simp
  qed
  then show ?case using Cons by simp
qed simp

lemma recover_loop_eq:
  "(\<And>i. i \<in> set is \<Longrightarrow> lagrange_interpolate_at_zero xs (map (\<lambda>s. sh_data s ! i) shares) = Some (f i)) \<Longrightarrow>
   recover_loop shares xs is acc = Some (acc @ map f is)"
  by (induction "is" arbitrary: acc) (simp_all add: Let_def)

lemma share_bytes_nth:
  "i < length secret \<Longrightarrow> share_bytes fill t 0 secret x ! i = eval_polynomial (byte_coefficients fill t i (secret ! i)) x"
  by (simp add: share_bytes_def nth_enumerate_eq)

lemma length_share_bytes [simp]: "length (share_bytes fill t k secret x) = length secret"
  by (simp add: share_bytes_def)

text \<open>Enough shares with the right bytes recover the secret.\<close>

lemma recover_share_bytes:
  assumes "\<forall>sh\<in>set chosen. sh_index sh \<noteq> 0 \<and> sh_data sh = share_bytes fill t 0 secret (sh_index sh)"
    and "distinct (map sh_index chosen)" "2 \<le> t" "t \<le> length chosen"
  shows "recover_secret chosen = Some (Ok secret)"
proof -
  let ?xs = "map sh_index chosen"
  have len: "length (sh_data sh) = length secret" if "sh \<in> set chosen" for sh using assms(1) that by simp
  have ne: "chosen \<noteq> []" using assms(3,4) by auto
  then have len0: "length (sh_data (chosen ! 0)) = length secret" by (intro len nth_mem) simp
  have "lagrange_interpolate_at_zero ?xs (map (\<lambda>s. sh_data s ! i) chosen) = Some (secret ! i)" if "i < length secret" for i
  proof -
    have "map (\<lambda>s. sh_data s ! i) chosen = map (eval_polynomial (byte_coefficients fill t i (secret ! i))) ?xs"
      using assms(1) that by (simp add: share_bytes_nth)
    then show ?thesis
      using assms(2-4) lagrange_correct [of ?xs "secret ! i" "map (fill i) [0..<t - 1]"]
      by (simp only: byte_coefficients_def) simp
  qed
  then have "recover_loop chosen ?xs [0..<length secret] [] = Some ([] @ map ((!) secret) [0..<length secret])"
    by (intro recover_loop_eq) simp
  moreover have "check_lengths (length secret) (tl chosen) = Ok ()"
    using len ne by (intro check_lengths_ok) (auto dest: list.set_sel(2))
  moreover have "check_indices (replicate 256 False) chosen = Ok ()"
    using assms(1,2) unat_u8_less by (intro check_indices_ok) simp_all
  ultimately show ?thesis
    using assms(3,4) by (simp add: recover_secret_def len0 map_nth Let_def)
qed

text \<open>With the constant known, values at as many nonzero points as there are other coefficients determine these.\<close>

lemma eval_determines:
  assumes "distinct xs" "0 \<notin> set xs" and len: "length cs = length xs" "length ds = length xs"
    and eq: "map (eval_polynomial (c # cs)) xs = map (eval_polynomial (c # ds)) xs"
  shows "cs = ds"
proof -
  let ?p = "peval (map Abs_gf (c # cs))" and ?q = "peval (map Abs_gf (c # ds))" and ?X = "insert 0 (Abs_gf ` set xs)"
  have "0 \<notin> Abs_gf ` set xs" using assms(2) by (auto simp: zero_gf_def)
  moreover have "card (Abs_gf ` set xs) = length xs" using assms(1) by (simp add: card_image inj_on_def distinct_card)
  ultimately have card: "card ?X = Suc (length xs)" by simp
  have "card ?X \<le> card (UNIV :: gf set)" by (rule card_mono [OF card_gf(2)]) simp
  moreover have "card (UNIV :: gf set) = 256" using card_gf by (simp add: card_Diff_singleton)
  ultimately have le: "Suc (length xs) \<le> 256" using card by simp
  have agree: "?p x = ?q x" if "x \<in> ?X" for x
  proof (cases "x = 0")
    case False
    then obtain y where y: "y \<in> set xs" "x = Abs_gf y" using \<open>x \<in> ?X\<close> by blast
    then have "eval_polynomial (c # cs) y = eval_polynomial (c # ds) y" using eq by (simp only: map_eq_conv)
    then show ?thesis unfolding y(2) eval_polynomial_peval [symmetric] by simp
  qed simp
  have lens: "length (map Abs_gf (c # cs)) \<le> card ?X" "length (map Abs_gf (c # ds)) \<le> card ?X"
    unfolding card using len by simp_all
  have "?p z = ?q z" for z by (rule peval_agree [OF _ lens agree]) simp_all
  then have "map Abs_gf (c # cs) = map Abs_gf (c # ds)"
    by (rule peval_unique [rotated 2]) (use len le in simp_all)
  then have "map Abs_gf cs = map Abs_gf ds" by simp
  then show ?thesis by (rule map_injective) (simp add: inj_def)
qed

section \<open>Properties\<close>

text \<open>
  C30. Any threshold of shares recovers the secret: for a valid configuration and a secret that is not
  empty, splitting yields the configured number of distinct shares, whatever the random bytes are,
  and every selection of at least \<open>threshold\<close> of them recovers exactly the secret.
\<close>
theorem shamir_recovers:
  assumes "ShamirConfig_new threshold n = Ok config" and "secret \<noteq> []"
  shows "\<exists>shares. split_secret fill secret config = Some (Ok shares) \<and> length shares = unat n \<and> distinct shares \<and>
    (\<forall>chosen. set chosen \<subseteq> set shares \<and> distinct chosen \<and> unat threshold \<le> length chosen \<longrightarrow>
       recover_secret chosen = Some (Ok secret))"
proof -
  define mk where "mk x = \<lparr>sh_index = x, sh_data = share_bytes fill (unat threshold) 0 secret x\<rparr>" for x
  define ks where "ks = [1..<unat n + 1]"
  let ?shares = "map (\<lambda>i. mk (word_of_nat i)) ks"
  have config: "sh_threshold config = threshold" "sh_total_shares config = n" "\<not> threshold < 2"
    using assms(1) by (auto simp: ShamirConfig_new_def split: if_splits)
  then have t: "2 \<le> unat threshold" "threshold \<noteq> 0" by (auto simp: word_less_nat_alt not_less)
  have split: "split_secret fill secret config = Some (Ok ?shares)"
    using split_secret_eq [OF assms(2), of config fill] t(2) config(1,2) by (simp only: mk_def ks_def) simp
  have ks: "unat (word_of_nat i :: u8) = i \<and> i \<noteq> 0" if "i \<in> set ks" for i
    using that unat_u8_less [of n] by (auto simp: unat_of_nat ks_def)
  have mk: "mk x = mk y \<longleftrightarrow> x = y" for x y by (auto simp: mk_def)
  have "inj_on (\<lambda>i. mk (word_of_nat i)) (set ks)"
    unfolding inj_on_def mk using ks by metis
  then have dist: "distinct ?shares" by (simp add: distinct_map) (simp add: ks_def)
  have sh: "sh = mk (sh_index sh) \<and> sh_index sh \<noteq> 0" if member: "sh \<in> set ?shares" for sh
  proof -
    obtain i where i: "i \<in> set ks" "sh = mk (word_of_nat i)" using member by auto
    then have "sh_index sh = word_of_nat i" "unat (word_of_nat i :: u8) \<noteq> 0" using ks [OF i(1)] by (simp_all add: mk_def)
    then show ?thesis using i(2) by (metis unat_0)
  qed
  have "recover_secret chosen = Some (Ok secret)"
    if chosen: "set chosen \<subseteq> set ?shares" "distinct chosen" "unat threshold \<le> length chosen" for chosen
  proof (rule recover_share_bytes [OF _ _ t(1) chosen(3)])
    have c: "s = mk (sh_index s) \<and> sh_index s \<noteq> 0" if "s \<in> set chosen" for s using sh chosen(1) that by blast
    then show "\<forall>s\<in>set chosen. sh_index s \<noteq> 0 \<and> sh_data s = share_bytes fill (unat threshold) 0 secret (sh_index s)"
      unfolding mk_def by (metis Share.select_convs(2))
    have "inj_on sh_index (set chosen)" by (rule inj_onI) (metis c)
    then show "distinct (map sh_index chosen)" using chosen(2) by (simp add: distinct_map)
  qed
  then show ?thesis using split dist by (intro exI [of _ ?shares]) (simp add: ks_def)
qed


section \<open>Witnesses\<close>

theorem shamir_recovers_witness:
  "\<exists>config shares. ShamirConfig_new 2 3 = Ok config \<and> split_secret (\<lambda>k j. word_of_nat (k + 5)) [1, 2, 3] config = Some (Ok shares) \<and>
     recover_secret (drop 1 shares) = Some (Ok [1, 2, 3])"
proof -
  have c: "ShamirConfig_new 2 3 = Ok \<lparr>sh_threshold = 2, sh_total_shares = 3\<rparr>" by (simp add: ShamirConfig_new_def)
  obtain shares where s: "split_secret (\<lambda>k j. word_of_nat (k + 5)) [1, 2, 3] \<lparr>sh_threshold = 2, sh_total_shares = 3\<rparr> = Some (Ok shares)"
    "length shares = 3" "distinct shares"
    "\<forall>chosen. set chosen \<subseteq> set shares \<and> distinct chosen \<and> unat (2 :: u8) \<le> length chosen \<longrightarrow>
       recover_secret chosen = Some (Ok [1, 2, 3])"
    using shamir_recovers [OF c, of "[1, 2, 3]" "\<lambda>k j. word_of_nat (k + 5)"] by auto
  have "recover_secret (drop 1 shares) = Some (Ok [1, 2, 3])"
    using s(2,3) s(4) [rule_format, of "drop 1 shares"] set_drop_subset [of 1 shares] by simp
  then show ?thesis using c s(1) by blast
qed


end
