(* ===== verification/Zkp.thy ===== *)
theory Zkp
  imports Complex_Main Transactions
begin

text \<open>
  Balance proofs: \<open>protocol/src/zkp/commitment.rs\<close>, \<open>zkp/circuit.rs\<close>, \<open>zkp/prover.rs\<close>,
  \<open>zkp/verifier.rs\<close>, the constant of \<open>zkp/mod.rs\<close>, and the confidential transfers of
  \<open>transaction/confidential.rs\<close>.

  The arkworks crates (the BN254 scalar field and curve, the constraint systems and gadgets of
  \<open>ark-r1cs-std\<close>, \<open>ark-groth16\<close>, \<open>ark-serialize\<close>) are the record \<open>ark\<close>, an argument of the
  definitions that call them. \<open>'f\<close> is \<open>Fr\<close>, any field; \<open>'g\<close> the group of curve points, in which
  affine and projective form are the same point; \<open>'c\<close> a constraint system, \<open>'v\<close> and \<open>'b\<close> the
  gadget types \<open>FpVar\<close> and \<open>Boolean\<close>; \<open>'k\<close> and \<open>'l\<close> the proving and the verification key, \<open>'p\<close>
  a Groth16 proof. The last five fields observe a system: the number of its public inputs and
  witnesses, the values assigned to them, and whether its constraints hold of two given
  vectors. \<open>ark_ok\<close> collects what these crates document. A random choice is an argument; a
  \<open>debug_assert!\<close> is not modelled (it is not compiled into a release build).
\<close>

section \<open>The arkworks crates\<close>

datatype SynthesisError = AssignmentMissing | OtherSynthesisError string

record ('f, 'g) PedersenParams =
  pp_g :: 'g
  pp_h :: 'g
  pp_g_scalar :: 'f
  pp_h_scalar :: 'f

record ('f, 'g) Commitment =
  cm_point :: 'g
  cm_scalar :: 'f

record ('f, 'g, 'c, 'v, 'b, 'k, 'l, 'p) ark =
  a_fr_from :: "u64 \<Rightarrow> 'f"
  a_into_bigint :: "'f \<Rightarrow> u64 list"
  a_g1_mul :: "'g \<Rightarrow> 'f \<Rightarrow> 'g"
  a_new_cs :: "bool \<Rightarrow> 'c"
  a_new_input :: "'c \<Rightarrow> ('f, SynthesisError) result \<Rightarrow> ('c \<times> 'v, SynthesisError) result"
  a_new_witness :: "'c \<Rightarrow> ('f, SynthesisError) result \<Rightarrow> ('c \<times> 'v, SynthesisError) result"
  a_new_boolean :: "'c \<Rightarrow> (bool, SynthesisError) result \<Rightarrow> ('c \<times> 'b, SynthesisError) result"
  a_constant :: "'f \<Rightarrow> 'v"
  a_from_boolean :: "'b \<Rightarrow> 'v"
  a_add :: "'v \<Rightarrow> 'v \<Rightarrow> 'v"
  a_sub :: "'v \<Rightarrow> 'v \<Rightarrow> 'v"
  a_mul :: "'v \<Rightarrow> 'v \<Rightarrow> 'v"
  a_enforce_equal :: "'c \<Rightarrow> 'v \<Rightarrow> 'v \<Rightarrow> ('c, SynthesisError) result"
  a_setup :: "'c \<Rightarrow> ('k \<times> 'l, string) result"
  a_prove :: "'k \<Rightarrow> 'c \<Rightarrow> nat \<Rightarrow> ('p, string) result"
  a_verify :: "'l \<Rightarrow> 'f list \<Rightarrow> 'p \<Rightarrow> (bool, string) result"
  a_proof_ser :: "'p \<Rightarrow> (bytes, string) result"
  a_proof_de :: "bytes \<Rightarrow> ('p, string) result"
  a_comm_ser :: "('f, 'g) Commitment \<Rightarrow> (bytes, string) result"
  a_comm_de :: "bytes \<Rightarrow> (('f, 'g) Commitment, string) result"
  a_params_ser :: "('f, 'g) PedersenParams \<Rightarrow> (bytes, string) result"
  a_params_de :: "bytes \<Rightarrow> (('f, 'g) PedersenParams, string) result"
  a_vk_ser :: "'l \<Rightarrow> (bytes, string) result"
  a_vk_de :: "bytes \<Rightarrow> ('l, string) result"
  a_is_const :: "'v \<Rightarrow> bool"
  a_value :: "'v \<Rightarrow> 'f list \<Rightarrow> 'f list \<Rightarrow> 'f"
  a_sizes :: "'c \<Rightarrow> nat \<times> nat"
  a_assigned :: "'c \<Rightarrow> 'f list \<times> 'f list"
  a_setup_mode :: "'c \<Rightarrow> bool"
  a_holds :: "'c \<Rightarrow> 'f list \<Rightarrow> 'f list \<Rightarrow> bool"

section \<open>Pedersen commitments (zkp/commitment.rs)\<close>

text \<open>The random draws of \<open>setup\<close> are its arguments, in the order of the calls.\<close>

definition PedersenParams_setup :: "'g \<Rightarrow> 'g \<Rightarrow> 'f \<Rightarrow> 'f \<Rightarrow> ('f, 'g) PedersenParams" where
  "PedersenParams_setup g h gs hs = \<lparr>pp_g = g, pp_h = h, pp_g_scalar = gs, pp_h_scalar = hs\<rparr>"

text \<open>\<open>expect\<close> panics when the serialiser fails.\<close>

definition PedersenParams_to_bytes ::
  "('f, 'g, 'c, 'v, 'b, 'k, 'l, 'p) ark \<Rightarrow> ('f, 'g) PedersenParams \<Rightarrow> bytes option" where
  "PedersenParams_to_bytes A ps = (case a_params_ser A ps of Ok b \<Rightarrow> Some b | Err _ \<Rightarrow> None)"

definition PedersenParams_from_bytes ::
  "('f, 'g, 'c, 'v, 'b, 'k, 'l, 'p) ark \<Rightarrow> bytes \<Rightarrow> (('f, 'g) PedersenParams, string) result" where
  "PedersenParams_from_bytes A data = a_params_de A data"

definition commit ::
  "('f::field, 'g::ab_group_add, 'c, 'v, 'b, 'k, 'l, 'p) ark \<Rightarrow> ('f, 'g) PedersenParams \<Rightarrow> u64 \<Rightarrow> 'f
   \<Rightarrow> ('f, 'g) Commitment" where
  "commit A ps value blinding =
     (let v = a_fr_from A value;
          point = a_g1_mul A (pp_g ps) v + a_g1_mul A (pp_h ps) blinding;
          scalar = v * pp_g_scalar ps + blinding * pp_h_scalar ps
      in \<lparr>cm_point = point, cm_scalar = scalar\<rparr>)"

definition verify_commitment ::
  "('f::field, 'g::ab_group_add, 'c, 'v, 'b, 'k, 'l, 'p) ark \<Rightarrow> ('f, 'g) PedersenParams \<Rightarrow>
   ('f, 'g) Commitment \<Rightarrow> u64 \<Rightarrow> 'f \<Rightarrow> bool" where
  "verify_commitment A ps comm value blinding =
     (let expected = commit A ps value blinding
      in cm_point comm = cm_point expected \<and> cm_scalar comm = cm_scalar expected)"

definition Commitment_to_bytes ::
  "('f, 'g, 'c, 'v, 'b, 'k, 'l, 'p) ark \<Rightarrow> ('f, 'g) Commitment \<Rightarrow> bytes option" where
  "Commitment_to_bytes A cm = (case a_comm_ser A cm of Ok b \<Rightarrow> Some b | Err _ \<Rightarrow> None)"

definition Commitment_from_bytes ::
  "('f, 'g, 'c, 'v, 'b, 'k, 'l, 'p) ark \<Rightarrow> bytes \<Rightarrow> (('f, 'g) Commitment, string) result" where
  "Commitment_from_bytes A data = a_comm_de A data"

section \<open>The circuit (zkp/circuit.rs)\<close>

definition RANGE_BITS :: nat where
  "RANGE_BITS = 64"

record 'f BalanceProofCircuit =
  bc_g_scalar :: 'f
  bc_h_scalar :: 'f
  bc_balance :: "'f option"
  bc_blinding :: "'f option"
  bc_commitment_scalar :: "'f option"
  bc_required_amount :: "'f option"

definition BalanceProofCircuit_new ::
  "('f, 'g, 'c, 'v, 'b, 'k, 'l, 'p) ark \<Rightarrow> ('f, 'g) PedersenParams \<Rightarrow> u64 \<Rightarrow> 'f \<Rightarrow>
   ('f, 'g) Commitment \<Rightarrow> u64 \<Rightarrow> 'f BalanceProofCircuit" where
  "BalanceProofCircuit_new A ps balance blinding comm required_amount =
     \<lparr>bc_g_scalar = pp_g_scalar ps, bc_h_scalar = pp_h_scalar ps,
      bc_balance = Some (a_fr_from A balance), bc_blinding = Some blinding,
      bc_commitment_scalar = Some (cm_scalar comm),
      bc_required_amount = Some (a_fr_from A required_amount)\<rparr>"

definition BalanceProofCircuit_blank ::
  "('f, 'g) PedersenParams \<Rightarrow> 'f BalanceProofCircuit" where
  "BalanceProofCircuit_blank ps =
     \<lparr>bc_g_scalar = pp_g_scalar ps, bc_h_scalar = pp_h_scalar ps, bc_balance = None,
      bc_blinding = None, bc_commitment_scalar = None, bc_required_amount = None\<rparr>"

definition ok_or :: "'a option \<Rightarrow> 'e \<Rightarrow> ('a, 'e) result" where
  "ok_or x e = (case x of Some a \<Rightarrow> Ok a | None \<Rightarrow> Err e)"

text \<open>The bits of the limbs, least significant first; \<open>take\<close> keeps the first 64.\<close>

definition limb_bits :: "u64 \<Rightarrow> bool list" where
  "limb_bits limb = map (\<lambda>i. bit limb i) [0..<64]"

definition delta_to_bits ::
  "('f::field, 'g, 'c, 'v, 'b, 'k, 'l, 'p) ark \<Rightarrow> 'f option \<Rightarrow> 'f option \<Rightarrow> bool list option" where
  "delta_to_bits A balance amount =
     (case balance of None \<Rightarrow> None | Some b \<Rightarrow>
      case amount of None \<Rightarrow> None | Some a \<Rightarrow>
        let delta = b - a; bigint = a_into_bigint A delta
        in Some (take RANGE_BITS (concat (map limb_bits bigint))))"

text \<open>
  The loop over the bit positions: it allocates one Boolean per position and carries the
  reconstructed value and the power of two. \<open>bits\<close> has 64 elements, since a \<open>BigInt\<close> of \<open>Fr\<close> is
  an array of four limbs, so \<open>bits[i]\<close> is always in range.
\<close>

primrec range_loop ::
  "('f::field, 'g, 'c, 'v, 'b, 'k, 'l, 'p) ark \<Rightarrow> bool list option \<Rightarrow> 'v \<Rightarrow> nat \<Rightarrow>
   'c \<Rightarrow> 'v \<Rightarrow> 'v \<Rightarrow> ('c \<times> 'v, SynthesisError) result" where
  "range_loop A delta_bits two 0 cs reconstructed power_of_two = Ok (cs, reconstructed)"
| "range_loop A delta_bits two (Suc n) cs reconstructed power_of_two =
     (let i = RANGE_BITS - Suc n in
      case a_new_boolean A cs (ok_or (map_option (\<lambda>bits. bits ! i) delta_bits) AssignmentMissing) of
        Err e \<Rightarrow> Err e
      | Ok (cs1, b) \<Rightarrow>
          range_loop A delta_bits two n cs1
            (a_add A reconstructed (a_mul A (a_from_boolean A b) power_of_two))
            (a_mul A power_of_two two))"

definition generate_constraints ::
  "('f::field, 'g, 'c, 'v, 'b, 'k, 'l, 'p) ark \<Rightarrow> 'f BalanceProofCircuit \<Rightarrow> 'c
   \<Rightarrow> ('c, SynthesisError) result" where
  "generate_constraints A self cs =
     (case a_new_input A cs (ok_or (bc_commitment_scalar self) AssignmentMissing) of
        Err e \<Rightarrow> Err e
      | Ok (cs1, commitment_var) \<Rightarrow>
      case a_new_input A cs1 (ok_or (bc_required_amount self) AssignmentMissing) of
        Err e \<Rightarrow> Err e
      | Ok (cs2, required_amount_var) \<Rightarrow>
      case a_new_witness A cs2 (ok_or (bc_balance self) AssignmentMissing) of
        Err e \<Rightarrow> Err e
      | Ok (cs3, balance_var) \<Rightarrow>
      case a_new_witness A cs3 (ok_or (bc_blinding self) AssignmentMissing) of
        Err e \<Rightarrow> Err e
      | Ok (cs4, blinding_var) \<Rightarrow>
      let g_var = a_constant A (bc_g_scalar self);
          h_var = a_constant A (bc_h_scalar self);
          computed = a_add A (a_mul A balance_var g_var) (a_mul A blinding_var h_var)
      in case a_enforce_equal A cs4 computed commitment_var of
        Err e \<Rightarrow> Err e
      | Ok cs5 \<Rightarrow>
      let delta_var = a_sub A balance_var required_amount_var;
          delta_bits = delta_to_bits A (bc_balance self) (bc_required_amount self);
          two = a_constant A (a_fr_from A 2)
      in case range_loop A delta_bits two RANGE_BITS cs5 (a_constant A 0) (a_constant A 1) of
        Err e \<Rightarrow> Err e
      | Ok (cs6, reconstructed) \<Rightarrow> a_enforce_equal A cs6 reconstructed delta_var)"

definition public_inputs ::
  "('f, 'g, 'c, 'v, 'b, 'k, 'l, 'p) ark \<Rightarrow> ('f, 'g) Commitment \<Rightarrow> u64 \<Rightarrow> 'f list" where
  "public_inputs A comm required_amount = [cm_scalar comm, a_fr_from A required_amount]"

section \<open>Prover and verifier (zkp/prover.rs, zkp/verifier.rs)\<close>

record ('f, 'g, 'k) BalanceProver =
  bp_pk :: 'k
  bp_params :: "('f, 'g) PedersenParams"

record ('f, 'g, 'l) BalanceVerifier =
  bv_vk :: 'l
  bv_params :: "('f, 'g) PedersenParams"

record BalanceProof =
  bpf_bytes :: bytes

text \<open>
  \<open>Groth16::circuit_specific_setup\<close> and \<open>Groth16::prove\<close> let the circuit generate its
  constraints on a fresh system, in setup or in proving mode.
\<close>

definition circuit_specific_setup ::
  "('f::field, 'g, 'c, 'v, 'b, 'k, 'l, 'p) ark \<Rightarrow> 'f BalanceProofCircuit \<Rightarrow> ('k \<times> 'l, string) result" where
  "circuit_specific_setup A circuit =
     (case generate_constraints A circuit (a_new_cs A True) of
        Err _ \<Rightarrow> Err ''synthesis''
      | Ok cs \<Rightarrow> a_setup A cs)"

definition groth16_prove ::
  "('f::field, 'g, 'c, 'v, 'b, 'k, 'l, 'p) ark \<Rightarrow> 'k \<Rightarrow> 'f BalanceProofCircuit \<Rightarrow> nat \<Rightarrow>
   ('p, string) result" where
  "groth16_prove A pk circuit rng =
     (case generate_constraints A circuit (a_new_cs A False) of
        Err _ \<Rightarrow> Err ''synthesis''
      | Ok cs \<Rightarrow> a_prove A pk cs rng)"

definition BalanceVerifier_from_vk :: "'l \<Rightarrow> ('f, 'g) PedersenParams \<Rightarrow> ('f, 'g, 'l) BalanceVerifier" where
  "BalanceVerifier_from_vk vk ps = \<lparr>bv_vk = vk, bv_params = ps\<rparr>"

definition BalanceProver_setup ::
  "('f::field, 'g, 'c, 'v, 'b, 'k, 'l, 'p) ark \<Rightarrow> 'g \<Rightarrow> 'g \<Rightarrow> 'f \<Rightarrow> 'f \<Rightarrow>
   (('f, 'g, 'k) BalanceProver \<times> ('f, 'g, 'l) BalanceVerifier) option" where
  "BalanceProver_setup A g h gs hs =
     (let params = PedersenParams_setup g h gs hs;
          blank_circuit = BalanceProofCircuit_blank params
      in case circuit_specific_setup A blank_circuit of
           Err _ \<Rightarrow> None
         | Ok (pk, vk) \<Rightarrow>
             Some (\<lparr>bp_pk = pk, bp_params = params\<rparr>, BalanceVerifier_from_vk vk params))"

definition BalanceProver_prove ::
  "('f::field, 'g, 'c, 'v, 'b, 'k, 'l, 'p) ark \<Rightarrow> nat \<Rightarrow> ('f, 'g, 'k) BalanceProver \<Rightarrow> u64 \<Rightarrow> 'f \<Rightarrow> u64
   \<Rightarrow> ('f, 'g) PedersenParams \<Rightarrow> ('f, 'g) Commitment \<Rightarrow> (BalanceProof, string) result" where
  "BalanceProver_prove A rng self balance blinding required_amount ps comm =
     (let circuit = BalanceProofCircuit_new A ps balance blinding comm required_amount in
      case groth16_prove A (bp_pk self) circuit rng of
        Err _ \<Rightarrow> Err ''Groth16 proof generation failed (witness likely unsatisfiable)''
      | Ok proof \<Rightarrow>
          (case a_proof_ser A proof of
             Err _ \<Rightarrow> Err ''proof serialization failed''
           | Ok b \<Rightarrow> Ok \<lparr>bpf_bytes = b\<rparr>))"

definition BalanceProof_to_bytes :: "BalanceProof \<Rightarrow> bytes" where
  "BalanceProof_to_bytes proof = bpf_bytes proof"

definition BalanceProof_try_from_bytes ::
  "('f, 'g, 'c, 'v, 'b, 'k, 'l, 'p) ark \<Rightarrow> bytes \<Rightarrow> (BalanceProof, string) result" where
  "BalanceProof_try_from_bytes A data =
     (case a_proof_de A data of
        Err _ \<Rightarrow> Err ''invalid Groth16 proof bytes''
      | Ok _ \<Rightarrow> Ok \<lparr>bpf_bytes = data\<rparr>)"

definition BalanceProof_to_ark_proof ::
  "('f, 'g, 'c, 'v, 'b, 'k, 'l, 'p) ark \<Rightarrow> BalanceProof \<Rightarrow> ('p, string) result" where
  "BalanceProof_to_ark_proof A proof =
     (case a_proof_de A (bpf_bytes proof) of
        Err e \<Rightarrow> Err (''proof deserialization failed: '' @ e)
      | Ok p \<Rightarrow> Ok p)"

definition BalanceProof_size :: "BalanceProof \<Rightarrow> nat" where
  "BalanceProof_size proof = length (bpf_bytes proof)"

definition BalanceVerifier_verify ::
  "('f::field, 'g, 'c, 'v, 'b, 'k, 'l, 'p) ark \<Rightarrow> ('f, 'g, 'l) BalanceVerifier \<Rightarrow> BalanceProof \<Rightarrow>
   ('f, 'g) Commitment \<Rightarrow> u64 \<Rightarrow> ('f, 'g) PedersenParams \<Rightarrow> (bool, string) result" where
  "BalanceVerifier_verify A self proof comm required_amount ps =
     (case BalanceProof_to_ark_proof A proof of
        Err _ \<Rightarrow> Err ''failed to deserialize proof''
      | Ok ark_proof \<Rightarrow>
          (case a_verify A (bv_vk self) (public_inputs A comm required_amount) ark_proof of
             Err _ \<Rightarrow> Err ''Groth16 verification algorithm failed''
           | Ok valid \<Rightarrow> Ok valid))"

definition BalanceVerifier_vk_to_bytes ::
  "('f, 'g, 'c, 'v, 'b, 'k, 'l, 'p) ark \<Rightarrow> ('f, 'g, 'l) BalanceVerifier \<Rightarrow> bytes option" where
  "BalanceVerifier_vk_to_bytes A self =
     (case a_vk_ser A (bv_vk self) of Ok b \<Rightarrow> Some b | Err _ \<Rightarrow> None)"

definition BalanceVerifier_vk_from_bytes ::
  "('f, 'g, 'c, 'v, 'b, 'k, 'l, 'p) ark \<Rightarrow> bytes \<Rightarrow> ('f, 'g) PedersenParams \<Rightarrow>
   (('f, 'g, 'l) BalanceVerifier, string) result" where
  "BalanceVerifier_vk_from_bytes A data ps =
     (case a_vk_de A data of
        Err _ \<Rightarrow> Err ''failed to deserialize verification key''
      | Ok vk \<Rightarrow> Ok \<lparr>bv_vk = vk, bv_params = ps\<rparr>)"

section \<open>Confidential transfers (transaction/confidential.rs)\<close>

definition create_confidential_transfer ::
  "crypto \<Rightarrow> ('f::field, 'g::ab_group_add, 'c, 'v, 'b, 'k, 'l, 'p) ark \<Rightarrow> nat \<Rightarrow> u64 \<Rightarrow> string \<Rightarrow> string
   \<Rightarrow> u64 \<Rightarrow> 'f \<Rightarrow> ('f, 'g, 'k) BalanceProver \<Rightarrow> (Transaction, string) result option" where
  "create_confidential_transfer C A rng now_ms sender receiver amount blinding prover =
     (let params = bp_params prover;
          comm = commit A params amount blinding
      in case BalanceProver_prove A rng prover amount blinding amount params comm of
           Err e \<Rightarrow> Some (Err e)
         | Ok proof \<Rightarrow>
             (case Commitment_to_bytes A comm of
                None \<Rightarrow> None
              | Some commitment_bytes \<Rightarrow>
                  let b0 = TransactionBuilder_new ConfidentialTransfer;
                      b1 = TransactionBuilder_sender b0 sender;
                      b2 = TransactionBuilder_receiver b1 receiver;
                      b3 = TransactionBuilder_amount b2 (Amount_new amount NOVA);
                      b4 = TransactionBuilder_nonce (TransactionBuilder_fee b3 0) 1;
                      tx = with_commitment C
                             (with_proof C (TransactionBuilder_build C now_ms b4)
                                (BalanceProof_to_bytes proof)) commitment_bytes
                  in Some (Ok tx)))"

definition verify_confidential_proof ::
  "('f::field, 'g, 'c, 'v, 'b, 'k, 'l, 'p) ark \<Rightarrow> Transaction \<Rightarrow> ('f, 'g, 'l) BalanceVerifier
   \<Rightarrow> (bool, string) result" where
  "verify_confidential_proof A tx verifier =
     (case tx_proof tx of
        None \<Rightarrow> Err ''transaction has no proof''
      | Some proof_bytes \<Rightarrow>
      case tx_amount_commitment tx of
        None \<Rightarrow> Err ''transaction has no amount commitment''
      | Some commitment_bytes \<Rightarrow>
      case BalanceProof_try_from_bytes A proof_bytes of
        Err e \<Rightarrow> Err e
      | Ok proof \<Rightarrow>
      case Commitment_from_bytes A commitment_bytes of
        Err e \<Rightarrow> Err (''commitment deserialization failed: '' @ e)
      | Ok comm \<Rightarrow>
          BalanceVerifier_verify A verifier proof comm (amt_value (tx_amount tx)) (bv_params verifier))"

section \<open>What the arkworks crates promise\<close>

text \<open>
  \<open>Fr\<close>: conversion from \<open>u64\<close> is the canonical one, numbers below \<open>2\<close> to the power \<open>65\<close> are
  distinct in it (its order has 254 bits) and are represented by their four limbs.
\<close>

definition fr_ok :: "('f::field, 'g, 'c, 'v, 'b, 'k, 'l, 'p) ark \<Rightarrow> bool" where
  "fr_ok A \<longleftrightarrow>
     (\<forall>v. a_fr_from A v = of_nat (unat v)) \<and>
     (\<forall>a<2 ^ 65. \<forall>b<2 ^ 65. of_nat a = (of_nat b :: 'f) \<longrightarrow> a = b) \<and>
     (\<forall>n<2 ^ 65. a_into_bigint A (of_nat n) = map (\<lambda>i. word_of_nat (n div 2 ^ (64 * i))) [0..<4]) \<and>
     (\<forall>x. length (a_into_bigint A x) = 4)"

text \<open>
  Allocation: a fresh variable reads the next entry of its vector and adds no constraint, a
  Boolean also adds its booleanity constraint. In setup mode the value is not asked for; in
  proving mode it is appended to the assignment, and an error of the value is returned.
\<close>

definition input_ok :: "('f::field, 'g, 'c, 'v, 'b, 'k, 'l, 'p) ark \<Rightarrow> 'c \<Rightarrow>
    ('f, SynthesisError) result \<Rightarrow> bool" where
  "input_ok A cs r \<longleftrightarrow>
     (\<forall>e. \<not> a_setup_mode A cs \<and> r = Err e \<longrightarrow> a_new_input A cs r = Err e) \<and>
     (a_setup_mode A cs \<or> is_ok r \<longrightarrow>
        (\<exists>cs' x. a_new_input A cs r = Ok (cs', x) \<and> a_setup_mode A cs' = a_setup_mode A cs \<and>
           a_sizes A cs' = (fst (a_sizes A cs) + 1, snd (a_sizes A cs)) \<and>
           a_holds A cs' = a_holds A cs \<and> \<not> a_is_const A x \<and>
           a_value A x = (\<lambda>i w. i ! fst (a_sizes A cs)) \<and>
           (\<forall>a. \<not> a_setup_mode A cs \<and> r = Ok a \<longrightarrow>
              a_assigned A cs' = (fst (a_assigned A cs) @ [a], snd (a_assigned A cs)))))"

definition witness_ok :: "('f::field, 'g, 'c, 'v, 'b, 'k, 'l, 'p) ark \<Rightarrow> 'c \<Rightarrow>
    ('f, SynthesisError) result \<Rightarrow> bool" where
  "witness_ok A cs r \<longleftrightarrow>
     (\<forall>e. \<not> a_setup_mode A cs \<and> r = Err e \<longrightarrow> a_new_witness A cs r = Err e) \<and>
     (a_setup_mode A cs \<or> is_ok r \<longrightarrow>
        (\<exists>cs' x. a_new_witness A cs r = Ok (cs', x) \<and> a_setup_mode A cs' = a_setup_mode A cs \<and>
           a_sizes A cs' = (fst (a_sizes A cs), snd (a_sizes A cs) + 1) \<and>
           a_holds A cs' = a_holds A cs \<and> \<not> a_is_const A x \<and>
           a_value A x = (\<lambda>i w. w ! snd (a_sizes A cs)) \<and>
           (\<forall>a. \<not> a_setup_mode A cs \<and> r = Ok a \<longrightarrow>
              a_assigned A cs' = (fst (a_assigned A cs), snd (a_assigned A cs) @ [a]))))"

definition boolean_ok :: "('f::field, 'g, 'c, 'v, 'b, 'k, 'l, 'p) ark \<Rightarrow> 'c \<Rightarrow>
    (bool, SynthesisError) result \<Rightarrow> bool" where
  "boolean_ok A cs r \<longleftrightarrow>
     (\<forall>e. \<not> a_setup_mode A cs \<and> r = Err e \<longrightarrow> a_new_boolean A cs r = Err e) \<and>
     (a_setup_mode A cs \<or> is_ok r \<longrightarrow>
        (\<exists>cs' x. a_new_boolean A cs r = Ok (cs', x) \<and> a_setup_mode A cs' = a_setup_mode A cs \<and>
           a_sizes A cs' = (fst (a_sizes A cs), snd (a_sizes A cs) + 1) \<and>
           (\<forall>i w. a_holds A cs' i w \<longleftrightarrow>
              a_holds A cs i w \<and> w ! snd (a_sizes A cs) \<in> {0, 1}) \<and>
           a_value A (a_from_boolean A x) = (\<lambda>i w. w ! snd (a_sizes A cs)) \<and>
           (\<forall>a. \<not> a_setup_mode A cs \<and> r = Ok a \<longrightarrow>
              a_assigned A cs' = (fst (a_assigned A cs), snd (a_assigned A cs) @ [of_bool a]))))"

text \<open>
  Arithmetic on variables computes in the field; a product with a constant is linear and needs
  no constraint. Equating with a variable adds one constraint and nothing else.
\<close>

definition gadgets_ok :: "('f::field, 'g, 'c, 'v, 'b, 'k, 'l, 'p) ark \<Rightarrow> bool" where
  "gadgets_ok A \<longleftrightarrow>
     (\<forall>a. a_is_const A (a_constant A a) \<and> a_value A (a_constant A a) = (\<lambda>i w. a)) \<and>
     (\<forall>x y. a_value A (a_add A x y) = (\<lambda>i w. a_value A x i w + a_value A y i w)) \<and>
     (\<forall>x y. a_value A (a_sub A x y) = (\<lambda>i w. a_value A x i w - a_value A y i w)) \<and>
     (\<forall>x y. \<not> a_is_const A x \<longrightarrow> \<not> a_is_const A (a_sub A x y)) \<and>
     (\<forall>x y. a_is_const A y \<longrightarrow>
        a_value A (a_mul A x y) = (\<lambda>i w. a_value A x i w * a_value A y i w)) \<and>
     (\<forall>x y. a_is_const A x \<and> a_is_const A y \<longrightarrow> a_is_const A (a_mul A x y)) \<and>
     (\<forall>cs x y. \<not> a_is_const A y \<longrightarrow>
        (\<exists>cs'. a_enforce_equal A cs x y = Ok cs' \<and> a_setup_mode A cs' = a_setup_mode A cs \<and>
           a_sizes A cs' = a_sizes A cs \<and> a_assigned A cs' = a_assigned A cs \<and>
           (\<forall>i w. a_holds A cs' i w \<longleftrightarrow> a_holds A cs i w \<and> a_value A x i w = a_value A y i w)))"

definition r1cs_ok :: "('f::field, 'g, 'c, 'v, 'b, 'k, 'l, 'p) ark \<Rightarrow> bool" where
  "r1cs_ok A \<longleftrightarrow>
     (\<forall>m. a_setup_mode A (a_new_cs A m) = m \<and> a_sizes A (a_new_cs A m) = (0, 0) \<and>
        a_assigned A (a_new_cs A m) = ([], []) \<and> a_holds A (a_new_cs A m) = (\<lambda>i w. True)) \<and>
     (\<forall>cs r. input_ok A cs r) \<and> (\<forall>cs r. witness_ok A cs r) \<and> (\<forall>cs r. boolean_ok A cs r) \<and>
     gadgets_ok A"

text \<open>
  Completeness of Groth16: keys made for a system prove and verify every satisfied assignment
  of a system with the same constraints. The serialisers are inverted by the deserialisers.
\<close>

definition groth16_complete :: "('f::field, 'g, 'c, 'v, 'b, 'k, 'l, 'p) ark \<Rightarrow> bool" where
  "groth16_complete A \<longleftrightarrow>
     (\<forall>cs0 cs pk vk rng i w.
        a_setup A cs0 = Ok (pk, vk) \<and> \<not> a_setup_mode A cs \<and> a_sizes A cs = a_sizes A cs0 \<and>
        a_holds A cs = a_holds A cs0 \<and> a_assigned A cs = (i, w) \<and> a_holds A cs i w \<longrightarrow>
        (\<exists>p. a_prove A pk cs rng = Ok p \<and> a_verify A vk i p = Ok True))"

definition ark_codec_ok :: "('f, 'g, 'c, 'v, 'b, 'k, 'l, 'p) ark \<Rightarrow> bool" where
  "ark_codec_ok A \<longleftrightarrow>
     (\<forall>p. \<exists>b. a_proof_ser A p = Ok b \<and> a_proof_de A b = Ok p) \<and>
     (\<forall>c. \<exists>b. a_comm_ser A c = Ok b \<and> a_comm_de A b = Ok c)"

section \<open>The constraints of the circuit\<close>

lemma r1cs_okD:
  assumes "r1cs_ok A"
  shows "input_ok A cs r" "witness_ok A cs r" "boolean_ok A cs rb" "gadgets_ok A"
    "a_setup_mode A (a_new_cs A m) = m" "a_sizes A (a_new_cs A m) = (0, 0)"
    "a_assigned A (a_new_cs A m) = ([], [])" "a_holds A (a_new_cs A m) = (\<lambda>i w. True)"
  using assms by (auto simp: r1cs_ok_def)

lemma gadgetsD:
  assumes "gadgets_ok A"
  shows "a_is_const A (a_constant A a)" "a_value A (a_constant A a) = (\<lambda>i w. a)"
    "a_value A (a_add A x y) = (\<lambda>i w. a_value A x i w + a_value A y i w)"
    "a_value A (a_sub A x y) = (\<lambda>i w. a_value A x i w - a_value A y i w)"
    "\<not> a_is_const A x \<Longrightarrow> \<not> a_is_const A (a_sub A x y)"
    "a_is_const A y \<Longrightarrow> a_value A (a_mul A x y) = (\<lambda>i w. a_value A x i w * a_value A y i w)"
    "a_is_const A x \<Longrightarrow> a_is_const A y \<Longrightarrow> a_is_const A (a_mul A x y)"
  using assms by (auto simp: gadgets_ok_def)

lemma enforce_equalE:
  assumes "gadgets_ok A" and "\<not> a_is_const A y"
  obtains cs' where "a_enforce_equal A cs x y = Ok cs'" "a_setup_mode A cs' = a_setup_mode A cs"
    "a_sizes A cs' = a_sizes A cs" "a_assigned A cs' = a_assigned A cs"
    "\<And>i w. a_holds A cs' i w \<longleftrightarrow> a_holds A cs i w \<and> a_value A x i w = a_value A y i w"
proof -
  have "\<exists>cs'. a_enforce_equal A cs x y = Ok cs' \<and> a_setup_mode A cs' = a_setup_mode A cs \<and>
      a_sizes A cs' = a_sizes A cs \<and> a_assigned A cs' = a_assigned A cs \<and>
      (\<forall>i w. a_holds A cs' i w \<longleftrightarrow> a_holds A cs i w \<and> a_value A x i w = a_value A y i w)"
    using assms by (simp add: gadgets_ok_def)
  then show ?thesis
    by (elim exE conjE) (rule that, assumption+, blast)
qed

lemma is_ok_ok_or [simp]: "is_ok (ok_or x e) \<longleftrightarrow> x \<noteq> None"
  by (cases x) (simp_all add: ok_or_def)

lemma ok_or_Some [simp]: "ok_or (Some a) e = Ok a"
  by (simp add: ok_or_def)

lemma new_inputE:
  assumes "r1cs_ok A" and "a_setup_mode A cs \<or> v \<noteq> None"
  obtains cs' x where "a_new_input A cs (ok_or v AssignmentMissing) = Ok (cs', x)"
    "a_setup_mode A cs' = a_setup_mode A cs"
    "a_sizes A cs' = (fst (a_sizes A cs) + 1, snd (a_sizes A cs))"
    "a_holds A cs' = a_holds A cs" "\<not> a_is_const A x"
    "a_value A x = (\<lambda>i w. i ! fst (a_sizes A cs))"
    "\<And>a. \<not> a_setup_mode A cs \<Longrightarrow> v = Some a \<Longrightarrow>
       a_assigned A cs' = (fst (a_assigned A cs) @ [a], snd (a_assigned A cs))"
proof -
  have *: "a_setup_mode A cs \<or> is_ok (ok_or v AssignmentMissing)"
    using assms(2) by simp
  have ok: "input_ok A cs (ok_or v AssignmentMissing)"
    using assms(1) by (rule r1cs_okD)
  from mp [OF conjunct2 [OF iffD1 [OF input_ok_def ok]] *] show ?thesis
    by (elim exE conjE) (rule that, assumption+, simp)
qed

lemma new_witnessE:
  assumes "r1cs_ok A" and "a_setup_mode A cs \<or> v \<noteq> None"
  obtains cs' x where "a_new_witness A cs (ok_or v AssignmentMissing) = Ok (cs', x)"
    "a_setup_mode A cs' = a_setup_mode A cs"
    "a_sizes A cs' = (fst (a_sizes A cs), snd (a_sizes A cs) + 1)"
    "a_holds A cs' = a_holds A cs" "\<not> a_is_const A x"
    "a_value A x = (\<lambda>i w. w ! snd (a_sizes A cs))"
    "\<And>a. \<not> a_setup_mode A cs \<Longrightarrow> v = Some a \<Longrightarrow>
       a_assigned A cs' = (fst (a_assigned A cs), snd (a_assigned A cs) @ [a])"
proof -
  have *: "a_setup_mode A cs \<or> is_ok (ok_or v AssignmentMissing)"
    using assms(2) by simp
  have ok: "witness_ok A cs (ok_or v AssignmentMissing)"
    using assms(1) by (rule r1cs_okD)
  from mp [OF conjunct2 [OF iffD1 [OF witness_ok_def ok]] *] show ?thesis
    by (elim exE conjE) (rule that, assumption+, simp)
qed

lemma new_booleanE:
  assumes "r1cs_ok A" and "a_setup_mode A cs \<or> v \<noteq> None"
  obtains cs' x where "a_new_boolean A cs (ok_or v AssignmentMissing) = Ok (cs', x)"
    "a_setup_mode A cs' = a_setup_mode A cs"
    "a_sizes A cs' = (fst (a_sizes A cs), snd (a_sizes A cs) + 1)"
    "\<And>i w. a_holds A cs' i w \<longleftrightarrow> a_holds A cs i w \<and> w ! snd (a_sizes A cs) \<in> {0, 1}"
    "a_value A (a_from_boolean A x) = (\<lambda>i w. w ! snd (a_sizes A cs))"
    "\<And>a. \<not> a_setup_mode A cs \<Longrightarrow> v = Some a \<Longrightarrow>
       a_assigned A cs' = (fst (a_assigned A cs), snd (a_assigned A cs) @ [of_bool a])"
proof -
  have *: "a_setup_mode A cs \<or> is_ok (ok_or v AssignmentMissing)"
    using assms(2) by simp
  have ok: "boolean_ok A cs (ok_or v AssignmentMissing)"
    using assms(1) by (rule r1cs_okD)
  from mp [OF conjunct2 [OF iffD1 [OF boolean_ok_def ok]] *] show ?thesis
    by (elim exE conjE) (rule that, assumption, assumption, assumption, blast, assumption, simp)
qed

lemma range_loop_spec:
  fixes A :: "('f::field, 'g, 'c, 'v, 'b, 'k, 'l, 'p) ark"
  assumes "r1cs_ok A" and two: "a_is_const A two" "a_value A two = (\<lambda>i w. 2)"
    and "n \<le> 64" and "a_setup_mode A cs \<or> delta_bits \<noteq> None"
    and "a_is_const A pw" and "a_value A pw = (\<lambda>i w. c)"
    and "\<And>bits. delta_bits = Some bits \<Longrightarrow> length bits = 64"
  shows "\<exists>cs' r. range_loop A delta_bits two n cs rec pw = Ok (cs', r) \<and>
     a_setup_mode A cs' = a_setup_mode A cs \<and>
     a_sizes A cs' = (fst (a_sizes A cs), snd (a_sizes A cs) + n) \<and>
     (\<forall>i w. a_value A r i w =
        a_value A rec i w + c * (\<Sum>k<n. w ! (snd (a_sizes A cs) + k) * 2 ^ k)) \<and>
     (\<forall>i w. a_holds A cs' i w \<longleftrightarrow>
        a_holds A cs i w \<and> (\<forall>k<n. w ! (snd (a_sizes A cs) + k) \<in> {0, 1})) \<and>
     (\<forall>bits. \<not> a_setup_mode A cs \<and> delta_bits = Some bits \<longrightarrow>
        a_assigned A cs' = (fst (a_assigned A cs),
          snd (a_assigned A cs) @ map of_bool (drop (64 - n) bits)))"
  using assms(4-)
proof (induction n arbitrary: cs rec pw c)
  case 0
  then show ?case by simp
next
  case (Suc n)
  let ?j = "64 - Suc n"
  have g: "gadgets_ok A" using assms(1) by (rule r1cs_okD)
  have v: "a_setup_mode A cs \<or> map_option (\<lambda>bits. bits ! ?j) delta_bits \<noteq> None"
    using Suc.prems(2) by simp
  obtain cs1 b where b: "a_new_boolean A cs
        (ok_or (map_option (\<lambda>bits. bits ! ?j) delta_bits) AssignmentMissing) = Ok (cs1, b)"
      "a_setup_mode A cs1 = a_setup_mode A cs"
      "a_sizes A cs1 = (fst (a_sizes A cs), snd (a_sizes A cs) + 1)"
      "\<And>i w. a_holds A cs1 i w \<longleftrightarrow> a_holds A cs i w \<and> w ! snd (a_sizes A cs) \<in> {0, 1}"
      "a_value A (a_from_boolean A b) = (\<lambda>i w. w ! snd (a_sizes A cs))"
      "\<And>a. \<not> a_setup_mode A cs \<Longrightarrow> map_option (\<lambda>bits. bits ! ?j) delta_bits = Some a \<Longrightarrow>
         a_assigned A cs1 = (fst (a_assigned A cs), snd (a_assigned A cs) @ [of_bool a])"
    by (rule new_booleanE [OF assms(1) v]) (rule that)
  let ?rec = "a_add A rec (a_mul A (a_from_boolean A b) pw)" and ?pw = "a_mul A pw two"
  have rec: "a_value A ?rec = (\<lambda>i w. a_value A rec i w + w ! snd (a_sizes A cs) * c)"
    by (simp add: gadgetsD(3) [OF g] gadgetsD(6) [OF g Suc.prems(3)] b(5) Suc.prems(4))
  have pw: "a_is_const A ?pw" "a_value A ?pw = (\<lambda>i w. c * 2)"
    using Suc.prems(3,4) two gadgetsD(6,7) [OF g] by simp_all
  have pre: "n \<le> 64" "a_setup_mode A cs1 \<or> delta_bits \<noteq> None"
    using Suc.prems(1,2) b(2) by simp_all
  from Suc.IH [OF pre pw Suc.prems(5), of ?rec]
  obtain cs' r where ih: "range_loop A delta_bits two n cs1 ?rec ?pw = Ok (cs', r)"
      "a_setup_mode A cs' = a_setup_mode A cs1"
      "a_sizes A cs' = (fst (a_sizes A cs1), snd (a_sizes A cs1) + n)"
      "\<forall>i w. a_value A r i w =
         a_value A ?rec i w + c * 2 * (\<Sum>k<n. w ! (snd (a_sizes A cs1) + k) * 2 ^ k)"
      "\<forall>i w. a_holds A cs' i w \<longleftrightarrow>
         a_holds A cs1 i w \<and> (\<forall>k<n. w ! (snd (a_sizes A cs1) + k) \<in> {0, 1})"
      "\<forall>bits. \<not> a_setup_mode A cs1 \<and> delta_bits = Some bits \<longrightarrow>
         a_assigned A cs' = (fst (a_assigned A cs1),
           snd (a_assigned A cs1) @ map of_bool (drop (64 - n) bits))"
    by blast
  have run: "range_loop A delta_bits two (Suc n) cs rec pw = Ok (cs', r)"
    using b(1) ih(1) by (simp add: RANGE_BITS_def)
  have val: "a_value A r i w =
      a_value A rec i w + c * (\<Sum>k<Suc n. w ! (snd (a_sizes A cs) + k) * 2 ^ k)" for i w
    unfolding sum.lessThan_Suc_shift
    using ih(4) b(3) rec by (simp add: sum_distrib_left algebra_simps)
  have holds: "a_holds A cs' i w \<longleftrightarrow>
      a_holds A cs i w \<and> (\<forall>k<Suc n. w ! (snd (a_sizes A cs) + k) \<in> {0, 1})" for i w
    using ih(5) b(3,4) by (simp add: All_less_Suc2)
  have asg: "a_assigned A cs' = (fst (a_assigned A cs),
      snd (a_assigned A cs) @ map of_bool (drop (64 - Suc n) bits))"
    if "\<not> a_setup_mode A cs" "delta_bits = Some bits" for bits
  proof -
    have "drop (64 - Suc n) bits = bits ! ?j # drop (64 - n) bits"
      using Suc.prems(1) Suc.prems(5) [OF that(2)]
      by (metis Cons_nth_drop_Suc Suc_diff_Suc Suc_le_lessD diff_less zero_less_Suc zero_less_numeral)
    then show ?thesis
      using ih(6) b(2) b(6) [OF that(1), of "bits ! ?j"] that by simp
  qed
  show ?case
    using run ih(2,3) b(2,3) val holds asg by (intro exI [of _ cs'] exI [of _ r]) simp
qed

text \<open>The relation the circuit is meant to enforce, on the vectors of public inputs and witnesses.\<close>

definition circuit_relation :: "'f::field \<Rightarrow> 'f \<Rightarrow> 'f list \<Rightarrow> 'f list \<Rightarrow> bool" where
  "circuit_relation g h i w \<longleftrightarrow>
     w ! 0 * g + w ! 1 * h = i ! 0 \<and> (\<forall>k<64. w ! (2 + k) \<in> {0, 1}) \<and>
     (\<Sum>k<64. w ! (2 + k) * 2 ^ k) = w ! 0 - i ! 1"

lemma length_limb_bits [simp]: "length (limb_bits l) = 64"
  by (simp add: limb_bits_def)

lemma length_delta_bits:
  assumes "fr_ok A" and "delta_to_bits A b a = Some bits"
  shows "length bits = 64"
proof -
  obtain x where "bits = take 64 (concat (map limb_bits (a_into_bigint A x)))"
    using assms(2) by (auto simp: delta_to_bits_def RANGE_BITS_def Let_def split: option.splits)
  moreover have "length (a_into_bigint A x) = 4"
    using assms(1) by (simp add: fr_ok_def)
  ultimately show ?thesis
    by (simp add: length_concat comp_def sum_list_triv)
qed

lemma generate_constraints_spec:
  fixes A :: "('f::field, 'g, 'c, 'v, 'b, 'k, 'l, 'p) ark"
  assumes "r1cs_ok A" and "fr_ok A"
    and full: "m \<or> (bc_balance circ \<noteq> None \<and> bc_blinding circ \<noteq> None \<and>
      bc_commitment_scalar circ \<noteq> None \<and> bc_required_amount circ \<noteq> None)"
  obtains cs where "generate_constraints A circ (a_new_cs A m) = Ok cs" "a_setup_mode A cs = m"
    "a_sizes A cs = (2, 66)"
    "a_holds A cs = circuit_relation (bc_g_scalar circ) (bc_h_scalar circ)"
    "\<And>c a b r bits. \<not> m \<Longrightarrow> bc_commitment_scalar circ = Some c \<Longrightarrow>
       bc_required_amount circ = Some a \<Longrightarrow> bc_balance circ = Some b \<Longrightarrow>
       bc_blinding circ = Some r \<Longrightarrow> delta_to_bits A (Some b) (Some a) = Some bits \<Longrightarrow>
       a_assigned A cs = ([c, a], [b, r] @ map of_bool bits)"
proof -
  note new = r1cs_okD(5-) [OF assms(1)]
  have f: "m \<or> bc_commitment_scalar circ \<noteq> None" "m \<or> bc_required_amount circ \<noteq> None"
    "m \<or> bc_balance circ \<noteq> None" "m \<or> bc_blinding circ \<noteq> None"
    using full by auto
  have g: "gadgets_ok A" using assms(1) by (rule r1cs_okD)
  have two: "a_fr_from A 2 = (2 :: 'f)"
    using assms(2) by (simp add: fr_ok_def)
  obtain cs1 cv where s1: "a_new_input A (a_new_cs A m)
        (ok_or (bc_commitment_scalar circ) AssignmentMissing) = Ok (cs1, cv)"
      "a_setup_mode A cs1 = m" "a_sizes A cs1 = (1, 0)" "a_holds A cs1 = (\<lambda>i w. True)"
      "\<not> a_is_const A cv" "a_value A cv = (\<lambda>i w. i ! 0)"
      "\<And>c. \<not> m \<Longrightarrow> bc_commitment_scalar circ = Some c \<Longrightarrow> a_assigned A cs1 = ([c], [])"
    by (rule new_inputE [OF assms(1), of "a_new_cs A m" "bc_commitment_scalar circ"])
      (use f new that in \<open>simp_all\<close>)
  obtain cs2 av where s2: "a_new_input A cs1
        (ok_or (bc_required_amount circ) AssignmentMissing) = Ok (cs2, av)"
      "a_setup_mode A cs2 = m" "a_sizes A cs2 = (2, 0)" "a_holds A cs2 = (\<lambda>i w. True)"
      "a_value A av = (\<lambda>i w. i ! 1)"
      "\<And>a. \<not> m \<Longrightarrow> bc_required_amount circ = Some a \<Longrightarrow>
         a_assigned A cs2 = (fst (a_assigned A cs1) @ [a], snd (a_assigned A cs1))"
    by (rule new_inputE [OF assms(1), of cs1 "bc_required_amount circ"])
      (use f s1 that in \<open>simp_all\<close>)
  obtain cs3 bv where s3: "a_new_witness A cs2
        (ok_or (bc_balance circ) AssignmentMissing) = Ok (cs3, bv)"
      "a_setup_mode A cs3 = m" "a_sizes A cs3 = (2, 1)" "a_holds A cs3 = (\<lambda>i w. True)"
      "\<not> a_is_const A bv" "a_value A bv = (\<lambda>i w. w ! 0)"
      "\<And>a. \<not> m \<Longrightarrow> bc_balance circ = Some a \<Longrightarrow>
         a_assigned A cs3 = (fst (a_assigned A cs2), snd (a_assigned A cs2) @ [a])"
    by (rule new_witnessE [OF assms(1), of cs2 "bc_balance circ"])
      (use f s2 that in \<open>simp_all\<close>)
  obtain cs4 rv where s4: "a_new_witness A cs3
        (ok_or (bc_blinding circ) AssignmentMissing) = Ok (cs4, rv)"
      "a_setup_mode A cs4 = m" "a_sizes A cs4 = (2, 2)" "a_holds A cs4 = (\<lambda>i w. True)"
      "a_value A rv = (\<lambda>i w. w ! 1)"
      "\<And>a. \<not> m \<Longrightarrow> bc_blinding circ = Some a \<Longrightarrow>
         a_assigned A cs4 = (fst (a_assigned A cs3), snd (a_assigned A cs3) @ [a])"
    by (rule new_witnessE [OF assms(1), of cs3 "bc_blinding circ"])
      (use f s3 that in \<open>simp_all add: numeral_2_eq_2\<close>)
  let ?computed = "a_add A (a_mul A bv (a_constant A (bc_g_scalar circ)))
      (a_mul A rv (a_constant A (bc_h_scalar circ)))"
  obtain cs5 where s5: "a_enforce_equal A cs4 ?computed cv = Ok cs5"
      "a_setup_mode A cs5 = a_setup_mode A cs4" "a_sizes A cs5 = a_sizes A cs4"
      "a_assigned A cs5 = a_assigned A cs4"
      "\<And>i w. a_holds A cs5 i w \<longleftrightarrow> a_holds A cs4 i w \<and> a_value A ?computed i w = a_value A cv i w"
    by (rule enforce_equalE [OF g s1(5)]) (rule that)
  have v1: "a_value A ?computed = (\<lambda>i w. w ! 0 * bc_g_scalar circ + w ! 1 * bc_h_scalar circ)"
    by (simp add: gadgetsD(1-4) [OF g] gadgetsD(6) [OF g] s3(6) s4(5))
  let ?bits = "delta_to_bits A (bc_balance circ) (bc_required_amount circ)"
  have len: "length bits = 64" if "?bits = Some bits" for bits
    by (rule length_delta_bits [OF assms(2) that])
  have pre: "a_setup_mode A cs5 \<or> ?bits \<noteq> None"
    using full s5(2) s4(2) by (auto simp: delta_to_bits_def Let_def)
  obtain cs6 r where s6: "range_loop A ?bits (a_constant A 2) 64 cs5 (a_constant A 0) (a_constant A 1)
        = Ok (cs6, r)" "a_setup_mode A cs6 = m" "a_sizes A cs6 = (2, 66)"
      "\<forall>i w. a_value A r i w = (\<Sum>k<64. w ! (2 + k) * 2 ^ k)"
      "\<forall>i w. a_holds A cs6 i w \<longleftrightarrow> a_holds A cs5 i w \<and> (\<forall>k<64. w ! (2 + k) \<in> {0, 1})"
      "\<forall>bits. \<not> m \<and> ?bits = Some bits \<longrightarrow>
         a_assigned A cs6 = (fst (a_assigned A cs5), snd (a_assigned A cs5) @ map of_bool bits)"
    using range_loop_spec [OF assms(1) gadgetsD(1,2) [OF g] order_refl pre
      gadgetsD(1,2) [OF g, of 1] len, of "a_constant A 0"] s5(2,3) s4(2,3)
    by (auto simp: gadgetsD(2) [OF g])
  have d: "\<not> a_is_const A (a_sub A bv av)" by (rule gadgetsD(5) [OF g s3(5)])
  obtain cs7 where s7: "a_enforce_equal A cs6 r (a_sub A bv av) = Ok cs7"
      "a_setup_mode A cs7 = a_setup_mode A cs6" "a_sizes A cs7 = a_sizes A cs6"
      "a_assigned A cs7 = a_assigned A cs6"
      "\<And>i w. a_holds A cs7 i w \<longleftrightarrow>
         a_holds A cs6 i w \<and> a_value A r i w = a_value A (a_sub A bv av) i w"
    by (rule enforce_equalE [OF g d]) (rule that)
  show ?thesis
  proof (rule that [of cs7])
    show "generate_constraints A circ (a_new_cs A m) = Ok cs7"
      by (simp add: generate_constraints_def s1(1) s2(1) s3(1) s4(1) s5(1) s7(1) two Let_def
          RANGE_BITS_def s6(1))
    show "a_setup_mode A cs7 = m" "a_sizes A cs7 = (2, 66)"
      using s7(2,3) s6(2,3) by simp_all
    show "a_holds A cs7 = circuit_relation (bc_g_scalar circ) (bc_h_scalar circ)"
      by (intro ext) (simp add: circuit_relation_def s7(5) s6(4,5) s5(5) s4(4) v1 s1(6)
          gadgetsD(4) [OF g] s3(6) s2(5))
    show "a_assigned A cs7 = ([c, a], [b, r] @ map of_bool bits)"
      if "\<not> m" "bc_commitment_scalar circ = Some c" "bc_required_amount circ = Some a"
        "bc_balance circ = Some b" "bc_blinding circ = Some r"
        "delta_to_bits A (Some b) (Some a) = Some bits" for c a b r bits
      using that s7(4) s6(6) s5(4) s4(6) s3(7) s2(6) s1(7) by simp
  qed
qed

section \<open>Soundness and completeness of the range check\<close>

lemma bit_sum_nat:
  assumes "\<forall>k<n. w ! (j + k) \<in> {0, 1 :: 'f::field}"
  obtains m where "m < 2 ^ n" "(\<Sum>k<n. w ! (j + k) * 2 ^ k) = of_nat m"
  using assms
proof (induction n arbitrary: thesis)
  case 0
  then show ?case by (intro 0(1) [of 0]) simp_all
next
  case (Suc n)
  from Suc.prems(2) have "\<forall>k<n. w ! (j + k) \<in> {0, 1}" by simp
  then obtain m where m: "m < 2 ^ n" "(\<Sum>k<n. w ! (j + k) * 2 ^ k) = of_nat m"
    using Suc.IH by blast
  from Suc.prems(2) consider "w ! (j + n) = 0" | "w ! (j + n) = 1" by blast
  then show ?case
  proof cases
    case 1
    then show ?thesis using m by (intro Suc.prems(1) [of m]) simp_all
  next
    case 2
    then show ?thesis using m by (intro Suc.prems(1) [of "m + 2 ^ n"]) simp_all
  qed
qed

lemma circuit_relation_sound:
  assumes "circuit_relation g h [c, of_nat a] w"
  obtains n where "w ! 0 = of_nat n" "a \<le> n" "n < a + 2 ^ 64" "c = of_nat n * g + w ! 1 * h"
proof -
  from assms obtain m where "m < 2 ^ 64" "(\<Sum>k<64. w ! (2 + k) * 2 ^ k) = of_nat m"
    using bit_sum_nat [of 64 w 2] by (auto simp: circuit_relation_def)
  then show ?thesis
    using assms by (intro that [of "a + m"]) (simp_all add: circuit_relation_def)
qed

lemma sum_limb_bits: "(\<Sum>k<64. of_bool (limb_bits l ! k) * 2 ^ k :: 'f::field) = of_nat (unat l)"
proof -
  have "(\<Sum>k<64. of_bool (limb_bits l ! k) * 2 ^ k :: nat) = unat l"
  proof -
    have "(\<Sum>k<64. of_bool (limb_bits l ! k) * 2 ^ k :: nat)
        = (\<Sum>k<64. of_bool (bit (unat l) k) * 2 ^ k)"
      by (intro sum.cong) (simp_all add: limb_bits_def bit_unsigned_iff)
    also have "\<dots> = horner_sum of_bool 2 (map (bit (unat l)) [0..<64])"
      by (simp add: horner_sum_eq_sum lessThan_atLeast0)
    also have "\<dots> = take_bit 64 (unat l)"
      by (rule horner_sum_bit_eq_take_bit)
    also have "\<dots> = unat l"
      using unat_less_64 [of l] by (simp add: take_bit_eq_mod)
    finally show ?thesis .
  qed
  then have "of_nat (\<Sum>k<64. of_bool (limb_bits l ! k) * 2 ^ k :: nat) = (of_nat (unat l) :: 'f)"
    by (rule arg_cong)
  then show ?thesis by simp
qed

text \<open>The bits of the honest prover.\<close>

lemma delta_to_bits_nat:
  assumes "fr_ok A" and "n < 2 ^ 64"
  shows "delta_to_bits A (Some (of_nat a + of_nat n)) (Some (of_nat a)) =
    Some (limb_bits (word_of_nat n))"
proof -
  have "a_into_bigint A (of_nat n) = map (\<lambda>i. word_of_nat (n div 2 ^ (64 * i))) [0..<4]"
    using assms by (simp add: fr_ok_def)
  then show ?thesis
    by (simp add: delta_to_bits_def RANGE_BITS_def Let_def upt_rec)
qed

definition honest_witness ::
  "('f::field, 'g, 'c, 'v, 'b, 'k, 'l, 'p) ark \<Rightarrow> u64 \<Rightarrow> 'f \<Rightarrow> u64 \<Rightarrow> 'f list" where
  "honest_witness A bal r req =
     a_fr_from A bal # r #
       map of_bool (the (delta_to_bits A (Some (a_fr_from A bal)) (Some (a_fr_from A req))))"

lemma honest_relation_iff:
  assumes "fr_ok A"
  shows "circuit_relation g h [c, a_fr_from A req] (honest_witness A bal r req) \<longleftrightarrow>
    req \<le> bal \<and> c = a_fr_from A bal * g + r * h"
    (is "?L \<longleftrightarrow> ?R")
proof
  note from_u64 = assms [unfolded fr_ok_def, THEN conjunct1, rule_format]
  assume ?L
  then have "circuit_relation g h [c, of_nat (unat req)] (honest_witness A bal r req)"
    by (simp add: from_u64)
  then obtain n where n: "honest_witness A bal r req ! 0 = of_nat n" "unat req \<le> n"
    "n < unat req + 2 ^ 64" "c = of_nat n * g + honest_witness A bal r req ! 1 * h"
    by (rule circuit_relation_sound)
  have "n < 2 ^ 65" "unat bal < 2 ^ 65"
    using n(3) unat_less_64 [of req] unat_less_64 [of bal] by simp_all
  moreover have "of_nat (unat bal) = (of_nat n :: 'a)"
    using n(1) by (simp add: honest_witness_def from_u64)
  ultimately have "unat bal = n" using assms by (simp add: fr_ok_def)
  with n(2,4) show ?R by (simp add: word_le_nat_alt honest_witness_def from_u64)
next
  note from_u64 = assms [unfolded fr_ok_def, THEN conjunct1, rule_format]
  assume R: ?R
  let ?n = "unat bal - unat req"
  have lt: "?n < 2 ^ 64" using unat_less_64 [of bal] by linarith
  have split: "unat bal = unat req + ?n" using R by (simp add: word_le_nat_alt)
  have bal: "a_fr_from A bal = of_nat (unat req) + of_nat ?n"
    unfolding from_u64 of_nat_add [symmetric] using split by simp
  have bits: "the (delta_to_bits A (Some (a_fr_from A bal)) (Some (a_fr_from A req))) =
      limb_bits (word_of_nat ?n)"
    unfolding bal from_u64 [of req] delta_to_bits_nat [OF assms lt] by simp
  have w: "honest_witness A bal r req ! (2 + k) = of_bool (limb_bits (word_of_nat ?n) ! k)"
    if "k < 64" for k
    using that unfolding honest_witness_def bits by simp
  have "(\<Sum>k<64. honest_witness A bal r req ! (2 + k) * 2 ^ k) = of_nat ?n"
  proof -
    have "(\<Sum>k<64. honest_witness A bal r req ! (2 + k) * 2 ^ k) =
        (\<Sum>k<64. of_bool (limb_bits (word_of_nat ?n) ! k) * 2 ^ k)"
      using w by (intro sum.cong) simp_all
    then show ?thesis
      using lt by (simp add: sum_limb_bits unsigned_of_nat take_bit_eq_mod)
  qed
  then show ?L
    using R w bal unfolding circuit_relation_def by (simp add: honest_witness_def from_u64)
qed

text \<open>The circuit the prover builds, and the one the keys are made for.\<close>

lemma new_circuit_spec:
  fixes A :: "('f::field, 'g, 'c, 'v, 'b, 'k, 'l, 'p) ark" and ps :: "('f, 'g) PedersenParams"
  assumes "r1cs_ok A" and "fr_ok A"
  obtains cs where
    "generate_constraints A (BalanceProofCircuit_new A ps bal r comm req) (a_new_cs A False) = Ok cs"
    "\<not> a_setup_mode A cs" "a_sizes A cs = (2, 66)"
    "a_holds A cs = circuit_relation (pp_g_scalar ps) (pp_h_scalar ps)"
    "a_assigned A cs = (public_inputs A comm req, honest_witness A bal r req)"
proof -
  let ?circ = "BalanceProofCircuit_new A ps bal r comm req"
  obtain bits where bits:
    "delta_to_bits A (Some (a_fr_from A bal)) (Some (a_fr_from A req)) = Some bits"
    by (simp add: delta_to_bits_def Let_def)
  show ?thesis
  proof (rule generate_constraints_spec [OF assms, of False ?circ])
    show "False \<or> bc_balance ?circ \<noteq> None \<and> bc_blinding ?circ \<noteq> None \<and>
      bc_commitment_scalar ?circ \<noteq> None \<and> bc_required_amount ?circ \<noteq> None"
      by (simp add: BalanceProofCircuit_new_def)
    fix cs
    assume gen: "generate_constraints A ?circ (a_new_cs A False) = Ok cs"
      "a_setup_mode A cs = False" "a_sizes A cs = (2, 66)"
      "a_holds A cs = circuit_relation (bc_g_scalar ?circ) (bc_h_scalar ?circ)"
      and asg: "\<And>c a b r bits. \<not> False \<Longrightarrow> bc_commitment_scalar ?circ = Some c \<Longrightarrow>
        bc_required_amount ?circ = Some a \<Longrightarrow> bc_balance ?circ = Some b \<Longrightarrow>
        bc_blinding ?circ = Some r \<Longrightarrow> delta_to_bits A (Some b) (Some a) = Some bits \<Longrightarrow>
        a_assigned A cs = ([c, a], [b, r] @ map of_bool bits)"
    show ?thesis
      using gen asg [OF _ _ _ _ _ bits] bits
      by (intro that [of cs])
        (simp_all add: BalanceProofCircuit_new_def public_inputs_def honest_witness_def)
  qed
qed

lemma blank_circuit_spec:
  assumes "r1cs_ok A" and "fr_ok A"
  obtains cs where
    "generate_constraints A (BalanceProofCircuit_blank ps) (a_new_cs A True) = Ok cs"
    "a_sizes A cs = (2, 66)" "a_holds A cs = circuit_relation (pp_g_scalar ps) (pp_h_scalar ps)"
  by (rule generate_constraints_spec [OF assms, of True "BalanceProofCircuit_blank ps"])
    (simp_all add: BalanceProofCircuit_blank_def that)

text \<open>
  A satisfied assignment of the prover's circuit gives a proof that the verifier of the same
  setup accepts.
\<close>

lemma prove_verifies:
  fixes A :: "('f::field, 'g, 'c, 'v, 'b, 'k, 'l, 'p) ark"
  assumes "r1cs_ok A" and "fr_ok A" and "groth16_complete A" and "ark_codec_ok A"
    and st: "BalanceProver_setup A g h gs hs = Some (prover, verifier)"
    and "req \<le> bal" and "cm_scalar comm = a_fr_from A bal * gs + r * hs"
  obtains pf where
    "BalanceProver_prove A rng prover bal r req (bp_params prover) comm = Ok pf"
    "BalanceVerifier_verify A verifier pf comm req (bv_params verifier) = Ok True"
    "BalanceProof_try_from_bytes A (BalanceProof_to_bytes pf) = Ok pf"
proof -
  let ?ps = "PedersenParams_setup g h gs hs"
  obtain cs0 where cs0: "generate_constraints A (BalanceProofCircuit_blank ?ps) (a_new_cs A True) = Ok cs0"
    "a_sizes A cs0 = (2, 66)" "a_holds A cs0 = circuit_relation (pp_g_scalar ?ps) (pp_h_scalar ?ps)"
    by (rule blank_circuit_spec [OF assms(1,2)])
  obtain cs where cs: "generate_constraints A (BalanceProofCircuit_new A ?ps bal r comm req)
      (a_new_cs A False) = Ok cs" "\<not> a_setup_mode A cs" "a_sizes A cs = (2, 66)"
    "a_holds A cs = circuit_relation (pp_g_scalar ?ps) (pp_h_scalar ?ps)"
    "a_assigned A cs = (public_inputs A comm req, honest_witness A bal r req)"
    by (rule new_circuit_spec [OF assms(1,2)])
  obtain pk vk where keys: "a_setup A cs0 = Ok (pk, vk)"
    and prover: "prover = \<lparr>bp_pk = pk, bp_params = ?ps\<rparr>" and verifier: "verifier = \<lparr>bv_vk = vk, bv_params = ?ps\<rparr>"
    using st cs0(1)
    by (auto simp: BalanceProver_setup_def circuit_specific_setup_def BalanceVerifier_from_vk_def
        Let_def split: result.splits)
  have "a_holds A cs (public_inputs A comm req) (honest_witness A bal r req)"
    unfolding cs(4) public_inputs_def honest_relation_iff [OF assms(2)]
    using assms(6,7) by (simp add: PedersenParams_setup_def)
  then obtain p where p: "a_prove A pk cs rng = Ok p" "a_verify A vk (public_inputs A comm req) p = Ok True"
    using assms(3) keys cs cs0(2,3) unfolding groth16_complete_def by metis
  obtain bs where bs: "a_proof_ser A p = Ok bs" "a_proof_de A bs = Ok p"
    using assms(4) by (auto simp: ark_codec_ok_def)
  show ?thesis
    by (rule that [of "\<lparr>bpf_bytes = bs\<rparr>"])
      (simp_all add: prover verifier BalanceProver_prove_def groth16_prove_def cs(1) p bs
        BalanceVerifier_verify_def BalanceProof_to_ark_proof_def BalanceProof_try_from_bytes_def
        BalanceProof_to_bytes_def)
qed

section \<open>A concrete instance of the crates\<close>

text \<open>
  The rationals in place of \<open>Fr\<close>, a system as the predicate its constraints define, and the proof
  system that sends the witness. It is used by the witnesses of the theorems below only.
\<close>

type_synonym demo_pred = "rat list \<Rightarrow> rat list \<Rightarrow> bool"
type_synonym demo_cs = "bool \<times> (nat \<times> nat) \<times> (rat list \<times> rat list) \<times> demo_pred"
type_synonym demo_var = "bool \<times> (rat list \<Rightarrow> rat list \<Rightarrow> rat)"

definition demo_new_input ::
  "demo_cs \<Rightarrow> (rat, SynthesisError) result \<Rightarrow> (demo_cs \<times> demo_var, SynthesisError) result" where
  "demo_new_input = (\<lambda>(m, (a, b), (i, w), H) r.
     case r of
       Ok x \<Rightarrow> Ok ((m, (a + 1, b), (i @ [x], w), H), (False, \<lambda>i w. i ! a))
     | Err e \<Rightarrow> if m then Ok ((m, (a + 1, b), (i, w), H), (False, \<lambda>i w. i ! a)) else Err e)"

definition demo_new_witness ::
  "demo_cs \<Rightarrow> (rat, SynthesisError) result \<Rightarrow> (demo_cs \<times> demo_var, SynthesisError) result" where
  "demo_new_witness = (\<lambda>(m, (a, b), (i, w), H) r.
     case r of
       Ok x \<Rightarrow> Ok ((m, (a, b + 1), (i, w @ [x]), H), (False, \<lambda>i w. w ! b))
     | Err e \<Rightarrow> if m then Ok ((m, (a, b + 1), (i, w), H), (False, \<lambda>i w. w ! b)) else Err e)"

definition demo_new_boolean ::
  "demo_cs \<Rightarrow> (bool, SynthesisError) result \<Rightarrow> (demo_cs \<times> nat, SynthesisError) result" where
  "demo_new_boolean = (\<lambda>(m, (a, b), (i, w), H) r.
     let H' = (\<lambda>i w. H i w \<and> w ! b \<in> {0, 1}) in
     case r of
       Ok x \<Rightarrow> Ok ((m, (a, b + 1), (i, w @ [of_bool x]), H'), b)
     | Err e \<Rightarrow> if m then Ok ((m, (a, b + 1), (i, w), H'), b) else Err e)"

definition enc_nat :: "nat \<Rightarrow> bytes" where
  "enc_nat n = replicate n 1 @ [0]"

fun dec_nat :: "bytes \<Rightarrow> nat \<times> bytes" where
  "dec_nat [] = (0, [])"
| "dec_nat (b # bs) = (if b = 0 then (0, bs) else let (n, r) = dec_nat bs in (Suc n, r))"

definition enc_rat :: "rat \<Rightarrow> bytes" where
  "enc_rat x = (let (a, b) = quotient_of x in enc_nat (nat a) @ enc_nat (nat (- a)) @ enc_nat (nat b))"

definition dec_rat :: "bytes \<Rightarrow> rat \<times> bytes" where
  "dec_rat bs =
     (let (p, r1) = dec_nat bs; (q, r2) = dec_nat r1; (d, r3) = dec_nat r2
      in (of_int (int p - int q) / of_int (int d), r3))"

primrec dec_rats :: "nat \<Rightarrow> bytes \<Rightarrow> rat list \<times> bytes" where
  "dec_rats 0 bs = ([], bs)"
| "dec_rats (Suc n) bs = (let (x, r) = dec_rat bs; (xs, r') = dec_rats n r in (x # xs, r'))"

definition enc_rats :: "rat list \<Rightarrow> bytes" where
  "enc_rats xs = enc_nat (length xs) @ concat (map enc_rat xs)"

definition dec_ratlist :: "bytes \<Rightarrow> rat list" where
  "dec_ratlist bs = (let (n, r) = dec_nat bs in fst (dec_rats n r))"

lemma dec_enc_nat [simp]: "dec_nat (enc_nat n @ r) = (n, r)"
  by (induction n) (simp_all add: enc_nat_def)

lemma dec_enc_rat [simp]: "dec_rat (enc_rat x @ r) = (x, r)"
proof -
  obtain a b where q: "quotient_of x = (a, b)" by (cases "quotient_of x")
  have b: "0 < b" using quotient_of_denom_pos [OF q] .
  have "rat_of_int (int (nat a) - int (nat (- a))) = rat_of_int a"
    by (rule arg_cong) simp
  then have "dec_rat (enc_rat x @ r) = (rat_of_int a / rat_of_int (int (nat b)), r)"
    unfolding enc_rat_def dec_rat_def by (simp add: q del: of_int_diff)
  also have "\<dots> = (x, r)"
    using b quotient_of_div [OF q] by (simp del: of_int_of_nat_eq)
  finally show ?thesis .
qed

lemma dec_enc_ratlist [simp]: "dec_ratlist (enc_rats xs) = xs"
proof -
  have "dec_rats (length xs) (concat (map enc_rat xs)) = (xs, [])"
    by (induction xs) simp_all
  then show ?thesis by (simp add: dec_ratlist_def enc_rats_def)
qed

lemma enc_rats_not_Nil [simp]: "enc_rats xs \<noteq> []"
  by (simp add: enc_rats_def enc_nat_def)

definition demo_comm_de :: "bytes \<Rightarrow> ((rat, rat) Commitment, string) result" where
  "demo_comm_de bs = (let xs = dec_ratlist bs in
     if length xs = 2 then Ok \<lparr>cm_point = xs ! 0, cm_scalar = xs ! 1\<rparr> else Err ''length'')"

definition demo_params_de :: "bytes \<Rightarrow> ((rat, rat) PedersenParams, string) result" where
  "demo_params_de bs = (let xs = dec_ratlist bs in
     if length xs = 4 then Ok (PedersenParams_setup (xs ! 0) (xs ! 1) (xs ! 2) (xs ! 3))
     else Err ''length'')"

definition demo_ark ::
  "(rat, rat, demo_cs, demo_var, nat, demo_pred, demo_pred, rat list) ark" where
  "demo_ark =
    \<lparr>a_fr_from = (\<lambda>v. of_nat (unat v)),
     a_into_bigint = (\<lambda>x. map (\<lambda>i. word_of_nat (nat \<lfloor>x\<rfloor> div 2 ^ (64 * i))) [0..<4]),
     a_g1_mul = (*), a_new_cs = (\<lambda>m. (m, (0, 0), ([], []), \<lambda>i w. True)),
     a_new_input = demo_new_input, a_new_witness = demo_new_witness,
     a_new_boolean = demo_new_boolean, a_constant = (\<lambda>a. (True, \<lambda>i w. a)),
     a_from_boolean = (\<lambda>b. (False, \<lambda>i w. w ! b)),
     a_add = (\<lambda>(c, f) (d, g). (c \<and> d, \<lambda>i w. f i w + g i w)),
     a_sub = (\<lambda>(c, f) (d, g). (c \<and> d, \<lambda>i w. f i w - g i w)),
     a_mul = (\<lambda>(c, f) (d, g). (c \<and> d, \<lambda>i w. f i w * g i w)),
     a_enforce_equal = (\<lambda>(m, s, a, H) x y. Ok (m, s, a, \<lambda>i w. H i w \<and> snd x i w = snd y i w)),
     a_setup = (\<lambda>(m, s, a, H). Ok (H, H)),
     a_prove = (\<lambda>pk (m, s, (i, w), H) rng. if pk i w then Ok w else Err ''unsatisfied''),
     a_verify = (\<lambda>vk i p. Ok (vk i p)),
     a_proof_ser = (\<lambda>p. Ok (enc_rats p)),
     a_proof_de = (\<lambda>b. if b = [] then Err ''empty'' else Ok (dec_ratlist b)),
     a_comm_ser = (\<lambda>c. Ok (enc_rats [cm_point c, cm_scalar c])), a_comm_de = demo_comm_de,
     a_params_ser = (\<lambda>p. Ok (enc_rats [pp_g p, pp_h p, pp_g_scalar p, pp_h_scalar p])),
     a_params_de = demo_params_de,
     a_vk_ser = (\<lambda>vk. Err ''opaque''), a_vk_de = (\<lambda>b. Err ''opaque''),
     a_is_const = fst, a_value = snd,
     a_sizes = (\<lambda>(m, s, a, H). s), a_assigned = (\<lambda>(m, s, a, H). a),
     a_setup_mode = fst, a_holds = (\<lambda>(m, s, a, H). H)\<rparr>"

lemma demo_fr_ok: "fr_ok demo_ark"
  by (simp add: fr_ok_def demo_ark_def)

lemma demo_r1cs_ok: "r1cs_ok demo_ark"
proof -
  have "input_ok demo_ark cs r" for cs r
    by (cases cs; cases r) (simp_all add: input_ok_def demo_ark_def demo_new_input_def split_beta del: split_paired_Ex)
  moreover have "witness_ok demo_ark cs r" for cs r
    by (cases cs; cases r) (simp_all add: witness_ok_def demo_ark_def demo_new_witness_def split_beta del: split_paired_Ex)
  moreover have "boolean_ok demo_ark cs r" for cs r
    by (cases cs; cases r) (simp_all add: boolean_ok_def demo_ark_def demo_new_boolean_def split_beta del: split_paired_Ex)
  moreover have "gadgets_ok demo_ark"
    by (simp add: gadgets_ok_def demo_ark_def split_beta)
  moreover have "a_setup_mode demo_ark (a_new_cs demo_ark m) = m \<and>
      a_sizes demo_ark (a_new_cs demo_ark m) = (0, 0) \<and>
      a_assigned demo_ark (a_new_cs demo_ark m) = ([], []) \<and>
      a_holds demo_ark (a_new_cs demo_ark m) = (\<lambda>i w. True)" for m
    by (simp add: demo_ark_def)
  ultimately show ?thesis
    unfolding r1cs_ok_def by blast
qed

lemma demo_groth16_complete: "groth16_complete demo_ark"
  by (auto simp: groth16_complete_def demo_ark_def)

lemma demo_codec_ok: "ark_codec_ok demo_ark"
  by (simp add: ark_codec_ok_def demo_ark_def demo_comm_de_def)

lemma demo_setup: "\<exists>prover verifier. BalanceProver_setup demo_ark 2 3 5 7 = Some (prover, verifier)"
proof -
  obtain cs where "generate_constraints demo_ark
      (BalanceProofCircuit_blank (PedersenParams_setup 2 3 5 7 :: (rat, rat) PedersenParams))
      (a_new_cs demo_ark True) = Ok cs"
    using blank_circuit_spec [OF demo_r1cs_ok demo_fr_ok] by blast
  moreover have "a_setup demo_ark cs = Ok (a_holds demo_ark cs, a_holds demo_ark cs)"
    by (simp add: demo_ark_def split_beta)
  ultimately show ?thesis
    by (simp add: BalanceProver_setup_def circuit_specific_setup_def Let_def)
qed

section \<open>Properties\<close>



text \<open>
  C35. A confidential transfer made with the prover of a setup, between distinct addresses and
  with a positive amount, passes both checks once its sender signs it: \<open>verify_transaction\<close>
  accepts it, and \<open>verify_confidential_proof\<close> of the verifier of the same setup accepts its
  embedded proof for its embedded commitment.
\<close>
theorem confidential_transfer_accepted:
  fixes A :: "('f::field, 'g::ab_group_add, 'c, 'v, 'b, 'k, 'l, 'p) ark"
  assumes "r1cs_ok A" and "fr_ok A" and "groth16_complete A" and "ark_codec_ok A" and "crypto_ok C"
    and "\<forall>b. is_ok (c_groth16_deserialize C b) = is_ok (a_proof_de A b)"
    and "BalanceProver_setup A g h gs hs = Some (prover, verifier)"
    and "length (signing_key kp) = 32"
    and "NovaId_to_address C (NovaId_from_public_key C (NovaKeypair_public_key C kp)) = Some sender"
    and "sender \<noteq> receiver" and "amount \<noteq> 0" and "now_ms \<le> now_ms + 300000"
  shows "\<exists>tx. create_confidential_transfer C A rng now_ms sender receiver amount r prover = Some (Ok tx) \<and>
    verify_transaction C now_ms (sign_transaction C tx kp) = Some (Ok ()) \<and>
    verify_confidential_proof A (sign_transaction C tx kp) verifier = Ok True"
proof -
  let ?comm = "commit A (bp_params prover) amount r"
  have ps: "bp_params prover = PedersenParams_setup g h gs hs"
    using assms(7) by (auto simp: BalanceProver_setup_def Let_def split: result.splits)
  have sc: "cm_scalar ?comm = a_fr_from A amount * gs + r * hs"
    by (simp add: ps commit_def Let_def PedersenParams_setup_def)
  obtain pf where pf: "BalanceProver_prove A rng prover amount r amount (bp_params prover) ?comm = Ok pf"
    "BalanceVerifier_verify A verifier pf ?comm amount (bv_params verifier) = Ok True"
    "BalanceProof_try_from_bytes A (BalanceProof_to_bytes pf) = Ok pf"
    by (rule prove_verifies [OF assms(1-4,7) order_refl sc])
  obtain cb where cb: "a_comm_ser A ?comm = Ok cb" "a_comm_de A cb = Ok ?comm"
    using assms(4) unfolding ark_codec_ok_def by blast
  let ?b = "TransactionBuilder_nonce (TransactionBuilder_fee (TransactionBuilder_amount
      (TransactionBuilder_receiver (TransactionBuilder_sender
        (TransactionBuilder_new ConfidentialTransfer) sender) receiver) (Amount_new amount NOVA)) 0) 1"
  let ?tx = "with_commitment C (with_proof C (TransactionBuilder_build C now_ms ?b)
      (BalanceProof_to_bytes pf)) cb"
  have b: "bld_sender ?b = sender" "bld_receiver ?b = receiver" "bld_nonce ?b = 1"
    "bld_amount ?b = \<lparr>amt_value = amount, amt_currency = NOVA\<rparr>" "bld_timestamp ?b = None"
    by (simp_all add: TransactionBuilder_nonce_def TransactionBuilder_fee_def
        TransactionBuilder_amount_def TransactionBuilder_receiver_def TransactionBuilder_sender_def
        TransactionBuilder_new_def Amount_new_def)
  have "is_ok (a_proof_de A (BalanceProof_to_bytes pf))"
    using pf(3) by (auto simp: BalanceProof_try_from_bytes_def split: result.splits)
  then have "verify_transaction C now_ms (sign_transaction C ?tx kp) = Some (Ok ())"
    using assms(6,9-12) b
    by (intro verify_complete [OF assms(5) _ sign_transaction_signed_by [OF assms(5,8)]])
      (simp_all add: structurally_ok_def proof_fields_ok_def)
  moreover have "verify_confidential_proof A (sign_transaction C ?tx kp) verifier = Ok True"
    using pf b cb by (simp add: verify_confidential_proof_def Commitment_from_bytes_def)
  moreover have "create_confidential_transfer C A rng now_ms sender receiver amount r prover = Some (Ok ?tx)"
    using pf cb by (simp add: create_confidential_transfer_def Commitment_to_bytes_def Let_def)
  ultimately show ?thesis by blast
qed

theorem confidential_transfer_accepted_witness:
  "\<exists>tx prover verifier. BalanceProver_setup demo_ark 2 3 5 7 = Some (prover, verifier) \<and>
     create_confidential_transfer demo_crypto demo_ark 0 1000 demo_address ''nova1bob'' 250 9 prover =
       Some (Ok tx) \<and>
     verify_transaction demo_crypto 1000 (sign_transaction demo_crypto tx demo_kp) = Some (Ok ()) \<and>
     verify_confidential_proof demo_ark (sign_transaction demo_crypto tx demo_kp) verifier = Ok True"
proof -
  obtain prover verifier where st: "BalanceProver_setup demo_ark 2 3 5 7 = Some (prover, verifier)"
    using demo_setup by blast
  have ser: "\<forall>b. is_ok (c_groth16_deserialize demo_crypto b) = is_ok (a_proof_de demo_ark b)"
    by (simp add: demo_crypto_def demo_ark_def)
  have "length (signing_key demo_kp) = 32"
    by (simp add: demo_kp_def NovaKeypair_from_seed_def)
  then show ?thesis
    using confidential_transfer_accepted [OF demo_r1cs_ok demo_fr_ok demo_groth16_complete
        demo_codec_ok demo_crypto_ok ser st _ demo_key_address demo_sender_ne, of 250 1000 0 9] st
    by auto
qed

text \<open>
  C36. The scalar commitment is not binding, so an accepted proof of funds says nothing about the
  committed balance: from a commitment to any value, in particular one below the required
  amount, whoever made it can compute a second blinding factor under which the prover returns a
  proof for a sufficient balance, and the verifier accepts it for the original commitment.
  Nothing is assumed but that the second scalar generator is not zero.
\<close>
theorem balance_proof_not_binding:
  fixes A :: "('f::field, 'g::ab_group_add, 'c, 'v, 'b, 'k, 'l, 'p) ark"
  assumes "r1cs_ok A" and "fr_ok A" and "groth16_complete A" and "ark_codec_ok A"
    and "BalanceProver_setup A g h gs hs = Some (prover, verifier)"
    and "hs \<noteq> 0" and "v < req" and "req \<le> bal"
    and "comm = commit A (bp_params prover) v r0"
  shows "\<exists>pf. BalanceProver_prove A rng prover bal
      (r0 - (a_fr_from A bal - a_fr_from A v) * gs / hs) req (bp_params prover) comm = Ok pf \<and>
    BalanceVerifier_verify A verifier pf comm req (bv_params verifier) = Ok True"
proof -
  have ps: "bp_params prover = PedersenParams_setup g h gs hs"
    using assms(5) by (auto simp: BalanceProver_setup_def Let_def split: result.splits)
  have "cm_scalar comm = a_fr_from A bal * gs +
      (r0 - (a_fr_from A bal - a_fr_from A v) * gs / hs) * hs"
    using assms(6) by (simp add: assms(9) ps commit_def Let_def PedersenParams_setup_def field_simps)
  from prove_verifies [OF assms(1-5,8) this] show ?thesis by blast
qed

theorem balance_proof_not_binding_witness:
  "\<exists>pf prover verifier. BalanceProver_setup demo_ark 2 3 5 7 = Some (prover, verifier) \<and>
     BalanceVerifier_verify demo_ark verifier pf (commit demo_ark (bp_params prover) 1 9) 1000
       (bv_params verifier) = Ok True"
proof -
  obtain prover verifier where st: "BalanceProver_setup demo_ark 2 3 5 7 = Some (prover, verifier)"
    using demo_setup by blast
  then show ?thesis
    using balance_proof_not_binding [OF demo_r1cs_ok demo_fr_ok demo_groth16_complete demo_codec_ok
        st _ _ order_refl refl, of 1 1000 0 9]
    by auto
qed

end
