(* ===== verification/Protocol_Config.thy ===== *)
theory Protocol_Config
  imports Nova_Prelude
begin

text \<open>
  \<open>protocol/src/config.rs\<close>: its two functions and the constants that they, the payment protocol
  and the gossip layer read. A \<open>Duration\<close> is its number of milliseconds.
\<close>

section \<open>Constants\<close>

definition NETWORK_ID_MAINNET :: u32 where
  "NETWORK_ID_MAINNET = 0x4E4F5641"

definition NETWORK_ID_TESTNET :: u32 where
  "NETWORK_ID_TESTNET = 0x4E4F5654"

definition NETWORK_ID_DEVNET :: u32 where
  "NETWORK_ID_DEVNET = 0x4E4F5644"

definition MAINNET_HRP :: string where
  "MAINNET_HRP = ''nova''"

definition TESTNET_HRP :: string where
  "TESTNET_HRP = ''tnova''"

definition DEVNET_HRP :: string where
  "DEVNET_HRP = ''dnova''"

definition PROTOCOL_VERSION_MAJOR :: u16 where
  "PROTOCOL_VERSION_MAJOR = 0"

definition PROTOCOL_VERSION_MINOR :: u16 where
  "PROTOCOL_VERSION_MINOR = 1"

definition PROTOCOL_VERSION_PATCH :: u16 where
  "PROTOCOL_VERSION_PATCH = 0"

definition PROTOCOL_VERSION :: string where
  "PROTOCOL_VERSION = ''0.1.0''"

definition FINALITY_TIMEOUT :: nat where
  "FINALITY_TIMEOUT = 30000"

definition PEER_HEARTBEAT_INTERVAL :: nat where
  "PEER_HEARTBEAT_INTERVAL = 15000"

definition MIN_TX_FEE_PHOTONS :: u64 where
  "MIN_TX_FEE_PHOTONS = 100"

definition DEFAULT_P2P_PORT :: u16 where
  "DEFAULT_P2P_PORT = 9740"

definition MAX_PEERS :: nat where
  "MAX_PEERS = 50"

definition GOSSIP_FANOUT :: nat where
  "GOSSIP_FANOUT = 8"

section \<open>Networks\<close>

definition hrp_for_network :: "u32 \<Rightarrow> string option" where
  "hrp_for_network network_id =
     (if network_id = NETWORK_ID_MAINNET then Some MAINNET_HRP
      else if network_id = NETWORK_ID_TESTNET then Some TESTNET_HRP
      else if network_id = NETWORK_ID_DEVNET then Some DEVNET_HRP
      else None)"

text \<open>The format \<open>{:08X}\<close>: upper-case hexadecimal, padded with zeros to eight digits.\<close>

definition hex_digit_upper :: "nat \<Rightarrow> char" where
  "hex_digit_upper d = (if d < 10 then char_of (48 + d) else char_of (55 + d))"

definition show_hex8 :: "u32 \<Rightarrow> string" where
  "show_hex8 w = map (\<lambda>i. hex_digit_upper (unat w div 16 ^ i mod 16)) (rev [0..<8])"

definition network_name :: "u32 \<Rightarrow> string" where
  "network_name network_id =
     (if network_id = NETWORK_ID_MAINNET then ''mainnet''
      else if network_id = NETWORK_ID_TESTNET then ''testnet''
      else if network_id = NETWORK_ID_DEVNET then ''devnet''
      else ''unknown(0x'' @ show_hex8 network_id @ '')'')"

lemmas network_ids = NETWORK_ID_MAINNET_def NETWORK_ID_TESTNET_def NETWORK_ID_DEVNET_def

text \<open>
  The recognised networks have distinct names and distinct address prefixes, no other network
  has a prefix, and the version string is assembled from the three version numbers.
\<close>

lemma networks_distinct:
  assumes "hrp_for_network a = Some p" and "hrp_for_network b = Some q"
  shows "p = q \<longleftrightarrow> a = b" and "network_name a = network_name b \<longleftrightarrow> a = b"
  using assms
  by (auto simp: hrp_for_network_def network_name_def network_ids MAINNET_HRP_def TESTNET_HRP_def
      DEVNET_HRP_def split: if_splits)

lemma protocol_version_assembled:
  "PROTOCOL_VERSION = show_nat (unat PROTOCOL_VERSION_MAJOR) @ ''.'' @
     show_nat (unat PROTOCOL_VERSION_MINOR) @ ''.'' @ show_nat (unat PROTOCOL_VERSION_PATCH)"
  by (simp add: PROTOCOL_VERSION_def PROTOCOL_VERSION_MAJOR_def PROTOCOL_VERSION_MINOR_def
      PROTOCOL_VERSION_PATCH_def show_nat.simps char_of_def bit_iff_odd)

end
