(* ===== verification/Ntp.thy ===== *)
theory Ntp
  imports Zkp Protocol_Config
begin

text \<open>
  The five-step payment protocol of \<open>protocol/src/ntp/\<close>: \<open>error.rs\<close>, \<open>handshake.rs\<close>,
  \<open>proof_request.rs\<close>, \<open>broadcast.rs\<close>, \<open>settlement.rs\<close> and \<open>receipt.rs\<close>.

  The X25519 crate is the record \<open>x25519\<close> (the public key of a secret, and the exchange); its one
  law is that both sides of an exchange obtain the same bytes. Secrets, nonces, session IDs and
  clock readings are arguments. A panic of \<open>to_address\<close> is \<open>None\<close>. An \<open>Instant\<close> is a number of
  milliseconds of the monotonic clock.
\<close>

section \<open>Errors (ntp/error.rs)\<close>

datatype NtpError =
    HandshakeFailed string
  | SessionMismatch string string
  | UnsupportedVersion string
  | UnsupportedCurrency string
  | ProofVerificationFailed string
  | InsufficientFunds u64 u64
  | NtpTransactionError string
  | SettlementRejected string
  | SettlementTimeout u64 u64
  | InvalidReceiptSignature string
  | CryptoError string
  | SerializationError string
  | InvalidState string string

section \<open>Handshake (ntp/handshake.rs)\<close>

record 's x25519 =
  x_public :: "'s \<Rightarrow> bytes"
  x_dh :: "'s \<Rightarrow> bytes \<Rightarrow> bytes"

definition x25519_ok :: "'s x25519 \<Rightarrow> bool" where
  "x25519_ok X \<longleftrightarrow> (\<forall>a b. x_dh X a (x_public X b) = x_dh X b (x_public X a))"

record PaymentParams =
  pay_amount :: u64
  pay_currency :: Currency
  pay_description :: string

record HandshakeRequest =
  hq_sender_pubkey :: NovaPublicKey
  hq_sender_nova_id :: string
  hq_protocol_version :: string
  hq_supported_currencies :: "Currency list"
  hq_timestamp :: u64
  hq_nonce :: bytes
  hq_ephemeral_pubkey :: bytes

record HandshakeResponse =
  hr_receiver_pubkey :: NovaPublicKey
  hr_receiver_nova_id :: string
  hr_session_id :: string
  hr_payment_request :: PaymentParams
  hr_timestamp :: u64
  hr_ephemeral_pubkey :: bytes

record EstablishedSession =
  es_session_id :: string
  es_shared_secret :: bytes
  es_peer_nova_id :: string
  es_peer_pubkey :: NovaPublicKey
  es_payment_params :: PaymentParams
  es_our_nova_id :: string
  es_our_pubkey :: NovaPublicKey

record 's HandshakeSession =
  hs_keypair_pubkey :: NovaPublicKey
  hs_our_nova_id :: string
  hs_ephemeral_secret :: "'s option"
  hs_ephemeral_public :: bytes
  hs_pending_request :: "HandshakeRequest option"

definition HandshakeSession_initiate ::
  "crypto \<Rightarrow> 's x25519 \<Rightarrow> 's \<Rightarrow> u64 \<Rightarrow> bytes \<Rightarrow> NovaKeypair \<Rightarrow> Currency list
   \<Rightarrow> ('s HandshakeSession \<times> HandshakeRequest) option" where
  "HandshakeSession_initiate C X eph_secret now_ms nonce keypair supported_currencies =
     (let pubkey = NovaKeypair_public_key C keypair in
      case NovaId_to_address C (NovaId_from_public_key C pubkey) of
        None \<Rightarrow> None
      | Some nova_id \<Rightarrow>
          let request = \<lparr>hq_sender_pubkey = pubkey, hq_sender_nova_id = nova_id,
                hq_protocol_version = PROTOCOL_VERSION,
                hq_supported_currencies = supported_currencies, hq_timestamp = now_ms,
                hq_nonce = nonce, hq_ephemeral_pubkey = x_public X eph_secret\<rparr>;
              session = \<lparr>hs_keypair_pubkey = pubkey, hs_our_nova_id = nova_id,
                hs_ephemeral_secret = Some eph_secret,
                hs_ephemeral_public = x_public X eph_secret, hs_pending_request = Some request\<rparr>
          in Some (session, request))"

definition starts_with :: "string \<Rightarrow> string \<Rightarrow> bool" where
  "starts_with s p \<longleftrightarrow> take (length p) s = p"

definition HandshakeSession_respond ::
  "crypto \<Rightarrow> 's x25519 \<Rightarrow> 's \<Rightarrow> u64 \<Rightarrow> string \<Rightarrow> HandshakeRequest \<Rightarrow> NovaKeypair \<Rightarrow> PaymentParams
   \<Rightarrow> (HandshakeResponse \<times> EstablishedSession, NtpError) result option" where
  "HandshakeSession_respond C X eph_secret now_ms session_id request keypair payment_params =
     (if \<not> starts_with (hq_protocol_version request)
            (show_nat (unat PROTOCOL_VERSION_MAJOR) @ ''.'')
      then Some (Err (UnsupportedVersion (hq_protocol_version request)))
      else if pay_currency payment_params \<notin> set (hq_supported_currencies request)
      then Some (Err (UnsupportedCurrency (Currency_fmt (pay_currency payment_params))))
      else
        let receiver_pubkey = NovaKeypair_public_key C keypair;
            shared_secret = c_blake3 C (x_dh X eph_secret (hq_ephemeral_pubkey request))
        in case NovaId_to_address C (NovaId_from_public_key C receiver_pubkey) of
             None \<Rightarrow> None
           | Some receiver_nova_id \<Rightarrow>
               let response = \<lparr>hr_receiver_pubkey = receiver_pubkey,
                     hr_receiver_nova_id = receiver_nova_id, hr_session_id = session_id,
                     hr_payment_request = payment_params, hr_timestamp = now_ms,
                     hr_ephemeral_pubkey = x_public X eph_secret\<rparr>;
                   session = \<lparr>es_session_id = session_id, es_shared_secret = shared_secret,
                     es_peer_nova_id = hq_sender_nova_id request,
                     es_peer_pubkey = hq_sender_pubkey request,
                     es_payment_params = payment_params, es_our_nova_id = receiver_nova_id,
                     es_our_pubkey = receiver_pubkey\<rparr>
               in Some (Ok (response, session)))"

definition HandshakeSession_complete ::
  "crypto \<Rightarrow> 's x25519 \<Rightarrow> 's HandshakeSession \<Rightarrow> HandshakeResponse
   \<Rightarrow> (EstablishedSession, NtpError) result" where
  "HandshakeSession_complete C X self response =
     (case hs_ephemeral_secret self of
        None \<Rightarrow> Err (HandshakeFailed
          (''ephemeral secret already consumed '' @ [CHR 0xE2, CHR 0x80, CHR 0x94] @
           '' complete() called twice''))
      | Some eph_secret \<Rightarrow>
          let shared_secret = c_blake3 C (x_dh X eph_secret (hr_ephemeral_pubkey response))
          in Ok \<lparr>es_session_id = hr_session_id response, es_shared_secret = shared_secret,
                 es_peer_nova_id = hr_receiver_nova_id response,
                 es_peer_pubkey = hr_receiver_pubkey response,
                 es_payment_params = hr_payment_request response,
                 es_our_nova_id = hs_our_nova_id self, es_our_pubkey = hs_keypair_pubkey self\<rparr>)"

section \<open>Proof of funds (ntp/proof_request.rs)\<close>

record ProofOfFundsRequest =
  pq_session_id :: string
  pq_required_amount :: u64
  pq_currency :: Currency
  pq_challenge_nonce :: bytes

record ProofOfFundsResponse =
  pr_session_id :: string
  pr_zkp_proof :: bytes
  pr_commitment :: bytes
  pr_timestamp :: u64

definition request_proof_of_funds ::
  "bytes \<Rightarrow> EstablishedSession \<Rightarrow> u64 \<Rightarrow> Currency \<Rightarrow> ProofOfFundsRequest" where
  "request_proof_of_funds challenge_nonce session amount currency =
     \<lparr>pq_session_id = es_session_id session, pq_required_amount = amount, pq_currency = currency,
      pq_challenge_nonce = challenge_nonce\<rparr>"

text \<open>
  The blinding factor is drawn from \<open>ark_std::test_rng()\<close>, a generator with a fixed seed that is
  created anew in every call: its first field element is the constant \<open>test_rng_fr\<close>.
\<close>

definition generate_proof_response ::
  "('f::field, 'g::ab_group_add, 'c, 'v, 'b, 'k, 'l, 'p) ark \<Rightarrow> 'f \<Rightarrow> nat \<Rightarrow> u64 \<Rightarrow>
   ProofOfFundsRequest \<Rightarrow> EstablishedSession \<Rightarrow> u64 \<Rightarrow> ('f, 'g, 'k) BalanceProver \<Rightarrow>
   ('f, 'g) PedersenParams \<Rightarrow> (ProofOfFundsResponse, NtpError) result option" where
  "generate_proof_response A test_rng_fr rng now_ms request session balance prover unused_params =
     (if pq_session_id request \<noteq> es_session_id session
      then Some (Err (SessionMismatch (es_session_id session) (pq_session_id request)))
      else
        let params = bp_params prover;
            blinding = test_rng_fr;
            comm = commit A params balance blinding
        in case BalanceProver_prove A rng prover balance blinding (pq_required_amount request)
                  params comm of
             Err e \<Rightarrow> Some (Err (ProofVerificationFailed e))
           | Ok proof \<Rightarrow>
               (case Commitment_to_bytes A comm of
                  None \<Rightarrow> None
                | Some cb \<Rightarrow>
                    Some (Ok \<lparr>pr_session_id = es_session_id session,
                              pr_zkp_proof = BalanceProof_to_bytes proof,
                              pr_commitment = cb, pr_timestamp = now_ms\<rparr>)))"

definition verify_proof_of_funds ::
  "('f::field, 'g, 'c, 'v, 'b, 'k, 'l, 'p) ark \<Rightarrow> ProofOfFundsResponse \<Rightarrow> u64 \<Rightarrow>
   ('f, 'g, 'l) BalanceVerifier \<Rightarrow> ('f, 'g) PedersenParams \<Rightarrow> (bool, NtpError) result" where
  "verify_proof_of_funds A response required_amount verifier unused_params =
     (case Commitment_from_bytes A (pr_commitment response) of
        Err e \<Rightarrow> Err (ProofVerificationFailed (''bad commitment: '' @ e))
      | Ok comm \<Rightarrow>
      case BalanceProof_try_from_bytes A (pr_zkp_proof response) of
        Err e \<Rightarrow> Err (ProofVerificationFailed (''bad proof: '' @ e))
      | Ok proof \<Rightarrow>
      case BalanceVerifier_verify A verifier proof comm required_amount (bv_params verifier) of
        Err e \<Rightarrow> Err (ProofVerificationFailed e)
      | Ok valid \<Rightarrow> Ok valid)"

section \<open>Signing and broadcast (ntp/broadcast.rs)\<close>

record SignedTransaction =
  st_transaction :: Transaction
  st_tx_hash :: string
  st_session_id :: string

record BroadcastMessage =
  bm_signed_tx :: SignedTransaction
  bm_protocol_version :: string
  bm_network_id :: u32
  bm_ttl :: u8
  bm_broadcast_timestamp :: u64
  bm_priority :: u8

definition prepare_transaction ::
  "crypto \<Rightarrow> u64 \<Rightarrow> EstablishedSession \<Rightarrow> string \<Rightarrow> u64 \<Rightarrow> (Transaction, NtpError) result" where
  "prepare_transaction C now_ms session sender_address nonce =
     (let params = es_payment_params session;
          b0 = TransactionBuilder_new Transfer;
          b1 = TransactionBuilder_sender b0 sender_address;
          b2 = TransactionBuilder_receiver b1 (es_peer_nova_id session);
          b3 = TransactionBuilder_amount b2 (Amount_new (pay_amount params) (pay_currency params));
          b4 = TransactionBuilder_fee b3 MIN_TX_FEE_PHOTONS;
          b5 = TransactionBuilder_nonce b4 nonce;
          b6 = TransactionBuilder_payload b5
                 (as_bytes (''NTP:'' @ es_session_id session @ '' | '' @ pay_description params))
      in Ok (TransactionBuilder_build C now_ms b6))"

definition sign_and_prepare ::
  "crypto \<Rightarrow> Transaction \<Rightarrow> NovaKeypair \<Rightarrow> string \<Rightarrow> SignedTransaction" where
  "sign_and_prepare C transaction keypair session_id =
     (let tx = sign_transaction C transaction keypair
      in \<lparr>st_transaction = tx, st_tx_hash = tx_id tx, st_session_id = session_id\<rparr>)"

definition create_broadcast_message ::
  "u64 \<Rightarrow> SignedTransaction \<Rightarrow> u32 \<Rightarrow> BroadcastMessage" where
  "create_broadcast_message now_ms signed_tx network_id =
     \<lparr>bm_signed_tx = signed_tx, bm_protocol_version = PROTOCOL_VERSION,
      bm_network_id = network_id, bm_ttl = word_of_nat GOSSIP_FANOUT,
      bm_broadcast_timestamp = now_ms, bm_priority = 0\<rparr>"

section \<open>Settlement (ntp/settlement.rs)\<close>

datatype ValidationStage = Structural | StageSignature | ZkpVerification | StateTransition

datatype SettlementResult =
    ResConfirmed (res_block_height: u64) (res_tx_hash: string) (res_block_hash: string)
      (res_tx_index: u32) (res_block_timestamp: u64)
  | ResRejected string ValidationStage
  | ResTimedOut u64 u64

record ValidationRequest =
  vr_transaction :: Transaction
  vr_session_id :: "string option"
  vr_received_at :: u64
  vr_priority_score :: u64

definition ValidationRequest_new ::
  "(Transaction \<Rightarrow> (bytes, string) result) \<Rightarrow> u64 \<Rightarrow> Transaction \<Rightarrow> string option \<Rightarrow> ValidationRequest" where
  "ValidationRequest_new J now_ms transaction session_id =
     \<lparr>vr_transaction = transaction, vr_session_id = session_id, vr_received_at = now_ms,
      vr_priority_score = fee_per_byte J transaction\<rparr>"

definition show_int :: "int \<Rightarrow> string" where
  "show_int i = (if i < 0 then ''-'' @ show_nat (nat (- i)) else show_nat (nat i))"

text \<open>The messages of \<open>TransactionError\<close> (\<open>transaction/verification.rs\<close>).\<close>

fun TransactionError_fmt :: "TransactionError \<Rightarrow> string" where
  "TransactionError_fmt (IdMismatch expected actual) =
     ''transaction ID mismatch: expected '' @ expected @ '', got '' @ actual"
| "TransactionError_fmt MissingSignature = ''transaction is unsigned''"
| "TransactionError_fmt (MalformedSignature reason) = ''malformed signature: '' @ reason"
| "TransactionError_fmt (InvalidSignature sender) =
     ''invalid signature: does not verify against sender '' @ sender"
| "TransactionError_fmt (InvalidSenderAddress address) = ''invalid sender address: '' @ address"
| "TransactionError_fmt (InvalidNonce nonce) =
     ''invalid nonce: must be > 0, got '' @ show_nat (unat nonce)"
| "TransactionError_fmt ZeroAmount = ''amount must be > 0''"
| "TransactionError_fmt (SelfTransfer address) =
     ''sender and receiver must differ: both are '' @ address"
| "TransactionError_fmt (TimestampTooFarInFuture timestamp_ms delta_secs max_secs) =
     ''timestamp '' @ show_nat (unat timestamp_ms) @ '' is '' @ show_int delta_secs @
     ''s in the future (max allowed: '' @ show_int max_secs @ ''s)''"
| "TransactionError_fmt MissingProof = ''confidential transfer requires a Groth16 proof''"
| "TransactionError_fmt MissingCommitment =
     ''confidential transfer requires an amount commitment''"
| "TransactionError_fmt (InvalidProof reason) = ''invalid ZKP proof: '' @ reason"

definition validate_transaction ::
  "crypto \<Rightarrow> u64 \<Rightarrow> Transaction \<Rightarrow> (unit, SettlementResult) result option" where
  "validate_transaction C now_ms tx =
     (case verify_transaction C now_ms tx of
        None \<Rightarrow> None
      | Some (Err e) \<Rightarrow>
          Some (Err (ResRejected (TransactionError_fmt e)
            (case e of InvalidSignature _ \<Rightarrow> StageSignature | _ \<Rightarrow> Structural)))
      | Some (Ok _) \<Rightarrow>
          if tx_signature tx = None
          then Some (Err (ResRejected ''missing transaction signature'' StageSignature))
          else Some (Ok ()))"

datatype SettlementState =
    StPending
  | StValidating
  | StConfirmed SettlementResult
  | StRejected SettlementResult
  | StTimedOut

record SettlementStateMachine =
  sm_state :: SettlementState
  sm_tx_hash :: string
  sm_session_id :: string
  sm_started_at :: nat
  sm_timeout_ms :: u64

definition SettlementStateMachine_with_timeout ::
  "nat \<Rightarrow> string \<Rightarrow> string \<Rightarrow> u64 \<Rightarrow> SettlementStateMachine" where
  "SettlementStateMachine_with_timeout now tx_hash session_id timeout_ms =
     \<lparr>sm_state = StPending, sm_tx_hash = tx_hash, sm_session_id = session_id,
      sm_started_at = now, sm_timeout_ms = timeout_ms\<rparr>"

definition SettlementStateMachine_new ::
  "nat \<Rightarrow> string \<Rightarrow> string \<Rightarrow> SettlementStateMachine" where
  "SettlementStateMachine_new now tx_hash session_id =
     \<lparr>sm_state = StPending, sm_tx_hash = tx_hash, sm_session_id = session_id,
      sm_started_at = now, sm_timeout_ms = word_of_nat FINALITY_TIMEOUT\<rparr>"

definition mark_validating :: "SettlementStateMachine \<Rightarrow> SettlementStateMachine" where
  "mark_validating self =
     (if sm_state self = StPending then self\<lparr>sm_state := StValidating\<rparr> else self)"

definition mark_confirmed ::
  "SettlementStateMachine \<Rightarrow> SettlementResult \<Rightarrow> SettlementStateMachine" where
  "mark_confirmed self res =
     (case sm_state self of
        StPending \<Rightarrow> self\<lparr>sm_state := StConfirmed res\<rparr>
      | StValidating \<Rightarrow> self\<lparr>sm_state := StConfirmed res\<rparr>
      | _ \<Rightarrow> self)"

definition mark_rejected ::
  "SettlementStateMachine \<Rightarrow> SettlementResult \<Rightarrow> SettlementStateMachine" where
  "mark_rejected self res =
     (case sm_state self of
        StPending \<Rightarrow> self\<lparr>sm_state := StRejected res\<rparr>
      | StValidating \<Rightarrow> self\<lparr>sm_state := StRejected res\<rparr>
      | _ \<Rightarrow> self)"

definition elapsed_ms :: "nat \<Rightarrow> SettlementStateMachine \<Rightarrow> u64" where
  "elapsed_ms now self = word_of_nat (now - sm_started_at self)"

definition check_timeout ::
  "nat \<Rightarrow> SettlementStateMachine \<Rightarrow> SettlementStateMachine \<times> SettlementResult option" where
  "check_timeout now self =
     (let elapsed = word_of_nat (now - sm_started_at self);
          expired = (if elapsed \<ge> sm_timeout_ms self
                     then (self\<lparr>sm_state := StTimedOut\<rparr>, Some (ResTimedOut elapsed (sm_timeout_ms self)))
                     else (self, None))
      in case sm_state self of
           StPending \<Rightarrow> expired
         | StValidating \<Rightarrow> expired
         | _ \<Rightarrow> (self, None))"

definition settlement_result :: "SettlementStateMachine \<Rightarrow> SettlementResult option" where
  "settlement_result self =
     (case sm_state self of StConfirmed r \<Rightarrow> Some r | StRejected r \<Rightarrow> Some r | _ \<Rightarrow> None)"

definition settlement_is_terminal :: "SettlementStateMachine \<Rightarrow> bool" where
  "settlement_is_terminal self =
     (case sm_state self of
        StConfirmed _ \<Rightarrow> True | StRejected _ \<Rightarrow> True | StTimedOut \<Rightarrow> True | _ \<Rightarrow> False)"

section \<open>Receipts (ntp/receipt.rs)\<close>

record PaymentReceipt =
  pt_receipt_id :: string
  pt_session_id :: string
  pt_transaction_hash :: string
  pt_block_height :: u64
  pt_sender :: string
  pt_sender_pubkey :: NovaPublicKey
  pt_receiver :: string
  pt_receiver_pubkey :: NovaPublicKey
  pt_amount :: u64
  pt_currency :: Currency
  pt_timestamp :: u64
  pt_sender_signature :: "NovaSignature option"
  pt_receiver_signature :: "NovaSignature option"

definition signing_payload :: "crypto \<Rightarrow> PaymentReceipt \<Rightarrow> bytes" where
  "signing_payload C self =
     as_bytes
       (pt_receipt_id self @ '':'' @ pt_session_id self @ '':'' @ pt_transaction_hash self @ '':'' @
        show_nat (unat (pt_block_height self)) @ '':'' @ pt_sender self @ '':'' @
        pt_receiver self @ '':'' @ show_nat (unat (pt_amount self)) @ '':'' @
        Currency_fmt (pt_currency self) @ '':'' @ show_nat (unat (pt_timestamp self)) @ '':'' @
        c_hex_encode C (pk_bytes (pt_sender_pubkey self)))"

definition is_fully_signed :: "PaymentReceipt \<Rightarrow> bool" where
  "is_fully_signed self \<longleftrightarrow> pt_sender_signature self \<noteq> None \<and> pt_receiver_signature self \<noteq> None"

fun generate_receipt ::
  "string \<Rightarrow> SettlementResult \<Rightarrow> EstablishedSession \<Rightarrow> (PaymentReceipt, NtpError) result" where
  "generate_receipt receipt_id (ResConfirmed block_height tx_hash _ _ block_timestamp) session =
     Ok \<lparr>pt_receipt_id = receipt_id, pt_session_id = es_session_id session,
         pt_transaction_hash = tx_hash, pt_block_height = block_height,
         pt_sender = es_our_nova_id session, pt_sender_pubkey = es_our_pubkey session,
         pt_receiver = es_peer_nova_id session, pt_receiver_pubkey = es_peer_pubkey session,
         pt_amount = pay_amount (es_payment_params session),
         pt_currency = pay_currency (es_payment_params session), pt_timestamp = block_timestamp,
         pt_sender_signature = None, pt_receiver_signature = None\<rparr>"
| "generate_receipt receipt_id (ResRejected reason _) session = Err (SettlementRejected reason)"
| "generate_receipt receipt_id (ResTimedOut elapsed timeout_ms) session =
     Err (SettlementTimeout elapsed timeout_ms)"

definition sign_receipt_as_sender :: "crypto \<Rightarrow> PaymentReceipt \<Rightarrow> NovaKeypair \<Rightarrow> PaymentReceipt" where
  "sign_receipt_as_sender C receipt keypair =
     (let payload = signing_payload C receipt; sig = NovaKeypair_sign C keypair payload
      in receipt\<lparr>pt_sender_signature := Some sig\<rparr>)"

definition countersign_receipt ::
  "crypto \<Rightarrow> PaymentReceipt \<Rightarrow> NovaKeypair \<Rightarrow> PaymentReceipt \<times> (unit, NtpError) result" where
  "countersign_receipt C receipt receiver_keypair =
     (case pt_sender_signature receipt of
        None \<Rightarrow> (receipt, Err (InvalidReceiptSignature ''sender signature missing''))
      | Some sender_sig \<Rightarrow>
          let payload = signing_payload C receipt in
          if \<not> NovaPublicKey_verify C (pt_sender_pubkey receipt) payload sender_sig
          then (receipt, Err (InvalidReceiptSignature ''sender signature verification failed''))
          else (receipt\<lparr>pt_receiver_signature := Some (NovaKeypair_sign C receiver_keypair payload)\<rparr>,
                Ok ()))"

definition verify_receipt :: "crypto \<Rightarrow> PaymentReceipt \<Rightarrow> (bool, NtpError) result" where
  "verify_receipt C receipt =
     (case pt_sender_signature receipt of
        None \<Rightarrow> Err (InvalidReceiptSignature ''sender signature missing'')
      | Some sender_sig \<Rightarrow>
      case pt_receiver_signature receipt of
        None \<Rightarrow> Err (InvalidReceiptSignature ''receiver signature missing'')
      | Some receiver_sig \<Rightarrow>
          let payload = signing_payload C receipt in
          if \<not> NovaPublicKey_verify C (pt_sender_pubkey receipt) payload sender_sig
          then Err (InvalidReceiptSignature ''sender signature invalid'')
          else if \<not> NovaPublicKey_verify C (pt_receiver_pubkey receipt) payload receiver_sig
          then Err (InvalidReceiptSignature ''receiver signature invalid'')
          else Ok True)"

section \<open>The flow of a payment\<close>

lemma version_accepted:
  "starts_with PROTOCOL_VERSION (show_nat (unat PROTOCOL_VERSION_MAJOR) @ ''.'')"
  by (simp add: starts_with_def protocol_version_assembled)

text \<open>What \<open>respond\<close> returns, on every branch.\<close>

lemma respond_Ok_iff:
  "(\<exists>resp sess. HandshakeSession_respond C X e t sid q kp params = Some (Ok (resp, sess))) \<longleftrightarrow>
     starts_with (hq_protocol_version q) (show_nat (unat PROTOCOL_VERSION_MAJOR) @ ''.'') \<and>
     pay_currency params \<in> set (hq_supported_currencies q) \<and>
     NovaId_to_address C (NovaId_from_public_key C (NovaKeypair_public_key C kp)) \<noteq> None"
  by (auto simp: HandshakeSession_respond_def Let_def split: option.splits)

lemma prepare_fields:
  assumes "prepare_transaction C t sess a n = Ok tx"
  shows "tx_type tx = Transfer" "tx_sender tx = a" "tx_receiver tx = es_peer_nova_id sess"
    "tx_amount tx = Amount_new (pay_amount (es_payment_params sess)) (pay_currency (es_payment_params sess))"
    "tx_nonce tx = n" "tx_timestamp tx = t" "tx_proof tx = None" "tx_id tx = compute_id C tx"
  using assms
  by (auto simp: prepare_transaction_def Let_def TransactionBuilder_nonce_def
      TransactionBuilder_fee_def TransactionBuilder_amount_def TransactionBuilder_receiver_def
      TransactionBuilder_sender_def TransactionBuilder_payload_def TransactionBuilder_new_def)

lemma sign_and_prepare_fields [simp]:
  "st_transaction (sign_and_prepare C tx kp sid) = sign_transaction C tx kp"
  "st_tx_hash (sign_and_prepare C tx kp sid) = tx_id tx"
  "st_session_id (sign_and_prepare C tx kp sid) = sid"
  by (simp_all add: sign_and_prepare_def Let_def)

lemma validate_Ok_iff:
  "validate_transaction C t tx = Some (Ok ()) \<longleftrightarrow> verify_transaction C t tx = Some (Ok ())"
proof -
  have "tx_signature tx \<noteq> None" if "verify_transaction C t tx = Some (Ok ())"
    using that by (auto simp: verify_transaction_iff signed_by_def)
  then show ?thesis
    by (auto simp: validate_transaction_def split: option.splits result.splits)
qed

lemma signing_payload_update [simp]:
  "signing_payload C (r\<lparr>pt_sender_signature := a\<rparr>) = signing_payload C r"
  "signing_payload C (r\<lparr>pt_receiver_signature := a\<rparr>) = signing_payload C r"
  "signing_payload C (r\<lparr>pt_receiver_pubkey := pk\<rparr>) = signing_payload C r"
  by (simp_all add: signing_payload_def)

text \<open>Signing by the sender and countersigning by the receiver yield a receipt that verifies.\<close>

lemma receipt_signed_verifies:
  assumes "crypto_ok C" and "length (signing_key skp) = 32" and "length (signing_key rkp) = 32"
    and "pt_sender_pubkey rc = NovaKeypair_public_key C skp"
    and "pt_receiver_pubkey rc = NovaKeypair_public_key C rkp"
  obtains rc' where "countersign_receipt C (sign_receipt_as_sender C rc skp) rkp = (rc', Ok ())"
    "verify_receipt C rc' = Ok True" "is_fully_signed rc'" "pt_amount rc' = pt_amount rc"
    "pt_transaction_hash rc' = pt_transaction_hash rc" "signing_payload C rc' = signing_payload C rc"
  using sign_verifies [OF assms(1,2)] sign_verifies [OF assms(1,3)] assms(4,5)
  by (intro that [of "(sign_receipt_as_sender C rc skp)\<lparr>pt_receiver_signature :=
        Some (NovaKeypair_sign C rkp (signing_payload C rc))\<rparr>"])
    (simp_all add: countersign_receipt_def sign_receipt_as_sender_def Let_def verify_receipt_def
      is_fully_signed_def)


definition demo_dh :: "u8 x25519" where
  "demo_dh = \<lparr>x_public = (\<lambda>a. [a]), x_dh = (\<lambda>a p. [a + hd p])\<rparr>"

lemma demo_dh_ok: "x25519_ok demo_dh"
  by (simp add: x25519_ok_def demo_dh_def add.commute)

definition demo_rkp :: NovaKeypair where
  "demo_rkp = NovaKeypair_from_seed (replicate 32 8)"

definition demo_raddress :: string where
  "demo_raddress = NOVA_HRP @ demo_hex_encode (replicate 32 8)"

definition demo_invoice :: PaymentParams where
  "demo_invoice = \<lparr>pay_amount = 250, pay_currency = NOVA, pay_description = ''coffee''\<rparr>"

lemma demo_rkey_address:
  "NovaId_to_address demo_crypto (NovaId_from_public_key demo_crypto
     (NovaKeypair_public_key demo_crypto demo_rkp)) = Some demo_raddress"
  by (simp add: NovaId_to_address_def NovaKeypair_public_key_def demo_rkp_def
      NovaKeypair_from_seed_def demo_crypto_def demo_raddress_def pad32_def)

lemma demo_addresses_ne: "demo_address \<noteq> demo_raddress"
proof
  assume "demo_address = demo_raddress"
  then have "as_bytes (demo_hex_encode (replicate 32 7)) = as_bytes (demo_hex_encode (replicate 32 8))"
    by (simp add: demo_address_def demo_raddress_def)
  then show False by simp
qed

lemma demo_key_lengths: "length (signing_key demo_kp) = 32" "length (signing_key demo_rkp) = 32"
  by (simp_all add: demo_kp_def demo_rkp_def NovaKeypair_from_seed_def)


section \<open>Proof of funds\<close>

text \<open>
  A proof of funds is accepted: in a session, the response of a sender whose balance covers
  the requested amount is produced without error and the receiver's verification of it returns
  true. A request of another session is refused before anything is computed.
\<close>
lemma proof_of_funds_accepted:
  fixes A :: "('f::field, 'g::ab_group_add, 'c, 'v, 'b, 'k, 'l, 'p) ark"
  assumes "r1cs_ok A" and "fr_ok A" and "groth16_complete A" and "ark_codec_ok A"
    and "BalanceProver_setup A g h gs hs = Some (prover, verifier)"
    and "q = request_proof_of_funds cn rs req cur" and "req \<le> bal"
  shows "(es_session_id ss = es_session_id rs \<longrightarrow>
      (\<exists>resp. generate_proof_response A rf rng t q ss bal prover ps = Some (Ok resp) \<and>
         pr_session_id resp = es_session_id rs \<and>
         verify_proof_of_funds A resp req verifier ps' = Ok True)) \<and>
    (es_session_id ss \<noteq> es_session_id rs \<longrightarrow>
      generate_proof_response A rf rng t q ss bal prover ps =
        Some (Err (SessionMismatch (es_session_id ss) (es_session_id rs))))"
proof -
  let ?comm = "commit A (bp_params prover) bal rf"
  have ps: "bp_params prover = PedersenParams_setup g h gs hs"
    using assms(5) by (auto simp: BalanceProver_setup_def Let_def split: result.splits)
  have sc: "cm_scalar ?comm = a_fr_from A bal * gs + rf * hs"
    by (simp add: ps commit_def Let_def PedersenParams_setup_def)
  obtain pf where pf: "BalanceProver_prove A rng prover bal rf req (bp_params prover) ?comm = Ok pf"
    "BalanceVerifier_verify A verifier pf ?comm req (bv_params verifier) = Ok True"
    "BalanceProof_try_from_bytes A (BalanceProof_to_bytes pf) = Ok pf"
    by (rule prove_verifies [OF assms(1-5,7) sc])
  obtain cb where cb: "a_comm_ser A ?comm = Ok cb" "a_comm_de A cb = Ok ?comm"
    using assms(4) unfolding ark_codec_ok_def by blast
  show ?thesis
    using pf cb
    by (auto simp: generate_proof_response_def request_proof_of_funds_def assms(6)
        verify_proof_of_funds_def Commitment_to_bytes_def Commitment_from_bytes_def Let_def)
qed

text \<open>
  The blinding factor is the same in every response, so the commitment reveals the balance: any
  two responses under the same parameters carry equal scalar commitments exactly when the
  balances are equal, and a guess of the balance can be checked by whoever sees the commitment.
\<close>

lemma response_commitment_reveals_balance:
  assumes "fr_ok A" and "pp_g_scalar ps \<noteq> 0"
  shows "cm_scalar (commit A ps v rf) = cm_scalar (commit A ps w rf) \<longleftrightarrow> v = w"
proof -
  have *: "a_fr_from A v = a_fr_from A w \<longleftrightarrow> v = w"
  proof -
    have "unat v < 2 ^ 65" "unat w < 2 ^ 65"
      using unat_less_64 [of v] unat_less_64 [of w] by simp_all
    then show ?thesis
      using assms(1) unfolding fr_ok_def by (metis unsigned_word_eqI)
  qed
  show ?thesis
    using assms(2) * by (simp add: commit_def Let_def)
qed

section \<open>Settlement\<close>

inductive settlement_step :: "SettlementStateMachine \<Rightarrow> SettlementStateMachine \<Rightarrow> bool" where
  validating: "settlement_step m (mark_validating m)"
| confirmed: "settlement_step m (mark_confirmed m r)"
| rejected: "settlement_step m (mark_rejected m r)"
| timeout: "settlement_step m (fst (check_timeout now m))"

text \<open>How many changes of state are still possible.\<close>

fun settlement_rank :: "SettlementState \<Rightarrow> nat" where
  "settlement_rank StPending = 2"
| "settlement_rank StValidating = 1"
| "settlement_rank _ = 0"

lemmas settlement_ops = mark_validating_def mark_confirmed_def mark_rejected_def check_timeout_def

lemma settlement_is_terminal_iff: "settlement_is_terminal m \<longleftrightarrow> settlement_rank (sm_state m) = 0"
  by (cases "sm_state m") (simp_all add: settlement_is_terminal_def)

lemma settlement_step_rank:
  "settlement_step m m' \<Longrightarrow> m' = m \<or> settlement_rank (sm_state m') < settlement_rank (sm_state m)"
  by (induction rule: settlement_step.induct)
    (auto simp: settlement_ops Let_def split: SettlementState.splits if_splits)

lemma settlement_step_fields:
  "settlement_step m m' \<Longrightarrow> sm_tx_hash m' = sm_tx_hash m \<and> sm_session_id m' = sm_session_id m \<and>
     sm_started_at m' = sm_started_at m \<and> sm_timeout_ms m' = sm_timeout_ms m"
  by (induction rule: settlement_step.induct)
    (auto simp: settlement_ops Let_def split: SettlementState.splits if_splits)

lemma settlement_step_terminal: "settlement_step m m' \<Longrightarrow> settlement_is_terminal m \<Longrightarrow> m' = m"
  using settlement_step_rank [of m m'] by (auto simp: settlement_is_terminal_iff)

lemma check_timeout_cases:
  "check_timeout now m =
     (if \<not> settlement_is_terminal m \<and> sm_timeout_ms m \<le> elapsed_ms now m
      then (m\<lparr>sm_state := StTimedOut\<rparr>, Some (ResTimedOut (elapsed_ms now m) (sm_timeout_ms m)))
      else (m, None))"
  by (cases "sm_state m") (simp_all add: check_timeout_def settlement_is_terminal_def elapsed_ms_def Let_def)

text \<open>
  C37. The settlement of a transaction ends, once. Through any sequence of operations a machine
  keeps its transaction, session, start and timeout; its first terminal state is its last, and
  what \<open>result\<close> then returns never changes; each operation that changes it brings it closer to a
  terminal state, so at most two do. And at any moment at which the elapsed time, as the machine
  reads it, has reached the timeout, \<open>check_timeout\<close> leaves it in a terminal state and reports a
  timeout exactly if it was not terminal before.
\<close>
theorem settlement_settles_once:
  assumes "settlement_step\<^sup>*\<^sup>* m m'"
  shows "sm_tx_hash m' = sm_tx_hash m \<and> sm_session_id m' = sm_session_id m \<and>
    sm_started_at m' = sm_started_at m \<and> sm_timeout_ms m' = sm_timeout_ms m \<and>
    (settlement_is_terminal m \<longrightarrow> m' = m \<and> settlement_result m' = settlement_result m) \<and>
    settlement_rank (sm_state m') \<le> settlement_rank (sm_state m) \<and>
    (\<forall>n. settlement_step m' n \<longrightarrow> n = m' \<or> settlement_rank (sm_state n) < settlement_rank (sm_state m')) \<and>
    (sm_timeout_ms m' \<le> elapsed_ms now m' \<longrightarrow>
       settlement_is_terminal (fst (check_timeout now m')) \<and>
       (snd (check_timeout now m') \<noteq> None \<longleftrightarrow> \<not> settlement_is_terminal m'))"
proof -
  have run: "sm_tx_hash m' = sm_tx_hash m \<and> sm_session_id m' = sm_session_id m \<and>
      sm_started_at m' = sm_started_at m \<and> sm_timeout_ms m' = sm_timeout_ms m \<and>
      (settlement_is_terminal m \<longrightarrow> m' = m) \<and> settlement_rank (sm_state m') \<le> settlement_rank (sm_state m)"
    using assms
  proof (induction rule: rtranclp_induct)
    case (step x y)
    then show ?case
      using settlement_step_fields [of x y] settlement_step_rank [of x y]
        settlement_step_terminal [of x y] by auto
  qed simp
  then show ?thesis
    using settlement_step_rank [of m'] by (auto simp: check_timeout_cases settlement_is_terminal_def)
qed

theorem settlement_settles_once_witness:
  "settlement_is_terminal (fst (check_timeout 30005 (mark_validating (SettlementStateMachine_new 5 ''ab'' ''s1'')))) \<and>
   snd (check_timeout 30005 (mark_validating (SettlementStateMachine_new 5 ''ab'' ''s1''))) \<noteq> None"
proof -
  let ?m = "SettlementStateMachine_new 5 ''ab'' ''s1''"
  have "settlement_step\<^sup>*\<^sup>* ?m (mark_validating ?m)"
    by (intro r_into_rtranclp settlement_step.validating)
  from settlement_settles_once [OF this, of 30005] show ?thesis
    by (simp add: SettlementStateMachine_new_def mark_validating_def elapsed_ms_def
        FINALITY_TIMEOUT_def settlement_is_terminal_def)
qed

section \<open>What a receipt binds\<close>

lemma show_nat_digits: "c \<in> set (show_nat n) \<Longrightarrow> \<exists>d<10::nat. c = char_of (48 + d)"
proof (induction n rule: show_nat.induct)
  case (1 n)
  then show ?case
    by (subst (asm) (2) show_nat.simps) (auto split: if_splits intro: exI [of _ n] exI [of _ "n mod 10"])
qed

lemma colon_not_digit: "CHR '':'' \<notin> set (show_nat n)"
proof
  assume "CHR '':'' \<in> set (show_nat n)"
  then obtain d :: nat where d: "d < 10" "CHR '':'' = char_of (48 + d)"
    using show_nat_digits by blast
  then have "(of_char (CHR '':'') :: nat) = of_char (char_of (48 + d) :: char)" by simp
  then show False using d(1) by simp
qed

lemma digit_inj: "a < 10 \<Longrightarrow> b < 10 \<Longrightarrow> (char_of (48 + a) :: char) = char_of (48 + b) \<longleftrightarrow> a = b" for a b :: nat
proof
  assume "a < 10" "b < 10" "(char_of (48 + a) :: char) = char_of (48 + b)"
  then have "(of_char (char_of (48 + a) :: char) :: nat) = of_char (char_of (48 + b) :: char)" by simp
  with \<open>a < 10\<close> \<open>b < 10\<close> show "a = b" by simp
qed simp

lemma show_nat_ne [simp]: "show_nat n \<noteq> []" "[] \<noteq> show_nat n"
  by (subst show_nat.simps, simp)+

lemma show_nat_inj: "show_nat m = show_nat n \<Longrightarrow> m = n"
proof (induction m arbitrary: n rule: show_nat.induct)
  case (1 m)
  have m: "show_nat m = (if m < 10 then [] else show_nat (m div 10)) @ [char_of (48 + m mod 10)]"
    by (subst show_nat.simps) simp
  have n: "show_nat n = (if n < 10 then [] else show_nat (n div 10)) @ [char_of (48 + n mod 10)]"
    by (subst show_nat.simps) simp
  from 1(2) have eq: "(if m < 10 then [] else show_nat (m div 10)) = (if n < 10 then [] else show_nat (n div 10))"
    "(char_of (48 + m mod 10) :: char) = char_of (48 + n mod 10)"
    unfolding m n by simp_all
  then have low: "m mod 10 = n mod 10" by (simp add: digit_inj)
  show ?case
  proof (cases "m < 10")
    case True
    then have "n < 10" using eq(1) by (simp split: if_splits)
    then show ?thesis using True low by simp
  next
    case False
    then have "\<not> n < 10" "show_nat (m div 10) = show_nat (n div 10)"
      using eq(1) by (auto split: if_splits)
    then have "m div 10 = n div 10" using 1(1) False by blast
    then show ?thesis using low by (metis div_mult_mod_eq)
  qed
qed

definition colon_free :: "string \<Rightarrow> bool" where
  "colon_free s \<longleftrightarrow> CHR '':'' \<notin> set s"

definition receipt_colon_free :: "PaymentReceipt \<Rightarrow> bool" where
  "receipt_colon_free r \<longleftrightarrow> colon_free (pt_receipt_id r) \<and> colon_free (pt_session_id r) \<and>
     colon_free (pt_transaction_hash r) \<and> colon_free (pt_sender r) \<and> colon_free (pt_receiver r) \<and>
     colon_free (Currency_fmt (pt_currency r))"

lemma colon_separated:
  "colon_free a \<Longrightarrow> colon_free b \<Longrightarrow> a @ CHR '':'' # s = b @ CHR '':'' # t \<longleftrightarrow> a = b \<and> s = t"
  by (simp add: colon_free_def append_sep_eq)

lemma colon_separated_nat:
  "show_nat m @ CHR '':'' # s = show_nat n @ CHR '':'' # t \<longleftrightarrow> m = n \<and> s = t"
  using append_sep_eq [OF colon_not_digit colon_not_digit] by (auto dest: show_nat_inj)


definition demo_receipt_of :: "u64 \<Rightarrow> PaymentReceipt" where
  "demo_receipt_of amount = \<lparr>pt_receipt_id = ''r1'', pt_session_id = ''s1'',
     pt_transaction_hash = ''ab'', pt_block_height = 3, pt_sender = ''nova1a'',
     pt_sender_pubkey = NovaKeypair_public_key demo_crypto demo_kp, pt_receiver = ''nova1b'',
     pt_receiver_pubkey = NovaKeypair_public_key demo_crypto demo_rkp, pt_amount = amount,
     pt_currency = NOVA, pt_timestamp = 9, pt_sender_signature = None,
     pt_receiver_signature = None\<rparr>"


text \<open>
  The receiver's key is not among the signed fields and is compared with nothing: whoever holds a
  receipt that verifies can put an own key and an own signature in place of the receiver's.
\<close>

lemma receipt_receiver_replaceable:
  assumes "crypto_ok C" and "length (signing_key kp) = 32" and "verify_receipt C r = Ok True"
  shows "verify_receipt C (r\<lparr>pt_receiver_pubkey := NovaKeypair_public_key C kp,
    pt_receiver_signature := Some (NovaKeypair_sign C kp (signing_payload C r))\<rparr>) = Ok True"
  using assms(3) sign_verifies [OF assms(1,2)]
  by (auto simp: verify_receipt_def Let_def split: option.splits if_splits)

end
