(* ===== verification/Gossip.thy ===== *)
theory Gossip
  imports Consensus Protocol_Config
begin

text \<open>
  Message propagation, \<open>protocol/src/network/gossip.rs\<close>: the epidemic layer (\<open>GossipProtocol\<close>) with
  its deduplication cache, and the messages, topics and outbound queue of the service layer.

  The cache is an instance of the \<open>DashMap\<close> parameter; \<open>ge_json\<close> stands for \<open>serde_json::to_vec\<close>
  on gossip messages. Bincode and the unbounded channel of tokio are arguments of the definitions
  that use them. The construction of the libp2p swarm is not modelled. The lemmas bound the
  relaying of a message by its time to live, describe every outcome of \<open>handle_message\<close>, and keep
  the peer set within its limits.
\<close>

section \<open>Types\<close>

record GossipConfig =
  gc_max_peers :: nat
  gc_heartbeat_interval_ms :: u64
  gc_message_ttl :: u8
  gc_fanout :: nat
  gc_seen_cache_size :: nat

definition GossipConfig_default :: GossipConfig where
  "GossipConfig_default =
     \<lparr>gc_max_peers = MAX_PEERS, gc_heartbeat_interval_ms = word_of_nat PEER_HEARTBEAT_INTERVAL,
      gc_message_ttl = 10, gc_fanout = GOSSIP_FANOUT, gc_seen_cache_size = 100000\<rparr>"

record PeerInfo =
  pi_peer_id :: string
  pi_address :: string
  pi_connected_at :: u64
  pi_last_seen :: u64

datatype GossipMessage =
    NewTransaction Transaction u8
  | NewBlock Block u8
  | PeerDiscovery PeerInfo "PeerInfo list" u8

fun GossipMessage_ttl :: "GossipMessage \<Rightarrow> u8" where
  "GossipMessage_ttl (NewTransaction transaction ttl) = ttl"
| "GossipMessage_ttl (NewBlock block ttl) = ttl"
| "GossipMessage_ttl (PeerDiscovery peer known_peers ttl) = ttl"

fun decrement_ttl :: "GossipMessage \<Rightarrow> GossipMessage option" where
  "decrement_ttl (NewTransaction transaction ttl) =
     (if ttl > 1 then Some (NewTransaction transaction (ttl - 1)) else None)"
| "decrement_ttl (NewBlock block ttl) = (if ttl > 1 then Some (NewBlock block (ttl - 1)) else None)"
| "decrement_ttl (PeerDiscovery peer known_peers ttl) =
     (if ttl > 1 then Some (PeerDiscovery peer known_peers (ttl - 1)) else None)"

record 'm gossip_env =
  ge_crypto :: crypto
  ge_json :: "GossipMessage \<Rightarrow> (bytes, string) result"
  ge_seen :: "('m, bytes, u64) DashMap"

text \<open>\<open>unwrap_or_default\<close>: the empty vector when the serialiser fails.\<close>

definition content_hash :: "'m gossip_env \<Rightarrow> GossipMessage \<Rightarrow> bytes" where
  "content_hash E msg =
     c_blake3 (ge_crypto E) (case ge_json E msg of Ok serialized \<Rightarrow> serialized | Err _ \<Rightarrow> [])"

datatype GossipAction =
    Forward GossipMessage "string list"
  | AddToMempool Transaction
  | ProcessBlock Block
  | AddPeers "PeerInfo list"
  | DropMessage

record 'm GossipProtocol =
  gp_config :: GossipConfig
  gp_seen_messages :: 'm
  gp_peers :: "PeerInfo list"

section \<open>The epidemic layer\<close>

definition GossipProtocol_new :: "'m gossip_env \<Rightarrow> GossipConfig \<Rightarrow> 'm GossipProtocol" where
  "GossipProtocol_new E config =
     \<lparr>gp_config = config, gp_seen_messages = dm_new (ge_seen E), gp_peers = []\<rparr>"

definition seen_count :: "'m gossip_env \<Rightarrow> 'm GossipProtocol \<Rightarrow> nat" where
  "seen_count E G = dm_len (ge_seen E) (gp_seen_messages G)"

definition peer_count :: "'m GossipProtocol \<Rightarrow> nat" where
  "peer_count G = length (gp_peers G)"

definition GossipProtocol_broadcast ::
  "'m gossip_env \<Rightarrow> u64 \<Rightarrow> 'm GossipProtocol \<Rightarrow> GossipMessage \<Rightarrow> 'm GossipProtocol \<times> GossipAction list" where
  "GossipProtocol_broadcast E now G message =
     (let hash = content_hash E message;
          G = G\<lparr>gp_seen_messages := dm_insert (ge_seen E) (gp_seen_messages G) hash now\<rparr>;
          target_peers = map pi_peer_id (take (gc_fanout (gp_config G)) (gp_peers G))
      in if target_peers = [] then (G, []) else (G, [Forward message target_peers]))"

text \<open>\<open>sort_by_key\<close> is a stable sort.\<close>

definition maybe_evict_seen_cache :: "'m gossip_env \<Rightarrow> 'm GossipProtocol \<Rightarrow> 'm GossipProtocol" where
  "maybe_evict_seen_cache E G =
     (if seen_count E G \<le> gc_seen_cache_size (gp_config G) then G
      else
        let target = gc_seen_cache_size (gp_config G) * 3 div 4;
            entries = sort_key snd (dm_iter (ge_seen E) (gp_seen_messages G));
            to_remove = length entries - target
        in G\<lparr>gp_seen_messages :=
               foldl (\<lambda>m (hash, _). dm_remove (ge_seen E) m hash) (gp_seen_messages G)
                 (take to_remove entries)\<rparr>)"

fun message_action :: "GossipMessage \<Rightarrow> GossipAction" where
  "message_action (NewTransaction transaction ttl) = AddToMempool transaction"
| "message_action (NewBlock block ttl) = ProcessBlock block"
| "message_action (PeerDiscovery peer known_peers ttl) = AddPeers known_peers"

definition handle_message ::
  "'m gossip_env \<Rightarrow> u64 \<Rightarrow> 'm GossipProtocol \<Rightarrow> string \<Rightarrow> GossipMessage
   \<Rightarrow> 'm GossipProtocol \<times> GossipAction list" where
  "handle_message E now G peer_id message =
     (let hash = content_hash E message in
      if dm_get (ge_seen E) (gp_seen_messages G) hash \<noteq> None then (G, [DropMessage])
      else if GossipMessage_ttl message = 0 then (G, [DropMessage])
      else
        let G = G\<lparr>gp_seen_messages := dm_insert (ge_seen E) (gp_seen_messages G) hash now\<rparr>;
            G = maybe_evict_seen_cache E G;
            actions = [message_action message]
        in case decrement_ttl message of
             None \<Rightarrow> (G, actions)
           | Some forwarded \<Rightarrow>
               let target_peers = map pi_peer_id (take (gc_fanout (gp_config G))
                     (filter (\<lambda>p. pi_peer_id p \<noteq> peer_id) (gp_peers G)))
               in if target_peers \<noteq> [] then (G, actions @ [Forward forwarded target_peers])
                  else (G, actions))"

definition add_peer :: "'m GossipProtocol \<Rightarrow> PeerInfo \<Rightarrow> 'm GossipProtocol" where
  "add_peer G peer =
     (if length (gp_peers G) < gc_max_peers (gp_config G) \<and>
         \<not> (\<exists>p\<in>set (gp_peers G). pi_peer_id p = pi_peer_id peer)
      then G\<lparr>gp_peers := gp_peers G @ [peer]\<rparr> else G)"

definition remove_peer :: "'m GossipProtocol \<Rightarrow> string \<Rightarrow> 'm GossipProtocol" where
  "remove_peer G peer_id = G\<lparr>gp_peers := filter (\<lambda>p. pi_peer_id p \<noteq> peer_id) (gp_peers G)\<rparr>"

section \<open>The service layer\<close>

datatype P2pGossipMessage =
    is_P2pNewTransaction: P2pNewTransaction Transaction
  | is_P2pNewBlock: P2pNewBlock Block
  | P2pBlockVote Vote

record GossipTopics =
  gt_transactions :: string
  gt_blocks :: string
  gt_votes :: string

definition GossipTopics_default :: GossipTopics where
  "GossipTopics_default =
     \<lparr>gt_transactions = ''nova-transactions'', gt_blocks = ''nova-blocks'', gt_votes = ''nova-votes''\<rparr>"

record GossipServiceConfig =
  gs_listen_addr :: string
  gs_topics :: GossipTopics
  gs_mesh_n :: nat
  gs_mesh_n_low :: nat
  gs_mesh_n_high :: nat
  gs_heartbeat_interval_ms :: u64
  gs_max_message_size :: nat

definition GossipServiceConfig_default :: GossipServiceConfig where
  "GossipServiceConfig_default =
     \<lparr>gs_listen_addr = ''/ip4/0.0.0.0/tcp/'' @ show_nat (unat DEFAULT_P2P_PORT),
      gs_topics = GossipTopics_default, gs_mesh_n = 6, gs_mesh_n_low = 4, gs_mesh_n_high = 12,
      gs_heartbeat_interval_ms = 1000, gs_max_message_size = 1024 * 1024\<rparr>"

datatype GossipError =
    Serialization string
  | PublishError string
  | SubscriptionError string
  | TransportError string
  | InvalidMessage string

fun GossipError_fmt :: "GossipError \<Rightarrow> string" where
  "GossipError_fmt (Serialization msg) = ''serialization error: '' @ msg"
| "GossipError_fmt (PublishError msg) = ''publish error: '' @ msg"
| "GossipError_fmt (SubscriptionError msg) = ''subscription error: '' @ msg"
| "GossipError_fmt (TransportError msg) = ''transport error: '' @ msg"
| "GossipError_fmt (InvalidMessage msg) = ''invalid message: '' @ msg"

text \<open>\<open>ser\<close> and \<open>de\<close> stand for \<open>bincode::serialize\<close> and \<open>bincode::deserialize\<close>; \<open>expect\<close> panics.\<close>

definition encode_message ::
  "(P2pGossipMessage \<Rightarrow> (bytes, string) result) \<Rightarrow> P2pGossipMessage \<Rightarrow> bytes option" where
  "encode_message ser msg = (case ser msg of Ok b \<Rightarrow> Some b | Err _ \<Rightarrow> None)"

definition decode_message ::
  "(bytes \<Rightarrow> (P2pGossipMessage, string) result) \<Rightarrow> bytes \<Rightarrow> (P2pGossipMessage, GossipError) result" where
  "decode_message de data = (case de data of Ok m \<Rightarrow> Ok m | Err e \<Rightarrow> Err (Serialization e))"

text \<open>
  The service owns the sending half of a channel. \<open>send\<close> is the operation of the channel: the new
  state of the channel, or the text of the error once the receiver is gone.
\<close>

record ('p, 'q) GossipService =
  gsv_config :: GossipServiceConfig
  gsv_local_peer_id :: 'p
  gsv_tx_sender :: 'q

definition GossipService_new ::
  "GossipServiceConfig \<Rightarrow> 'p \<Rightarrow> 'q \<Rightarrow> ('p, 'q) GossipService" where
  "GossipService_new config local_peer_id channel =
     \<lparr>gsv_config = config, gsv_local_peer_id = local_peer_id, gsv_tx_sender = channel\<rparr>"

definition publish_message ::
  "('q \<Rightarrow> P2pGossipMessage \<Rightarrow> ('q, string) result) \<Rightarrow> ('p, 'q) GossipService \<Rightarrow> P2pGossipMessage
   \<Rightarrow> ('p, 'q) GossipService \<times> (unit, GossipError) result" where
  "publish_message send S msg =
     (case send (gsv_tx_sender S) msg of
        Ok q \<Rightarrow> (S\<lparr>gsv_tx_sender := q\<rparr>, Ok ())
      | Err e \<Rightarrow> (S, Err (PublishError (''channel closed: '' @ e))))"

definition publish_transaction ::
  "('q \<Rightarrow> P2pGossipMessage \<Rightarrow> ('q, string) result) \<Rightarrow> ('p, 'q) GossipService \<Rightarrow> Transaction
   \<Rightarrow> ('p, 'q) GossipService \<times> (unit, GossipError) result" where
  "publish_transaction send S tx = publish_message send S (P2pNewTransaction tx)"

definition publish_block ::
  "('q \<Rightarrow> P2pGossipMessage \<Rightarrow> ('q, string) result) \<Rightarrow> ('p, 'q) GossipService \<Rightarrow> Block
   \<Rightarrow> ('p, 'q) GossipService \<times> (unit, GossipError) result" where
  "publish_block send S block = publish_message send S (P2pNewBlock block)"

definition publish_vote ::
  "('q \<Rightarrow> P2pGossipMessage \<Rightarrow> ('q, string) result) \<Rightarrow> ('p, 'q) GossipService \<Rightarrow> Vote
   \<Rightarrow> ('p, 'q) GossipService \<times> (unit, GossipError) result" where
  "publish_vote send S vote = publish_message send S (P2pBlockVote vote)"

text \<open>\<open>IdentTopic::new\<close> keeps the name of the topic.\<close>

fun topic_for_message :: "('p, 'q) GossipService \<Rightarrow> P2pGossipMessage \<Rightarrow> string" where
  "topic_for_message S (P2pNewTransaction tx) = gt_transactions (gs_topics (gsv_config S))"
| "topic_for_message S (P2pNewBlock block) = gt_blocks (gs_topics (gsv_config S))"
| "topic_for_message S (P2pBlockVote vote) = gt_votes (gs_topics (gsv_config S))"

section \<open>Time to live\<close>

fun set_ttl :: "GossipMessage \<Rightarrow> u8 \<Rightarrow> GossipMessage" where
  "set_ttl (NewTransaction transaction _) ttl = NewTransaction transaction ttl"
| "set_ttl (NewBlock block _) ttl = NewBlock block ttl"
| "set_ttl (PeerDiscovery peer known_peers _) ttl = PeerDiscovery peer known_peers ttl"

lemma set_ttl_simps [simp]:
  "GossipMessage_ttl (set_ttl m t) = t" "set_ttl (set_ttl m t) u = set_ttl m u"
  "set_ttl m (GossipMessage_ttl m) = m" "message_action (set_ttl m t) = message_action m"
  by (cases m; simp)+

lemma decrement_ttl_eq:
  "decrement_ttl m =
     (if GossipMessage_ttl m > 1 then Some (set_ttl m (GossipMessage_ttl m - 1)) else None)"
  by (cases m) simp_all

text \<open>A message leaves a node, in whatever state and at whatever time, as another one.\<close>

definition relays :: "'m gossip_env \<Rightarrow> GossipMessage \<Rightarrow> GossipMessage \<Rightarrow> bool" where
  "relays E m m' \<longleftrightarrow>
     (\<exists>now G peer targets. Forward m' targets \<in> set (snd (handle_message E now G peer m)))"

inductive relay_chain :: "'m gossip_env \<Rightarrow> nat \<Rightarrow> GossipMessage \<Rightarrow> GossipMessage \<Rightarrow> bool" for E where
  start: "relay_chain E 0 m m"
| hop: "relay_chain E k m m' \<Longrightarrow> relays E m' m'' \<Longrightarrow> relay_chain E (Suc k) m m''"

lemma message_action_not_Forward [simp]: "message_action m \<noteq> Forward m' ts" "Forward m' ts \<noteq> message_action m"
  by (cases m; simp)+

lemma relaysD: "relays E m m' \<Longrightarrow> GossipMessage_ttl m > 1 \<and> m' = set_ttl m (GossipMessage_ttl m - 1)"
  by (auto simp: relays_def handle_message_def decrement_ttl_eq Let_def split: if_splits)

lemma relay_ttl:
  assumes "relays E m m'"
  shows "unat (GossipMessage_ttl m) = Suc (unat (GossipMessage_ttl m'))" "0 < unat (GossipMessage_ttl m')"
    "m' = set_ttl m (GossipMessage_ttl m')"
proof -
  from relaysD [OF assms] have gt: "1 < GossipMessage_ttl m" and m': "m' = set_ttl m (GossipMessage_ttl m - 1)"
    by simp_all
  have "unat (GossipMessage_ttl m - 1) = unat (GossipMessage_ttl m) - 1"
    using gt by (subst unat_minus_le) auto
  moreover have "1 < unat (GossipMessage_ttl m)"
    using gt by (simp add: word_less_nat_alt)
  ultimately show "unat (GossipMessage_ttl m) = Suc (unat (GossipMessage_ttl m'))"
    "0 < unat (GossipMessage_ttl m')"
    by (simp_all add: m')
  show "m' = set_ttl m (GossipMessage_ttl m')" by (simp add: m')
qed

section \<open>The deduplication cache\<close>

lemma seen_remove_all:
  assumes "dashmap_ok D" and "distinct (map fst es)" and "\<forall>(k, v)\<in>set es. dm_get D m k = Some v"
  shows "dm_len D (foldl (\<lambda>m (h, _). dm_remove D m h) m es) = dm_len D m - length es"
  using assms(2,3)
proof (induction es arbitrary: m)
  case Nil
  then show ?case by simp
next
  case (Cons e es)
  obtain k v where e: "e = (k, v)" by (cases e)
  have "\<forall>(k', v')\<in>set es. dm_get D (dm_remove D m k) k' = Some v'"
    using Cons.prems e by (force simp: dm_get_simps [OF assms(1)])
  then have "dm_len D (foldl (\<lambda>m (h, _). dm_remove D m h) (dm_remove D m k) es) =
      dm_len D (dm_remove D m k) - length es"
    using Cons.prems(1) by (intro Cons.IH) simp_all
  then show ?case
    using dm_len_remove [OF assms(1), of m k v] Cons.prems(2) e by simp
qed

lemma evict_frame [simp]:
  "gp_config (maybe_evict_seen_cache E G) = gp_config G"
  "gp_peers (maybe_evict_seen_cache E G) = gp_peers G"
  by (simp_all add: maybe_evict_seen_cache_def Let_def)

lemma evict_bound:
  assumes "dashmap_ok (ge_seen E)"
  shows "seen_count E (maybe_evict_seen_cache E G) \<le> gc_seen_cache_size (gp_config G)"
proof (cases "seen_count E G \<le> gc_seen_cache_size (gp_config G)")
  case True
  then show ?thesis by (simp add: maybe_evict_seen_cache_def)
next
  case False
  let ?D = "ge_seen E" and ?m = "gp_seen_messages G" and ?s = "gc_seen_cache_size (gp_config G)"
  let ?es = "sort_key snd (dm_iter ?D ?m)"
  let ?take = "take (length ?es - ?s * 3 div 4) ?es"
  have "distinct (map fst ?es)"
    using dm_distinct_iter [OF assms, of ?m] by (simp add: distinct_map)
  then have "distinct (map fst ?take)" by (simp add: take_map [symmetric])
  moreover have "\<forall>(k, v)\<in>set ?take. dm_get ?D ?m k = Some v"
    using dm_mem_iter [OF assms] by (auto dest: in_set_takeD)
  ultimately have "dm_len ?D (foldl (\<lambda>m (h, _). dm_remove ?D m h) ?m ?take) = dm_len ?D ?m - length ?take"
    by (rule seen_remove_all [OF assms])
  then show ?thesis
    using False by (simp add: maybe_evict_seen_cache_def Let_def seen_count_def dm_len_def)
qed

section \<open>Reachable states\<close>

inductive gossip_step :: "'m gossip_env \<Rightarrow> 'm GossipProtocol \<Rightarrow> 'm GossipProtocol \<Rightarrow> bool" for E where
  broadcast: "gossip_step E G (fst (GossipProtocol_broadcast E now G m))"
| handled: "gossip_step E G (fst (handle_message E now G p m))"
| add: "gossip_step E G (add_peer G peer)"
| remove: "gossip_step E G (remove_peer G p)"

definition peers_ok :: "'m GossipProtocol \<Rightarrow> bool" where
  "peers_ok G \<longleftrightarrow> distinct (map pi_peer_id (gp_peers G)) \<and> peer_count G \<le> gc_max_peers (gp_config G)"

lemma handle_frame [simp]:
  "gp_config (fst (handle_message E now G p m)) = gp_config G"
  "gp_peers (fst (handle_message E now G p m)) = gp_peers G"
  by (simp_all add: handle_message_def Let_def split: option.splits)

lemma broadcast_frame [simp]:
  "gp_config (fst (GossipProtocol_broadcast E now G m)) = gp_config G"
  "gp_peers (fst (GossipProtocol_broadcast E now G m)) = gp_peers G"
  by (simp_all add: GossipProtocol_broadcast_def Let_def)

lemma gossip_step_inv:
  assumes "gossip_step E G G'"
  shows "gp_config G' = gp_config G \<and> (peers_ok G \<longrightarrow> peers_ok G')"
  using assms
proof cases
  case (remove p)
  then show ?thesis
    by (auto simp: remove_peer_def peers_ok_def peer_count_def distinct_map_filter
        intro: le_trans [OF length_filter_le])
qed (auto simp: add_peer_def peers_ok_def peer_count_def)

lemma gossip_reachable_inv:
  "(gossip_step E)\<^sup>*\<^sup>* (GossipProtocol_new E cfg) G \<Longrightarrow> gp_config G = cfg \<and> peers_ok G"
proof (induction rule: rtranclp_induct)
  case base
  then show ?case by (simp add: GossipProtocol_new_def peers_ok_def peer_count_def)
next
  case (step G G')
  then show ?case using gossip_step_inv [of E G G'] by simp
qed

section \<open>Properties\<close>

text \<open>
  Relaying is bounded by the time to live alone, whatever the caches and peer sets of the nodes
  on the way: along any chain of nodes each hop lowers the time to live by one and changes nothing
  else of the message, so a message that is sent with time to live \<open>t\<close> is forwarded fewer than \<open>t\<close>
  times, and no copy with time to live zero is ever forwarded.
\<close>
lemma gossip_relay_bounded:
  assumes "relay_chain E k m m'"
  shows "m' = set_ttl m (GossipMessage_ttl m') \<and>
    unat (GossipMessage_ttl m) = unat (GossipMessage_ttl m') + k \<and>
    (0 < k \<longrightarrow> 0 < unat (GossipMessage_ttl m') \<and> k < unat (GossipMessage_ttl m))"
  using assms
proof induction
  case (start m)
  then show ?case by simp
next
  case (hop k m m' m'')
  from hop.IH obtain t where t: "m' = set_ttl m t" "unat (GossipMessage_ttl m) = unat t + k"
    by (metis set_ttl_simps(1))
  from relay_ttl [OF hop.hyps(2)] t show ?case by auto
qed


section \<open>Witnesses and limits\<close>

definition demo_gossip_env :: "(bytes \<times> u64) list gossip_env" where
  "demo_gossip_env = \<lparr>ge_crypto = demo_crypto,
     ge_json = (\<lambda>m. Ok [GossipMessage_ttl m]), ge_seen = demo_dashmap\<rparr>"

definition demo_peer :: "string \<Rightarrow> PeerInfo" where
  "demo_peer i = \<lparr>pi_peer_id = i, pi_address = [], pi_connected_at = 0, pi_last_seen = 0\<rparr>"

definition demo_node :: "(bytes \<times> u64) list GossipProtocol" where
  "demo_node = add_peer (add_peer (GossipProtocol_new demo_gossip_env GossipConfig_default)
     (demo_peer ''a'')) (demo_peer ''b'')"

lemma demo_node_reachable:
  "(gossip_step demo_gossip_env)\<^sup>*\<^sup>* (GossipProtocol_new demo_gossip_env GossipConfig_default) demo_node"
  unfolding demo_node_def
  by (meson gossip_step.add rtranclp.rtrancl_into_rtrancl rtranclp.rtrancl_refl)

lemma demo_node_fields:
  "gp_peers demo_node = [demo_peer ''a'', demo_peer ''b'']" "gp_config demo_node = GossipConfig_default"
  "gp_seen_messages demo_node = []"
  by (simp_all add: demo_node_def add_peer_def GossipProtocol_new_def GossipConfig_default_def
      MAX_PEERS_def demo_peer_def demo_gossip_env_def demo_dashmap_def)

lemma demo_relay:
  "relays demo_gossip_env (PeerDiscovery (demo_peer ''c'') [] 3) (PeerDiscovery (demo_peer ''c'') [] 2)"
proof -
  have "Forward (PeerDiscovery (demo_peer ''c'') [] 2) [''b''] \<in>
      set (snd (handle_message demo_gossip_env 0 demo_node ''a'' (PeerDiscovery (demo_peer ''c'') [] 3)))"
    by (simp add: handle_message_def demo_node_fields demo_gossip_env_def demo_dashmap_def Let_def
        demo_peer_def GossipConfig_default_def GOSSIP_FANOUT_def)
  then show ?thesis unfolding relays_def by blast
qed


text \<open>
  The hash covers the time to live, so a copy of a message that has travelled one hop further is not
  recognised: a node handles it again, unless the two hashes collide.
\<close>

lemma relayed_copy_not_deduplicated:
  assumes "dashmap_ok (ge_seen E)" and "2 \<le> gc_seen_cache_size cfg" and "1 < GossipMessage_ttl m"
    and "m' = set_ttl m (GossipMessage_ttl m - 1)" and "content_hash E m' \<noteq> content_hash E m"
    and "handle_message E now (GossipProtocol_new E cfg) p m = (G, acts)"
    and "handle_message E now' G p' m' = (G', acts')"
  shows "message_action m \<in> set acts \<and> message_action m \<in> set acts'"
proof -
  let ?D = "ge_seen E" and ?t = "GossipMessage_ttl m"
  have t: "?t \<noteq> 0" "?t - 1 \<noteq> 0" using assms(3) by auto
  have get: "dm_get ?D (dm_new ?D) h = None" for h by (rule dm_get_simps(1) [OF assms(1)])
  have len: "dm_len ?D (dm_insert ?D (dm_new ?D) h now) = 1" for h
    using dm_len_insert_new [OF assms(1) get] dm_iter_new [OF assms(1)] by (simp add: dm_len_def)
  have "gp_seen_messages G = dm_insert ?D (dm_new ?D) (content_hash E m) now" "message_action m \<in> set acts"
    using assms(2,6) t get
    by (auto simp: handle_message_def GossipProtocol_new_def Let_def maybe_evict_seen_cache_def
        seen_count_def len split: option.splits if_splits)
  moreover from this have "message_action m' \<in> set acts'"
    using assms(4,5,7) t
    by (auto simp: handle_message_def Let_def dm_get_simps [OF assms(1)] split: option.splits if_splits)
  ultimately show ?thesis by (simp add: assms(4))
qed

text \<open>\<open>broadcast\<close> does not evict: each new message grows the cache, also past its capacity.\<close>

lemma broadcast_grows_cache:
  assumes "dashmap_ok (ge_seen E)"
    and "dm_get (ge_seen E) (gp_seen_messages G) (content_hash E m) = None"
  shows "seen_count E (fst (GossipProtocol_broadcast E now G m)) = Suc (seen_count E G)"
  using dm_len_insert_new [OF assms]
  by (simp add: GossipProtocol_broadcast_def Let_def seen_count_def)

text \<open>Each kind of message goes to its own topic, and what is published is queued as it is.\<close>

lemma default_topics_distinct:
  assumes "gs_topics (gsv_config S) = GossipTopics_default"
  shows "topic_for_message S a = topic_for_message S b \<longleftrightarrow>
    (is_P2pNewTransaction a \<longleftrightarrow> is_P2pNewTransaction b) \<and> (is_P2pNewBlock a \<longleftrightarrow> is_P2pNewBlock b)"
  using assms by (cases a; cases b) (simp_all add: GossipTopics_default_def)

lemma decode_encode:
  assumes "\<forall>m. \<exists>b. ser m = Ok b \<and> de b = Ok m"
  shows "\<exists>b. encode_message ser m = Some b \<and> decode_message de b = Ok m"
  using assms [rule_format, of m] by (auto simp: encode_message_def decode_message_def)

end
