(* ===== verification/Secure_Channel.thy ===== *)
theory Secure_Channel
  imports Ntp "HOL-Library.List_Lexorder"
begin

text \<open>
  Session keys and authenticated encryption: \<open>protocol/src/crypto/pfs.rs\<close> and
  \<open>crypto/encryption.rs\<close>. The cipher of the \<open>aes-gcm\<close> crate is the record \<open>aead\<close> and the
  \<open>derive_key\<close> mode of BLAKE3 the argument \<open>kdf\<close>; random secrets and nonces are arguments. The
  lemmas show that both ends of an exchange derive the same key, that a session derives one key
  only, and that what one end encrypts the other decrypts.
\<close>

section \<open>Session keys (crypto/pfs.rs)\<close>

datatype PfsError = PfsInvalidPublicKey | KeyDerivationFailed | SessionAlreadyCompleted

record 's PfsSession =
  pfs_secret :: "'s option"
  pfs_public_key :: bytes

record CompletedPfsSession =
  cps_session_key :: bytes
  cps_our_public_key :: bytes
  cps_peer_public_key :: bytes

definition PfsSession_new :: "'s x25519 \<Rightarrow> 's \<Rightarrow> 's PfsSession" where
  "PfsSession_new X secret = \<lparr>pfs_secret = Some secret, pfs_public_key = x_public X secret\<rparr>"

definition derive_session_key ::
  "(string \<Rightarrow> bytes \<Rightarrow> bytes) \<Rightarrow> bytes \<Rightarrow> bytes \<Rightarrow> bytes \<Rightarrow> bytes" where
  "derive_session_key kdf shared_secret our_public peer_public =
     (let (first, second) = (if our_public \<le> peer_public then (our_public, peer_public)
                             else (peer_public, our_public))
      in kdf ''nova-protocol v1 pfs session key'' (shared_secret @ first @ second))"

text \<open>The panicking version: \<open>None\<close> when the secret is gone.\<close>

definition derive_shared_secret ::
  "'s x25519 \<Rightarrow> (string \<Rightarrow> bytes \<Rightarrow> bytes) \<Rightarrow> 's PfsSession \<Rightarrow> bytes \<Rightarrow> ('s PfsSession \<times> bytes) option" where
  "derive_shared_secret X kdf self peer_public =
     (case pfs_secret self of
        None \<Rightarrow> None
      | Some secret \<Rightarrow>
          Some (self\<lparr>pfs_secret := None\<rparr>,
                derive_session_key kdf (x_dh X secret peer_public) (pfs_public_key self) peer_public))"

definition try_derive_shared_secret ::
  "'s x25519 \<Rightarrow> (string \<Rightarrow> bytes \<Rightarrow> bytes) \<Rightarrow> 's PfsSession \<Rightarrow> bytes
   \<Rightarrow> 's PfsSession \<times> (bytes, PfsError) result" where
  "try_derive_shared_secret X kdf self peer_public =
     (case pfs_secret self of
        None \<Rightarrow> (self, Err SessionAlreadyCompleted)
      | Some secret \<Rightarrow>
          (self\<lparr>pfs_secret := None\<rparr>,
           Ok (derive_session_key kdf (x_dh X secret peer_public) (pfs_public_key self) peer_public)))"

definition PfsSession_complete ::
  "'s x25519 \<Rightarrow> (string \<Rightarrow> bytes \<Rightarrow> bytes) \<Rightarrow> 's PfsSession \<Rightarrow> bytes
   \<Rightarrow> (CompletedPfsSession, PfsError) result" where
  "PfsSession_complete X kdf self peer_public =
     (let our_pub = pfs_public_key self in
      case snd (try_derive_shared_secret X kdf self peer_public) of
        Err e \<Rightarrow> Err e
      | Ok session_key \<Rightarrow>
          Ok \<lparr>cps_session_key = session_key, cps_our_public_key = our_pub,
              cps_peer_public_key = peer_public\<rparr>)"

section \<open>Authenticated encryption (crypto/encryption.rs)\<close>

datatype EncryptionError =
  EncryptFailed | DecryptFailed | InvalidKeyLength | InvalidNonceLength | CiphertextTooShort

text \<open>Key, nonce, associated data and message; \<open>None\<close> is the opaque error of the crate.\<close>

record aead =
  ae_encrypt :: "bytes \<Rightarrow> bytes \<Rightarrow> bytes \<Rightarrow> bytes \<Rightarrow> bytes option"
  ae_decrypt :: "bytes \<Rightarrow> bytes \<Rightarrow> bytes \<Rightarrow> bytes \<Rightarrow> bytes option"

definition aead_ok :: "aead \<Rightarrow> bool" where
  "aead_ok A \<longleftrightarrow>
     (\<forall>k n a m c. ae_encrypt A k n a m = Some c \<longrightarrow> ae_decrypt A k n a c = Some m)"

definition AES_KEY_LENGTH :: nat where
  "AES_KEY_LENGTH = 32"

definition AES_NONCE_LENGTH :: nat where
  "AES_NONCE_LENGTH = 12"

text \<open>\<open>nonce\<close> is what the generator of the operating system fills in, 12 bytes.\<close>

definition encrypt :: "aead \<Rightarrow> bytes \<Rightarrow> bytes \<Rightarrow> bytes \<Rightarrow> (bytes, EncryptionError) result" where
  "encrypt A nonce key plaintext =
     (case ae_encrypt A key nonce [] plaintext of
        None \<Rightarrow> Err EncryptFailed
      | Some ciphertext \<Rightarrow> Ok (nonce @ ciphertext))"

definition decrypt :: "aead \<Rightarrow> bytes \<Rightarrow> bytes \<Rightarrow> (bytes, EncryptionError) result" where
  "decrypt A key data =
     (if length data < AES_NONCE_LENGTH then Err CiphertextTooShort
      else
        let nonce_bytes = take AES_NONCE_LENGTH data; ciphertext = drop AES_NONCE_LENGTH data
        in case ae_decrypt A key nonce_bytes [] ciphertext of
             None \<Rightarrow> Err DecryptFailed
           | Some m \<Rightarrow> Ok m)"

definition encrypt_with_aad ::
  "aead \<Rightarrow> bytes \<Rightarrow> bytes \<Rightarrow> bytes \<Rightarrow> bytes \<Rightarrow> (bytes \<times> bytes, EncryptionError) result" where
  "encrypt_with_aad A nonce key plaintext aad =
     (case ae_encrypt A key nonce aad plaintext of
        None \<Rightarrow> Err EncryptFailed
      | Some ciphertext \<Rightarrow> Ok (nonce, ciphertext))"

definition decrypt_with_aad ::
  "aead \<Rightarrow> bytes \<Rightarrow> bytes \<Rightarrow> bytes \<Rightarrow> bytes \<Rightarrow> (bytes, EncryptionError) result" where
  "decrypt_with_aad A key nonce ciphertext aad =
     (case ae_decrypt A key nonce aad ciphertext of None \<Rightarrow> Err DecryptFailed | Some m \<Rightarrow> Ok m)"

definition encrypt_checked :: "aead \<Rightarrow> bytes \<Rightarrow> bytes \<Rightarrow> bytes \<Rightarrow> (bytes, EncryptionError) result" where
  "encrypt_checked A nonce key plaintext =
     (if length key \<noteq> AES_KEY_LENGTH then Err InvalidKeyLength else encrypt A nonce key plaintext)"

definition decrypt_checked :: "aead \<Rightarrow> bytes \<Rightarrow> bytes \<Rightarrow> (bytes, EncryptionError) result" where
  "decrypt_checked A key data =
     (if length key \<noteq> AES_KEY_LENGTH then Err InvalidKeyLength else decrypt A key data)"

section \<open>Agreement and round trip\<close>

lemma derive_session_key_symmetric:
  "derive_session_key kdf s a b = derive_session_key kdf s b a"
  by (auto simp: derive_session_key_def)

text \<open>Both ends of an exchange end with the same key, and each names the other's public key.\<close>

lemma pfs_agreement:
  assumes "x25519_ok X"
  obtains ca cb where
    "PfsSession_complete X kdf (PfsSession_new X a) (x_public X b) = Ok ca"
    "PfsSession_complete X kdf (PfsSession_new X b) (x_public X a) = Ok cb"
    "cps_session_key ca = cps_session_key cb"
    "cps_our_public_key ca = cps_peer_public_key cb" "cps_our_public_key cb = cps_peer_public_key ca"
proof -
  have dh: "x_dh X a (x_public X b) = x_dh X b (x_public X a)"
    using assms by (simp add: x25519_ok_def)
  have run: "PfsSession_complete X kdf (PfsSession_new X c) p =
      Ok \<lparr>cps_session_key = derive_session_key kdf (x_dh X c p) (x_public X c) p,
          cps_our_public_key = x_public X c, cps_peer_public_key = p\<rparr>" for c p
    by (simp add: PfsSession_complete_def try_derive_shared_secret_def PfsSession_new_def)
  show ?thesis
    by (rule that [OF run run])
      (simp_all add: dh derive_session_key_symmetric [of kdf _ "x_public X a"])
qed

text \<open>A session yields one key: the second derivation fails, the panicking one panics.\<close>

lemma pfs_single_use:
  assumes "try_derive_shared_secret X kdf s p = (s', Ok k)"
  shows "try_derive_shared_secret X kdf s' q = (s', Err SessionAlreadyCompleted)"
    and "derive_shared_secret X kdf s' q = None" and "derive_shared_secret X kdf s p = Some (s', k)"
  using assms by (auto simp: try_derive_shared_secret_def derive_shared_secret_def split: option.splits)

lemma decrypt_encrypt:
  assumes "aead_ok A" and "length nonce = 12" and "encrypt A nonce key m = Ok c"
  shows "decrypt A key c = Ok m"
  using assms by (auto simp: encrypt_def decrypt_def aead_ok_def AES_NONCE_LENGTH_def split: option.splits)

lemma decrypt_encrypt_aad:
  assumes "aead_ok A" and "encrypt_with_aad A nonce key m aad = Ok (n, c)"
  shows "decrypt_with_aad A key n c aad = Ok m"
  using assms by (auto simp: encrypt_with_aad_def decrypt_with_aad_def aead_ok_def split: option.splits)

lemma checked_key_length:
  "encrypt_checked A nonce key m = (if length key = 32 then encrypt A nonce key m else Err InvalidKeyLength)"
  "decrypt_checked A key c = (if length key = 32 then decrypt A key c else Err InvalidKeyLength)"
  by (simp_all add: encrypt_checked_def decrypt_checked_def AES_KEY_LENGTH_def)

text \<open>
  What one end of a completed exchange encrypts with its session key, the other end decrypts with
  its own; a message cut below the length of a nonce is refused before the cipher is used.
\<close>

lemma channel_roundtrip:
  assumes "x25519_ok X" and "aead_ok A" and "length nonce = 12"
    and "PfsSession_complete X kdf (PfsSession_new X a) (x_public X b) = Ok ca"
    and "PfsSession_complete X kdf (PfsSession_new X b) (x_public X a) = Ok cb"
    and "encrypt_checked A nonce (cps_session_key ca) m = Ok c"
  shows "decrypt_checked A (cps_session_key cb) c = Ok m"
    and "length d < 12 \<Longrightarrow> decrypt A (cps_session_key cb) d = Err CiphertextTooShort"
proof -
  have key: "cps_session_key ca = cps_session_key cb"
    using pfs_agreement [OF assms(1), of kdf a b] assms(4,5) by (metis result.inject(1))
  have len: "length (cps_session_key ca) = 32"
    using assms(6) by (simp add: checked_key_length split: if_splits)
  then have "encrypt A nonce (cps_session_key ca) m = Ok c"
    using assms(6) by (simp add: checked_key_length)
  from decrypt_encrypt [OF assms(2,3) this] key len
  show "decrypt_checked A (cps_session_key cb) c = Ok m" by (simp add: checked_key_length)
  show "length d < 12 \<Longrightarrow> decrypt A (cps_session_key cb) d = Err CiphertextTooShort"
    by (simp add: decrypt_def AES_NONCE_LENGTH_def)
qed

end
