(* ===== verification/Did.thy ===== *)
theory Did
  imports Transactions
begin

text \<open>
  Decentralised identifiers, \<open>protocol/src/identity/did.rs\<close>, and the messages of the address errors
  of \<open>identity/nova_id.rs\<close>. Base58 (\<open>bs58\<close>) and JSON (\<open>serde_json\<close>) are arguments of the
  definitions that use them, the time of creation of a document too. The lemmas show that an
  identifier reads back and that a generated document is valid.
\<close>

section \<open>Identifiers\<close>

fun NovaIdError_fmt :: "NovaIdError \<Rightarrow> string" where
  "NovaIdError_fmt (Bech32Decode e) = ''bech32 decode error: '' @ e"
| "NovaIdError_fmt (InvalidHrp expected got) =
     ''invalid HRP: expected '' @ [CHR 0x27] @ expected @ [CHR 0x27] @ '', got '' @ [CHR 0x27] @ got @
     [CHR 0x27]"
| "NovaIdError_fmt (InvalidDataLength expected got) =
     ''invalid address data length: expected '' @ show_nat expected @ '' bytes, got '' @ show_nat got"
| "NovaIdError_fmt SignatureVerificationFailed = ''signature verification failed''"
| "NovaIdError_fmt NoPublicKey = ''no public key attached to this NovaId (address-only mode)''"
| "NovaIdError_fmt PublicKeyMismatch = ''public key hash does not match the stored address hash''"

definition DID_METHOD :: string where
  "DID_METHOD = ''nova''"

definition DID_CONTEXT :: string where
  "DID_CONTEXT = ''https://www.w3.org/ns/did/v1''"

definition ED25519_CONTEXT :: string where
  "ED25519_CONTEXT = ''https://w3id.org/security/suites/ed25519-2020/v1''"

definition VERIFICATION_KEY_TYPE :: string where
  "VERIFICATION_KEY_TYPE = ''Ed25519VerificationKey2020''"

datatype DidError =
    InvalidFormat string
  | UnsupportedMethod string
  | DidInvalidAddress string
  | DidSerialization string

record NovaDid =
  did_nova_id :: NovaId
  did_public_key :: NovaPublicKey

definition NovaDid_from_nova_id :: "NovaId \<Rightarrow> NovaPublicKey \<Rightarrow> NovaDid" where
  "NovaDid_from_nova_id nova_id public_key = \<lparr>did_nova_id = nova_id, did_public_key = public_key\<rparr>"

definition NovaDid_from_public_key :: "crypto \<Rightarrow> NovaPublicKey \<Rightarrow> NovaDid" where
  "NovaDid_from_public_key C public_key =
     \<lparr>did_nova_id = NovaId_from_public_key C public_key, did_public_key = public_key\<rparr>"

definition NovaDid_to_did_string :: "crypto \<Rightarrow> NovaDid \<Rightarrow> string option" where
  "NovaDid_to_did_string C self =
     (case NovaId_to_address C (did_nova_id self) of
        None \<Rightarrow> None
      | Some a \<Rightarrow> Some (''did:'' @ DID_METHOD @ '':'' @ a))"

text \<open>\<open>splitn(n, c)\<close> of the standard library: at most \<open>n\<close> parts, the last one keeps the separators.\<close>

fun splitn :: "nat \<Rightarrow> char \<Rightarrow> string \<Rightarrow> string list" where
  "splitn 0 c s = []"
| "splitn (Suc 0) c s = [s]"
| "splitn (Suc (Suc n)) c s =
     (if c \<in> set s
      then takeWhile (\<lambda>x. x \<noteq> c) s # splitn (Suc n) c (tl (dropWhile (\<lambda>x. x \<noteq> c) s))
      else [s])"

definition NovaDid_from_did_string ::
  "crypto \<Rightarrow> string \<Rightarrow> NovaPublicKey \<Rightarrow> (NovaDid, DidError) result" where
  "NovaDid_from_did_string C did public_key =
     (let parts = splitn 3 (CHR '':'') did in
      if length parts \<noteq> 3
      then Err (InvalidFormat (''DID must have format '' @ [CHR 0x27] @ ''did:<method>:<identifier>'' @ [CHR 0x27]))
      else if parts ! 0 \<noteq> ''did''
      then Err (InvalidFormat (''expected '' @ [CHR 0x27] @ ''did'' @ [CHR 0x27] @ '' prefix, got '' @
             [CHR 0x27] @ parts ! 0 @ [CHR 0x27]))
      else if parts ! 1 \<noteq> DID_METHOD then Err (UnsupportedMethod (parts ! 1))
      else (case NovaId_from_address C (parts ! 2) of
              Err e \<Rightarrow> Err (DidInvalidAddress (NovaIdError_fmt e))
            | Ok nova_id \<Rightarrow> Ok \<lparr>did_nova_id = nova_id, did_public_key = public_key\<rparr>))"

section \<open>Documents\<close>

record VerificationMethod =
  vm_id :: string
  vm_type :: string
  vm_controller :: string
  vm_public_key_multibase :: string

record DidDocument =
  dd_context :: "string list"
  dd_id :: string
  dd_verification_method :: "VerificationMethod list"
  dd_authentication :: "string list"
  dd_assertion_method :: "string list"
  dd_created :: datetime

definition NovaDid_to_did_document ::
  "crypto \<Rightarrow> (bytes \<Rightarrow> string) \<Rightarrow> datetime \<Rightarrow> NovaDid \<Rightarrow> DidDocument option" where
  "NovaDid_to_did_document C base58 now self =
     (case NovaDid_to_did_string C self of
        None \<Rightarrow> None
      | Some did_string \<Rightarrow>
          let key_id = did_string @ ''#key-1'';
              multicodec_bytes = [0xed, 0x01] @ pk_bytes (did_public_key self);
              public_key_multibase = ''z'' @ base58 multicodec_bytes
          in Some \<lparr>dd_context = [DID_CONTEXT, ED25519_CONTEXT], dd_id = did_string,
                   dd_verification_method = [\<lparr>vm_id = key_id, vm_type = VERIFICATION_KEY_TYPE,
                     vm_controller = did_string, vm_public_key_multibase = public_key_multibase\<rparr>],
                   dd_authentication = [key_id], dd_assertion_method = [key_id], dd_created = now\<rparr>)"

definition DidDocument_to_json ::
  "(DidDocument \<Rightarrow> (string, string) result) \<Rightarrow> DidDocument \<Rightarrow> (string, DidError) result" where
  "DidDocument_to_json J self = (case J self of Ok s \<Rightarrow> Ok s | Err e \<Rightarrow> Err (DidSerialization e))"

definition DidDocument_from_json ::
  "(string \<Rightarrow> (DidDocument, string) result) \<Rightarrow> string \<Rightarrow> (DidDocument, DidError) result" where
  "DidDocument_from_json P json = (case P json of Ok d \<Rightarrow> Ok d | Err e \<Rightarrow> Err (DidSerialization e))"

definition NovaDid_to_did_document_json ::
  "crypto \<Rightarrow> (bytes \<Rightarrow> string) \<Rightarrow> (DidDocument \<Rightarrow> (string, string) result) \<Rightarrow> datetime \<Rightarrow> NovaDid
   \<Rightarrow> (string, DidError) result option" where
  "NovaDid_to_did_document_json C base58 J now self =
     (case NovaDid_to_did_document C base58 now self of
        None \<Rightarrow> None
      | Some doc \<Rightarrow> Some (DidDocument_to_json J doc))"

definition DidDocument_validate :: "DidDocument \<Rightarrow> (unit, DidError) result" where
  "DidDocument_validate self =
     (if take 9 (dd_id self) \<noteq> ''did:nova:''
      then Err (InvalidFormat (''document ID must start with '' @ [CHR 0x27] @ ''did:nova:'' @ [CHR 0x27]))
      else if dd_verification_method self = []
      then Err (InvalidFormat ''document must have at least one verification method'')
      else if dd_authentication self = []
      then Err (InvalidFormat ''document must have at least one authentication method'')
      else if DID_CONTEXT \<notin> set (dd_context self)
      then Err (InvalidFormat ''document must include DID Core context'')
      else Ok ())"

section \<open>Lemmas\<close>

lemma splitn_did: "splitn 3 (CHR '':'') (''did:nova:'' @ a) = [''did'', ''nova'', a]"
  by (simp add: numeral_3_eq_3)

text \<open>The identifier of a key reads back as the same identity, under \<open>NovaId\<close>'s own equality.\<close>

lemma did_roundtrip:
  assumes "crypto_ok C" and "NovaDid_to_did_string C (NovaDid_from_public_key C pk) = Some s"
  obtains d where "NovaDid_from_did_string C s pk = Ok d" "did_public_key d = pk"
    "NovaId_eq (did_nova_id d) (NovaId_from_public_key C pk)"
proof -
  obtain a where a: "NovaId_to_address C (NovaId_from_public_key C pk) = Some a" "s = ''did:nova:'' @ a"
    using assms(2)
    by (auto simp: NovaDid_to_did_string_def NovaDid_from_public_key_def DID_METHOD_def split: option.splits)
  show ?thesis
    by (rule that [of "\<lparr>did_nova_id = \<lparr>key_hash = c_blake3 C (pk_bytes pk), nid_public_key = None\<rparr>,
          did_public_key = pk\<rparr>"])
      (use address_of_key [OF assms(1) a(1)] in
        \<open>simp_all only: a(2) NovaDid_from_did_string_def splitn_did,
         simp_all add: DID_METHOD_def NovaId_eq_def\<close>)
qed

lemma document_valid:
  assumes "NovaDid_to_did_document C base58 now d = Some doc"
  shows "DidDocument_validate doc = Ok ()"
    and "dd_authentication doc = map vm_id (dd_verification_method doc)"
    and "dd_assertion_method doc = map vm_id (dd_verification_method doc)"
  using assms
  by (auto simp: NovaDid_to_did_document_def NovaDid_to_did_string_def DidDocument_validate_def
      DID_METHOD_def Let_def split: option.splits)

text \<open>
  The public key given to \<open>from_did_string\<close> is not compared with the address: any key is accepted
  for any identifier, and documents generated from the result carry that key.
\<close>

lemma did_accepts_any_key:
  assumes "NovaDid_from_did_string C s pk = Ok d"
  shows "NovaDid_from_did_string C s pk' = Ok (d\<lparr>did_public_key := pk'\<rparr>)"
  using assms by (auto simp: NovaDid_from_did_string_def Let_def split: if_splits result.splits)

end
