(* ===== verification/Validator_Node.thy ===== *)
theory Validator_Node
  imports Producer Ntp
begin

text \<open>
  The validator node, \<open>protocol/src/network/node.rs\<close>: life cycle, incoming transactions and blocks,
  and block production, composed of the transaction checks, the pool, the consensus engine, the
  producer and the in-memory chain. What the source shares through \<open>Arc\<close> is the field \<open>vn_infra\<close>;
  each method is one atomic step. \<open>ValidatorNode::new\<close>, which opens a temporary database, is
  \<open>with_db\<close> on that database. Panics are \<open>None\<close>.
\<close>

section \<open>Types\<close>

datatype NodeStatus = NodeSyncing | NodeActive | NodeValidating | NodeOfflineStatus

datatype NodeError =
    NodeOffline
  | NodeInvalidTransaction string
  | NodeMempoolFull string
  | NodeInvalidBlock string
  | ConsensusNotReady
  | BlockProductionNotReady
  | BlockProductionFailed string

record ('t, 'd, 'u, 'p, 's) ValidatorNode =
  vn_id :: string
  vn_keypair :: NovaKeypair
  vn_address :: string
  vn_stake :: u64
  vn_status :: NodeStatus
  vn_peers :: "string set"
  vn_chain :: Chain
  vn_infra :: "('t, 'd, 'u, 'p, 's) infra"
  vn_consensus :: "ConsensusEngine option"
  vn_producer :: "BlockProducer option"

section \<open>Operations\<close>

definition ValidatorNode_with_db ::
  "('t, 'd, 'u, 'p, 's) node_env \<Rightarrow> NovaKeypair \<Rightarrow> ConsensusConfig \<Rightarrow> ('t, 'd) NovaDB \<Rightarrow> 'u StateTree
   \<Rightarrow> ('t, 'd, 'u, 'p, 's) ValidatorNode" where
  "ValidatorNode_with_db N keypair config db state_tree =
     (let C = se_crypto (ne_smt N) in
      \<lparr>vn_id = NovaPublicKey_to_hex C (NovaKeypair_public_key C keypair), vn_keypair = keypair,
       vn_address = ''/ip4/0.0.0.0/tcp/'' @ show_nat (unat DEFAULT_P2P_PORT), vn_stake = 0,
       vn_status = NodeOfflineStatus, vn_peers = {}, vn_chain = \<lparr>ch_blocks = []\<rparr>,
       vn_infra = \<lparr>inf_db = db, inf_tree = state_tree,
         inf_pool = Mempool_new (ne_pool N)
           (MempoolConfig_default\<lparr>mc_max_size := cc_max_block_transactions config * 10\<rparr>)\<rparr>,
       vn_consensus = None, vn_producer = None\<rparr>)"

definition ValidatorNode_start ::
  "('t, 'd, 'u, 'p, 's) node_env \<Rightarrow> ('t, 'd, 'u, 'p, 's) ValidatorNode \<Rightarrow> ValidatorSet
   \<Rightarrow> ('t, 'd, 'u, 'p, 's) ValidatorNode" where
  "ValidatorNode_start N self validator_set =
     (let config = ConsensusConfig_default;
          self = self\<lparr>vn_status := NodeSyncing,
                      vn_consensus := Some (ConsensusEngine_new config validator_set)\<rparr>
      in if vn_stake self \<ge> cc_stake_requirement config
         then self\<lparr>vn_producer := Some (BlockProducer_new (se_crypto (ne_smt N)) (vn_keypair self)),
                   vn_status := NodeValidating\<rparr>
         else self\<lparr>vn_status := NodeActive\<rparr>)"

definition ValidatorNode_stop ::
  "('t, 'd, 'u, 'p, 's) ValidatorNode \<Rightarrow> ('t, 'd, 'u, 'p, 's) ValidatorNode" where
  "ValidatorNode_stop self =
     self\<lparr>vn_status := NodeOfflineStatus, vn_consensus := None, vn_producer := None, vn_peers := {}\<rparr>"

text \<open>\<open>now_ms\<close> is read by the checks, \<open>now\<close> by the pool.\<close>

definition process_transaction ::
  "('t, 'd, 'u, 'p, 's) node_env \<Rightarrow> u64 \<Rightarrow> u64 \<Rightarrow> ('t, 'd, 'u, 'p, 's) ValidatorNode \<Rightarrow> Transaction
   \<Rightarrow> (('t, 'd, 'u, 'p, 's) ValidatorNode \<times> (unit, NodeError) result) option" where
  "process_transaction N now_ms now self tx =
     (if vn_status self = NodeOfflineStatus then Some (self, Err NodeOffline)
      else case verify_transaction (se_crypto (ne_smt N)) now_ms tx of
             None \<Rightarrow> None
           | Some (Err e) \<Rightarrow> Some (self, Err (NodeInvalidTransaction (TransactionError_fmt e)))
           | Some (Ok _) \<Rightarrow>
               (case Mempool_add (ne_pool N) now (inf_pool (vn_infra self)) tx of
                  (pool, res) \<Rightarrow>
                    let self = self\<lparr>vn_infra := (vn_infra self)\<lparr>inf_pool := pool\<rparr>\<rparr>
                    in case res of
                         Err e \<Rightarrow> Some (self, Err (NodeMempoolFull (MempoolError_fmt e)))
                       | Ok _ \<Rightarrow> Some (self, Ok ())))"

definition process_block ::
  "('t, 'd, 'u, 'p, 's) node_env \<Rightarrow> header_json \<Rightarrow> ('t, 'd, 'u, 'p, 's) ValidatorNode \<Rightarrow> Block
   \<Rightarrow> ('t, 'd, 'u, 'p, 's) ValidatorNode \<times> (unit, NodeError) result" where
  "process_block N json_header self block =
     (if vn_status self = NodeOfflineStatus then (self, Err NodeOffline)
      else case vn_consensus self of
             None \<Rightarrow> (self, Err ConsensusNotReady)
           | Some consensus \<Rightarrow>
               (case ConsensusEngine_validate_block (se_crypto (ne_smt N)) json_header consensus block of
                  Err e \<Rightarrow> (self, Err (NodeInvalidBlock (ConsensusError_fmt e)))
                | Ok _ \<Rightarrow>
                    let pool = Mempool_remove_batch (ne_pool N) (inf_pool (vn_infra self))
                          (map tx_id (blk_transactions block))
                    in (self\<lparr>vn_infra := (vn_infra self)\<lparr>inf_pool := pool\<rparr>,
                             vn_chain := Chain_append (vn_chain self) block\<rparr>, Ok ())))"

definition produce_next_block ::
  "('t, 'd, 'u, 'p, 's) node_env \<Rightarrow> u64 \<Rightarrow> ('t, 'd, 'u, 'p, 's) ValidatorNode
   \<Rightarrow> (('t, 'd, 'u, 'p, 's) ValidatorNode \<times> (ProducedBlock, NodeError) result) option" where
  "produce_next_block N now self =
     (case vn_producer self of
        None \<Rightarrow> Some (self, Err BlockProductionNotReady)
      | Some producer \<Rightarrow>
      case Chain_tip (vn_chain self) of
        None \<Rightarrow> Some (self, Err (NodeInvalidBlock ''chain has no blocks; initialize with genesis first''))
      | Some parent \<Rightarrow>
      case BlockProducer_produce_block N now producer (vn_infra self) parent 1000 of
        None \<Rightarrow> None
      | Some (nf, Err e) \<Rightarrow>
          Some (self\<lparr>vn_infra := nf\<rparr>, Err (BlockProductionFailed (BlockProductionError_fmt e)))
      | Some (nf, Ok produced) \<Rightarrow>
          (case BlockProducer_commit_block N nf (pb_block produced) of
             (nf, Err e) \<Rightarrow>
               Some (self\<lparr>vn_infra := nf\<rparr>, Err (BlockProductionFailed (BlockProductionError_fmt e)))
           | (nf, Ok _) \<Rightarrow>
               Some (self\<lparr>vn_infra := nf, vn_chain := Chain_append (vn_chain self) (pb_block produced)\<rparr>,
                     Ok produced)))"

definition ValidatorNode_add_peer ::
  "('t, 'd, 'u, 'p, 's) ValidatorNode \<Rightarrow> string \<Rightarrow> ('t, 'd, 'u, 'p, 's) ValidatorNode" where
  "ValidatorNode_add_peer self peer_id =
     (if card (vn_peers self) < MAX_PEERS then self\<lparr>vn_peers := insert peer_id (vn_peers self)\<rparr> else self)"

definition ValidatorNode_remove_peer ::
  "('t, 'd, 'u, 'p, 's) ValidatorNode \<Rightarrow> string \<Rightarrow> ('t, 'd, 'u, 'p, 's) ValidatorNode" where
  "ValidatorNode_remove_peer self peer_id = self\<lparr>vn_peers := vn_peers self - {peer_id}\<rparr>"

definition ValidatorNode_peer_count :: "('t, 'd, 'u, 'p, 's) ValidatorNode \<Rightarrow> nat" where
  "ValidatorNode_peer_count self = card (vn_peers self)"

section \<open>Reachable nodes\<close>

inductive node_step ::
  "('t, 'd, 'u, 'p, 's) node_env \<Rightarrow> ('t, 'd, 'u, 'p, 's) ValidatorNode \<Rightarrow> ('t, 'd, 'u, 'p, 's) ValidatorNode
   \<Rightarrow> bool" for N where
  start: "node_step N v (ValidatorNode_start N v vs)"
| stop: "node_step N v (ValidatorNode_stop v)"
| tx: "process_transaction N now_ms now v tx = Some (v', res) \<Longrightarrow> node_step N v v'"
| block: "process_block N jh v b = (v', res) \<Longrightarrow> node_step N v v'"
| produce: "produce_next_block N now v = Some (v', pres) \<Longrightarrow> node_step N v v'"
| stake: "node_step N v (v\<lparr>vn_stake := s\<rparr>)"
| add_peer: "node_step N v (ValidatorNode_add_peer v p)"
| remove_peer: "node_step N v (ValidatorNode_remove_peer v p)"

text \<open>The configuration of the pool that \<open>with_db\<close> makes.\<close>

definition node_pool_config :: "ConsensusConfig \<Rightarrow> MempoolConfig" where
  "node_pool_config config = MempoolConfig_default\<lparr>mc_max_size := cc_max_block_transactions config * 10\<rparr>"

text \<open>Every pending transaction passed the checks of \<open>verify_transaction\<close> at some time.\<close>

definition pool_verified :: "crypto \<Rightarrow> ('p, 's) pool_env \<Rightarrow> ('p, 's) Mempool \<Rightarrow> bool" where
  "pool_verified C E P \<longleftrightarrow>
     (\<forall>i e. entry_at E P i = Some e \<longrightarrow> (\<exists>t. verify_transaction C t (me_transaction e) = Some (Ok ())))"

definition pool_good ::
  "('t, 'd, 'u, 'p, 's) node_env \<Rightarrow> MempoolConfig \<Rightarrow> ('p, 's) Mempool \<Rightarrow> bool" where
  "pool_good N cfg P \<longleftrightarrow> mp_config P = cfg \<and> pool_inv (ne_pool N) P \<and> pool_bounded (ne_pool N) P \<and>
     pool_verified (se_crypto (ne_smt N)) (ne_pool N) P"

text \<open>
  The engine exists exactly while the node is not offline, and is as \<open>start\<close> made it; a validating
  node has a producer and an offline one has none; the peers are within the limit; the pool is good.
\<close>

definition node_inv ::
  "('t, 'd, 'u, 'p, 's) node_env \<Rightarrow> MempoolConfig \<Rightarrow> ('t, 'd, 'u, 'p, 's) ValidatorNode \<Rightarrow> bool" where
  "node_inv N cfg v \<longleftrightarrow>
     (case vn_consensus v of
        None \<Rightarrow> vn_status v = NodeOfflineStatus \<and> vn_producer v = None
      | Some eng \<Rightarrow> vn_status v \<in> {NodeActive, NodeValidating} \<and>
          (\<exists>vs. eng = ConsensusEngine_new ConsensusConfig_default vs) \<and>
          (vn_status v = NodeValidating \<longrightarrow> vn_producer v \<noteq> None)) \<and>
     finite (vn_peers v) \<and> card (vn_peers v) \<le> MAX_PEERS \<and> pool_good N cfg (inf_pool (vn_infra v))"

lemma pool_good_new: "env_ok (ne_pool N) \<Longrightarrow> pool_good N cfg (Mempool_new (ne_pool N) cfg)"
  using new_pool_inv [of "ne_pool N" cfg]
  by (simp add: pool_good_def pool_verified_def Mempool_new_def env_ok_def dm_get_simps)

lemma pool_good_remove:
  "env_ok (ne_pool N) \<Longrightarrow> pool_good N cfg P \<Longrightarrow> pool_good N cfg (Mempool_remove_batch (ne_pool N) P is)"
  by (simp add: pool_good_def remove_batch_inv pool_verified_def entry_remove_batch
      pool_step_config [OF pool_step.remove_batch])

lemma pool_good_add:
  assumes "env_ok (ne_pool N)" and "pool_good N cfg P"
    and "verify_transaction (se_crypto (ne_smt N)) t tx = Some (Ok ())"
  shows "pool_good N cfg (fst (Mempool_add (ne_pool N) now P tx))"
proof -
  have "pool_verified (se_crypto (ne_smt N)) (ne_pool N) (fst (Mempool_add (ne_pool N) now P tx))"
    using assms(2) [unfolded pool_good_def, THEN conjunct2, THEN conjunct1]
  proof (cases rule: add_cases [where tx = tx and now = now])
    case (evict i e)
    then show ?thesis
      using assms by (auto simp: pool_good_def pool_verified_def entry_insert entry_take_out)
  next
    case room
    then show ?thesis
      using assms by (auto simp: pool_good_def pool_verified_def entry_insert)
  qed (use assms(2) in \<open>simp_all add: pool_good_def\<close>)
  moreover have "pool_inv (ne_pool N) (fst (Mempool_add (ne_pool N) now P tx)) \<and>
      pool_bounded (ne_pool N) (fst (Mempool_add (ne_pool N) now P tx))"
    using assms(1,2) by (intro pool_step_inv [OF pool_step.add]) (simp_all add: pool_good_def)
  moreover have "mp_config (fst (Mempool_add (ne_pool N) now P tx)) = cfg"
    using pool_step_config [OF pool_step.add [of "ne_pool N" P now tx]] assms(2) by (simp add: pool_good_def)
  ultimately show ?thesis by (simp add: pool_good_def)
qed

lemma process_transaction_good:
  assumes "env_ok (ne_pool N)" and "process_transaction N now_ms now v tx = Some (v', res)"
    and "pool_good N cfg (inf_pool (vn_infra v))"
  shows "pool_good N cfg (inf_pool (vn_infra v')) \<and>
    (\<exists>P. v' = v\<lparr>vn_infra := (vn_infra v)\<lparr>inf_pool := P\<rparr>\<rparr>)"
proof (cases "v' = v")
  case True
  have "v = v\<lparr>vn_infra := (vn_infra v)\<lparr>inf_pool := inf_pool (vn_infra v)\<rparr>\<rparr>" by simp
  with True assms(3) show ?thesis by blast
next
  case False
  then have "verify_transaction (se_crypto (ne_smt N)) now_ms tx = Some (Ok ())"
    and "v' = v\<lparr>vn_infra := (vn_infra v)\<lparr>inf_pool :=
      fst (Mempool_add (ne_pool N) now (inf_pool (vn_infra v)) tx)\<rparr>\<rparr>"
    using assms(2)
    by (auto simp: process_transaction_def Let_def split: if_splits option.splits result.splits prod.splits)
  with pool_good_add [OF assms(1,3), of now_ms tx now] show ?thesis by auto
qed

lemma produce_pool:
  "BlockProducer_produce_block N now bp nf parent k = Some (nf', res) \<Longrightarrow> inf_pool nf' = inf_pool nf"
  by (auto simp: BlockProducer_produce_block_def Let_def split: option.splits)

lemma commit_pool:
  "inf_pool (fst (BlockProducer_commit_block N nf b)) = inf_pool nf \<or>
   inf_pool (fst (BlockProducer_commit_block N nf b)) =
     Mempool_remove_batch (ne_pool N) (inf_pool nf) (map tx_id (blk_transactions b))"
  by (auto simp: BlockProducer_commit_block_def Let_def split: prod.splits result.splits)

lemma commit_good:
  assumes "env_ok (ne_pool N)" and "pool_good N cfg (inf_pool nf)"
    and "BlockProducer_commit_block N nf b = (nf', res)"
  shows "pool_good N cfg (inf_pool nf')"
  using commit_pool [of N nf b] assms pool_good_remove [OF assms(1,2)] by auto

lemma produce_next_frame:
  assumes "produce_next_block N now v = Some (v', res)"
  shows "vn_consensus v' = vn_consensus v \<and> vn_status v' = vn_status v \<and>
    vn_producer v' = vn_producer v \<and> vn_peers v' = vn_peers v"
  using assms
  by (auto simp: produce_next_block_def split: option.splits result.splits prod.splits)

lemma produce_next_good:
  assumes "env_ok (ne_pool N)" and "produce_next_block N now v = Some (v', res)"
    and "pool_good N cfg (inf_pool (vn_infra v))"
  shows "pool_good N cfg (inf_pool (vn_infra v'))"
  using assms(2,3)
  by (auto simp: produce_next_block_def dest!: produce_pool
      split: option.splits result.splits prod.splits elim!: commit_good [OF assms(1), rotated])

lemma start_inv: "node_inv N cfg v \<Longrightarrow> node_inv N cfg (ValidatorNode_start N v vs)"
  by (auto simp: node_inv_def ValidatorNode_start_def Let_def)

lemma stop_inv: "node_inv N cfg v \<Longrightarrow> node_inv N cfg (ValidatorNode_stop v)"
  by (simp add: node_inv_def ValidatorNode_stop_def)

lemma process_block_inv:
  assumes "env_ok (ne_pool N)" and "node_inv N cfg v" and "process_block N jh v b = (v', res)"
  shows "node_inv N cfg v'"
  using assms pool_good_remove [OF assms(1), of cfg "inf_pool (vn_infra v)"]
  by (auto simp: process_block_def node_inv_def Let_def split: if_splits option.splits result.splits)

lemma peers_inv:
  assumes "node_inv N cfg v"
  shows "node_inv N cfg (ValidatorNode_add_peer v p)" and "node_inv N cfg (ValidatorNode_remove_peer v p)"
  using assms card_Diff1_le [of "vn_peers v" p]
  by (auto simp: node_inv_def ValidatorNode_add_peer_def ValidatorNode_remove_peer_def card_insert_if
      split: option.splits)

lemma node_step_inv:
  assumes "env_ok (ne_pool N)" and "node_step N v v'" and "node_inv N cfg v"
  shows "node_inv N cfg v'"
  using assms(2,3)
proof cases
  case (tx now_ms now tx res)
  from process_transaction_good [OF assms(1) this, of cfg] assms(3) show ?thesis
    by (auto simp: node_inv_def split: option.splits)
next
  case (block jh b res)
  from process_block_inv [OF assms(1,3) this] show ?thesis .
next
  case (produce now pres)
  from produce_next_good [OF assms(1) this, of cfg] produce_next_frame [OF this] assms(3) show ?thesis
    by (auto simp: node_inv_def split: option.splits)
next
  case (stake s)
  with assms(3) show ?thesis by (auto simp: node_inv_def split: option.splits)
qed (use assms(3) start_inv stop_inv peers_inv in \<open>simp_all\<close>)

lemma with_db_inv: "env_ok (ne_pool N) \<Longrightarrow> node_inv N (node_pool_config config) (ValidatorNode_with_db N kp config db tree)"
  by (simp add: node_inv_def ValidatorNode_with_db_def node_pool_config_def Let_def pool_good_new)

text \<open>The invariant holds of every node reached from a new one.\<close>

lemma node_reachable_inv:
  assumes "env_ok (ne_pool N)" and "(node_step N)\<^sup>*\<^sup>* (ValidatorNode_with_db N kp config db tree) v"
  shows "node_inv N (node_pool_config config) v"
  using assms(2)
  by (induction rule: rtranclp_induct) (use assms(1) with_db_inv node_step_inv in blast)+

section \<open>Incoming blocks\<close>

lemma validate_block_reads:
  "ConsensusEngine_validate_block C jh eng b = Ok u \<Longrightarrow>
   bh_height (blk_header b) = ce_next_height eng \<and> bh_parent_hash (blk_header b) = ce_last_block_hash eng"
  by (auto simp: ConsensusEngine_validate_block_def Let_def split: if_splits)

text \<open>
  The engine of a running node never moves: \<open>process_block\<close> does not call \<open>set_chain_state\<close>. So a
  reachable node accepts only blocks of height 0 with the zero parent hash, whatever its chain holds.
\<close>

lemma process_block_genesis_only:
  assumes "env_ok (ne_pool N)" and "(node_step N)\<^sup>*\<^sup>* (ValidatorNode_with_db N kp config db tree) v"
    and "process_block N jh v b = (v', Ok ())"
  shows "bh_height (blk_header b) = 0 \<and> bh_parent_hash (blk_header b) = replicate 32 0"
proof -
  obtain eng u where "vn_consensus v = Some eng"
    and "ConsensusEngine_validate_block (se_crypto (ne_smt N)) jh eng b = Ok u"
    using assms(3) by (auto simp: process_block_def split: if_splits option.splits result.splits)
  moreover from this(1) obtain vs where "eng = ConsensusEngine_new ConsensusConfig_default vs"
    using node_reachable_inv [OF assms(1,2)] by (auto simp: node_inv_def)
  ultimately show ?thesis
    using validate_block_reads by (auto simp: ConsensusEngine_new_def)
qed

text \<open>An accepted block is accepted again, and appended again.\<close>

lemma process_block_repeatable:
  assumes "process_block N jh v b = (v', Ok ())"
  shows "\<exists>v''. process_block N jh v' b = (v'', Ok ()) \<and>
    ch_blocks (vn_chain v'') = ch_blocks (vn_chain v) @ [b, b]"
  using assms
  by (auto simp: process_block_def Chain_append_def Let_def split: if_splits option.splits result.splits)

section \<open>Properties\<close>

lemma pending_from_inv:
  assumes "pool_good N cfg P" and "Mempool_get (ne_pool N) P i = Some tx"
  shows "tx_id tx = i \<and> (\<exists>t. verify_transaction (se_crypto (ne_smt N)) t tx = Some (Ok ()))"
  using assms
  by (auto simp: pool_good_def pool_inv_def entries_ok_def pool_verified_def Mempool_get_def)

lemma process_transaction_pending:
  assumes "env_ok (ne_pool N)" and "pool_good N cfg (inf_pool (vn_infra v))"
    and "process_transaction N now_ms now v tx = Some (v', Ok ())"
  shows "Mempool_get (ne_pool N) (inf_pool (vn_infra v')) (tx_id tx) = Some tx"
proof -
  let ?P = "inf_pool (vn_infra v)"
  have inv: "pool_inv (ne_pool N) ?P" using assms(2) by (simp add: pool_good_def)
  have add: "Mempool_add (ne_pool N) now ?P tx = (inf_pool (vn_infra v'), Ok ())"
    using assms(3)
    by (auto simp: process_transaction_def Let_def split: if_splits option.splits result.splits prod.splits)
  from inv show ?thesis
    by (cases rule: add_cases [where tx = tx and now = now])
      (use add assms(1) in \<open>auto simp: Mempool_get_def entry_insert\<close>)
qed

text \<open>
  C40. A node reached from a new one by any sequence of operations. Every pending transaction lies
  under its own ID and has passed \<open>verify_transaction\<close>; there are at most ten blocks of them, and at
  most \<open>MAX_PEERS\<close> peers. A node that is offline refuses transactions and blocks and produces none,
  unchanged; any other one has a consensus engine, so \<open>ConsensusNotReady\<close> never occurs, and a
  validating one has a producer. A transaction that was accepted is pending.
\<close>
theorem node_life_cycle:
  assumes "env_ok (ne_pool N)" and "(node_step N)\<^sup>*\<^sup>* (ValidatorNode_with_db N kp config db tree) v"
  shows "(\<forall>i tx. Mempool_get (ne_pool N) (inf_pool (vn_infra v)) i = Some tx \<longrightarrow>
        tx_id tx = i \<and> (\<exists>t. verify_transaction (se_crypto (ne_smt N)) t tx = Some (Ok ()))) \<and>
    Mempool_size (ne_pool N) (inf_pool (vn_infra v)) \<le> cc_max_block_transactions config * 10 \<and>
    ValidatorNode_peer_count v \<le> MAX_PEERS \<and>
    (vn_status v = NodeOfflineStatus \<longrightarrow>
       (\<forall>now_ms now tx. process_transaction N now_ms now v tx = Some (v, Err NodeOffline)) \<and>
       (\<forall>jh b. process_block N jh v b = (v, Err NodeOffline)) \<and>
       (\<forall>now. produce_next_block N now v = Some (v, Err BlockProductionNotReady))) \<and>
    (vn_status v \<noteq> NodeOfflineStatus \<longrightarrow>
       vn_consensus v \<noteq> None \<and> (\<forall>jh b. snd (process_block N jh v b) \<noteq> Err ConsensusNotReady)) \<and>
    (vn_status v = NodeValidating \<longrightarrow> vn_producer v \<noteq> None) \<and>
    (\<forall>now_ms now tx v'. process_transaction N now_ms now v tx = Some (v', Ok ()) \<longrightarrow>
       Mempool_get (ne_pool N) (inf_pool (vn_infra v')) (tx_id tx) = Some tx)"
proof -
  have inv: "node_inv N (node_pool_config config) v" by (rule node_reachable_inv [OF assms])
  then have good: "pool_good N (node_pool_config config) (inf_pool (vn_infra v))"
    and peers: "ValidatorNode_peer_count v \<le> MAX_PEERS"
    by (simp_all add: node_inv_def ValidatorNode_peer_count_def)
  from good have "Mempool_size (ne_pool N) (inf_pool (vn_infra v)) \<le> cc_max_block_transactions config * 10"
    by (auto simp: pool_good_def pool_bounded_def node_pool_config_def Mempool_size_def)
  moreover have "vn_consensus v = None \<and> vn_producer v = None" if "vn_status v = NodeOfflineStatus"
    using inv that by (simp add: node_inv_def split: option.splits)
  moreover have "\<exists>eng. vn_consensus v = Some eng" if "vn_status v \<noteq> NodeOfflineStatus"
    using inv that by (simp add: node_inv_def split: option.splits)
  moreover have "vn_producer v \<noteq> None" if "vn_status v = NodeValidating"
    using inv that by (simp add: node_inv_def split: option.splits)
  ultimately show ?thesis
    using pending_from_inv [OF good] peers process_transaction_pending [OF assms(1) good]
    by (auto simp: process_transaction_def process_block_def produce_next_block_def Let_def
        split: option.splits result.splits)
qed

definition demo_node ::
  "((bytes \<times> bytes) list, unit, (bytes \<times> bytes) list, (string \<times> MempoolEntry) list, (string \<times> nat) list)
     ValidatorNode" where
  "demo_node = ValidatorNode_start demo_node_env
     (ValidatorNode_with_db demo_node_env demo_kp ConsensusConfig_default demo_db (StateTree_new demo_env []))
     demo_vset"

theorem node_life_cycle_witness:
  "vn_status demo_node = NodeActive \<and> vn_consensus demo_node \<noteq> None \<and>
   Mempool_size demo_pool_env (inf_pool (vn_infra demo_node)) \<le> 10000"
proof -
  have "(node_step demo_node_env)\<^sup>*\<^sup>* (ValidatorNode_with_db demo_node_env demo_kp ConsensusConfig_default demo_db
      (StateTree_new demo_env [])) demo_node"
    unfolding demo_node_def by (intro r_into_rtranclp node_step.start)
  moreover have "env_ok (ne_pool demo_node_env)" by (simp add: demo_node_env_def demo_pool_env_ok)
  moreover have "vn_status demo_node = NodeActive"
    by (simp add: demo_node_def ValidatorNode_start_def ValidatorNode_with_db_def ConsensusConfig_default_def Let_def)
  ultimately show ?thesis
    using node_life_cycle [of demo_node_env demo_kp ConsensusConfig_default demo_db "StateTree_new demo_env []" demo_node]
    by (simp add: ConsensusConfig_default_def demo_node_env_def)
qed

end
