(* ===== verification/Spec2Isabelle.thy ===== *)
theory Spec2Isabelle
  imports Transactions State_Tree_Props Nova_DB Credit_Escrow Dispute_Resolution Token_Factory Mempool
    Consensus Producer Sync Credit_Lines Vault Recovery Ntp Gossip Secure_Channel Did Validator_Node
begin

text \<open>
  \<^bold>\<open>The NOVA protocol.\<close> The program is a payment ledger: the crate \<open>protocol/\<close> (cryptography, identities,
  transactions, state, consensus, networking, wallets, balance proofs, payment protocol), the crate
  \<open>contracts/\<close> (escrow, disputes, tokens) and the binary \<open>node/\<close>. A transaction is built and signed,
  verified, kept in the pool, selected by the block producer, executed on the state tree, put into a
  block, voted on by the consensus engine, and stored in the database; other nodes receive it by
  gossip or fetch the block by synchronisation. Beside this path stand the contracts, the vault
  (wallets and credit lines), key recovery, and the payment protocol with its balance proofs, which
  ends in a transaction. The theories follow these parts; definitions keep the names of the source,
  a method \<open>T::m\<close> as \<open>T_m\<close> or \<open>m\<close>, fields with a short prefix per record.

  \<^bold>\<open>Conventions.\<close> Integers of Rust are words of their width and wrap (\<open>Nova_Prelude\<close> has the checked
  and saturating forms); \<open>usize\<close> is \<open>nat\<close>. \<open>Result\<close> is the datatype \<open>result\<close>; a method with
  \<open>&mut self\<close> that can fail returns the state and the result, so that an effect before an error is
  visible. A panic is the value \<open>None\<close> of an option around the result. Clocks, random bytes and UUIDs
  are arguments. \<open>HashMap\<close> and \<open>BTreeMap\<close> are association lists (\<open>Rust_Collections\<close>, with the locale
  \<open>hash_map\<close> for the laws of the first). A method that takes a lock is one atomic step.

  \<^bold>\<open>Parameters.\<close> Third-party crates are records of functions, and what is used of them is a named
  hypothesis, instantiated by a concrete model (names \<open>demo_...\<close>) wherever a theorem needs it:
  \<^item> \<open>crypto\<close> and \<open>crypto_ok\<close>: SHA-256, BLAKE3, Ed25519, bech32 and hex; lengths, sign then verify,
    decode after encode. No hash is assumed injective: collision freedom appears as a conclusion
    \<^emph>\<open>unless two named inputs collide\<close>, or as a hypothesis on the inputs at hand.
  \<^item> \<open>smt_env\<close> and \<open>smt_env_ok\<close>: the sled store and the account codec under the state tree;
    \<open>db_env\<close>, \<open>sled_ok\<close> and the codecs of blocks and transactions under the database.
  \<^item> \<open>DashMap\<close> and \<open>dashmap_ok\<close>: the concurrent maps of the pool and of gossip.
  \<^item> \<open>ark\<close> with \<open>fr_ok\<close>, \<open>r1cs_ok\<close>, \<open>groth16_complete\<close>, \<open>ark_codec_ok\<close>: the field, the constraint
    system, completeness of Groth16 and the byte formats of arkworks. Soundness of Groth16 is not
    assumed: what an accepted proof means is stated on the constraint system.
  \<^item> \<open>x25519\<close> and \<open>x25519_ok\<close> (agreement), \<open>aead\<close> and \<open>aead_ok\<close> (open after seal), \<open>plus_secs\<close> and
    \<open>plus_days\<close> (chrono), and JSON serialisers as functions that may fail.

  \<^bold>\<open>Cryptography and transactions.\<close> \<open>Crypto\<close> models \<open>crypto/hash.rs\<close>, \<open>keys.rs\<close>, \<open>signatures.rs\<close> and
  \<open>identity/nova_id.rs\<close>; \<open>Transactions\<close> models \<open>transaction/*.rs\<close> but \<open>confidential.rs\<close>. Shown: the
  canonical bytes are unambiguous, the ID binds what is signed, verification accepts exactly the
  well-formed transactions signed by the owner of the sender address, and never panics, and what
  builder and signer make verifies. \<open>Did\<close> models \<open>identity/did.rs\<close>: identifiers read back, documents
  pass their own validation. \<open>Secure_Channel\<close> models \<open>crypto/pfs.rs\<close> and \<open>crypto/encryption.rs\<close>: both
  ends of an exchange derive one key, once, and messages sealed with it open.

  \<^bold>\<open>State and storage.\<close> \<open>State_Tree\<close> models \<open>storage/state.rs\<close>, the sparse Merkle tree of depth 256 and
  \<open>apply_transfer\<close>. Its invariant \<open>smt_inv\<close> relates stored nodes, values and root to a finite map of
  accounts, which is the abstract specification: the root is the hash of the full tree over the map,
  \<open>get\<close> and \<open>put\<close> are lookup and update of the map, proofs verify and, up to collisions, nothing else
  does (\<open>State_Tree_Props\<close>). The locale \<open>account_store\<close> is what transfers rely on; in it the outcomes
  of a transfer and the conservation of the total are proved, and it is interpreted on the tree.
  \<open>Blocks\<close> models \<open>storage/block.rs\<close> and \<open>storage/chain.rs\<close>; \<open>Nova_DB\<close> models \<open>storage/db.rs\<close> with an
  error possible at every access: a stored block is read back by height, hash and transaction.

  \<^bold>\<open>Network.\<close> \<open>Mempool\<close> models \<open>network/mempool.rs\<close>: in every reachable pool the three indices agree and
  the limits hold; eviction and selection are by fee density. \<open>Consensus\<close> models
  \<open>network/consensus.rs\<close>: conflicting finalised blocks need more than a third of double voters (locale
  \<open>quorum_system\<close>, interpreted on the validator set), and the proposer rotates. \<open>Producer\<close> models
  \<open>network/producer.rs\<close> and \<open>network/consensus_loop.rs\<close>, with a round as a function of the state and
  the loop over a list of ticks: one validator alone finalises its block in one round. \<open>Sync\<close> models
  \<open>network/sync.rs\<close>: a follower that applies the blocks of a producer ends in its state. \<open>Gossip\<close> models
  \<open>network/gossip.rs\<close>: every outcome of an incoming message, and that a message is relayed fewer times
  than its time to live. \<open>Validator_Node\<close> models \<open>network/node.rs\<close>, which joins pool, engine, producer
  and chain: the invariant of every reachable node, and that its engine never leaves height 0.
  \<open>Protocol_Config\<close> holds the constants of \<open>config.rs\<close> that modelled code reads.

  \<^bold>\<open>Contracts and vault.\<close> \<open>Credit_Escrow\<close>, \<open>Dispute_Resolution\<close> and \<open>Token_Factory\<close> model
  \<open>contracts/src/*.rs\<close> with a step relation each and invariants over all reachable states: amounts
  never exceed what was funded or owed, evidence only grows, balances add up to the supply.
  \<open>Credit_Lines\<close> models \<open>vault/credit.rs\<close>, \<open>Vault\<close> the rest of \<open>vault/\<close>: reachable lines and wallets
  agree with the history of their operations. \<open>GF256\<close> and \<open>Recovery\<close> model \<open>identity/recovery.rs\<close>:
  table arithmetic equals polynomial arithmetic modulo 0x11B, any threshold of shares recovers the
  secret, one share fewer is consistent with every secret.

  \<^bold>\<open>Payments.\<close> \<open>Zkp\<close> models \<open>zkp/*.rs\<close> and \<open>transaction/confidential.rs\<close>: the circuit is satisfied
  exactly by balances that cover the amount; confidential transfers are accepted; and the scalar
  commitment binds nothing, so that the proof of funds does not either. \<open>Ntp\<close> models \<open>ntp/*.rs\<close>: the
  five steps compose to a verified receipt, a settlement settles once, the receipt binds its fields.

  \<^bold>\<open>Loops.\<close> Loops are structural recursion or \<open>function\<close> with a measure. The one loop that may run
  forever, the planning loop of \<open>Sync\<close>, is a \<open>partial_function\<close> whose \<open>None\<close> is divergence; it is
  shown to return for a positive batch size and to diverge for zero. No definition uses fuel.

  \<^bold>\<open>Not modelled.\<close> The binary \<open>node/\<close> (argument parsing, HTTP handlers, tokio tasks, libp2p event loop,
  metrics), \<open>network/rpc.rs\<close> (record declarations over JSON values), opening database
  files, interleavings inside one method, log output, the serde derivations, the floating-point
  display functions, and the SDKs, web applications and scripts, which are clients of the node.
\<close>

end
